(* ===== verification/Byte_Prelude.thy ===== *)
theory Byte_Prelude
  imports Main "HOL-Library.Word"
begin

text \<open>
  Shared vocabulary of the development: machine words and byte buffers.

  The trustlet interface of \<^verbatim>\<open>src/egistec/ganges/EGISAPTrustlet.h\<close> overlays C structs
  on a raw shared-memory block. All struct fields are 32-bit integers, stored in the byte
  order of the target (little-endian on the ARM devices this HAL runs on). This theory
  holds
  \<^item> the word types \<open>u8\<close>, \<open>u32\<close>, \<open>u64\<close> and the buffer type \<open>bytes\<close>;
  \<^item> little-endian conversion between words and byte lists (\<open>le_bytes\<close>, \<open>le_word\<close>)
    and between lists of 32-bit words and byte lists (\<open>u32s_bytes\<close>, \<open>bytes_u32s\<close>);
  \<^item> bounds-checked memory primitives on a buffer (\<open>read_bytes\<close>, \<open>write_bytes\<close>,
    \<open>memset_bytes\<close>, \<open>memmove_bytes\<close>, \<open>read_u32\<close>, \<open>write_u32\<close>): an access outside
    the buffer is undefined behaviour in C and the value \<open>None\<close> here;
  \<^item> the interface between struct layouts and buffers: a \<open>codec\<close> of fixed width and the
    typed views \<open>view_get\<close> and \<open>view_put\<close> of a buffer at an offset; \<open>words_codec\<close>
    builds the codec of a struct whose fields are all 32-bit words, and \<open>words_layout\<close>
    is what such a struct must satisfy; the lemmas \<open>field_read\<close> and \<open>field_write\<close>
    relate the access to one field at its byte offset to the decoded struct;
  \<^item> the fact collections \<open>wire_defs\<close> (definitions unfolded when a closed term is
    evaluated) and \<open>layout\<close> (sizes and offsets of the wire contract).
\<close>

unbundle bit_operations_syntax

named_theorems wire_defs "definitions unfolded to evaluate closed terms of the wire model"
named_theorems layout "sizes and offsets fixed by the wire contract"

section \<open>Types\<close>

type_synonym u8 = "8 word"
type_synonym u32 = "32 word"
type_synonym u64 = "64 word"
type_synonym bytes = "u8 list"

section \<open>Little-endian words\<close>

definition le_bytes :: "nat \<Rightarrow> 'a::len word \<Rightarrow> bytes" where
  "le_bytes n w = map (\<lambda>i. ucast (drop_bit (8 * i) w)) [0..<n]"

definition le_word :: "bytes \<Rightarrow> 'a::len word" where
  "le_word bs = word_of_int (horner_sum uint 256 bs)"

definition word_at :: "bytes \<Rightarrow> nat \<Rightarrow> u32" where
  "word_at bs i = le_word (take 4 (drop (4 * i) bs))"

definition u32s_bytes :: "u32 list \<Rightarrow> bytes" where
  "u32s_bytes ws = concat (map (le_bytes 4) ws)"

definition bytes_u32s :: "nat \<Rightarrow> bytes \<Rightarrow> u32 list" where
  "bytes_u32s n bs = map (word_at bs) [0..<n]"

section \<open>Bounds-checked memory primitives\<close>

definition separate :: "nat \<Rightarrow> nat \<Rightarrow> nat \<Rightarrow> nat \<Rightarrow> bool" where
  "separate off n off' n' \<longleftrightarrow> off + n \<le> off' \<or> off' + n' \<le> off"

definition read_bytes :: "bytes \<Rightarrow> nat \<Rightarrow> nat \<Rightarrow> bytes option" where
  "read_bytes buf off n =
     (if off + n \<le> length buf then Some (take n (drop off buf)) else None)"

definition write_bytes :: "bytes \<Rightarrow> nat \<Rightarrow> bytes \<Rightarrow> bytes option" where
  "write_bytes buf off bs =
     (if off + length bs \<le> length buf
      then Some (take off buf @ bs @ drop (off + length bs) buf) else None)"

definition memset_bytes :: "bytes \<Rightarrow> nat \<Rightarrow> u8 \<Rightarrow> nat \<Rightarrow> bytes option" where
  "memset_bytes buf off c n = write_bytes buf off (replicate n c)"

definition memmove_bytes :: "bytes \<Rightarrow> nat \<Rightarrow> nat \<Rightarrow> nat \<Rightarrow> bytes option" where
  "memmove_bytes buf dst src n =
     (case read_bytes buf src n of
        None \<Rightarrow> None
      | Some bs \<Rightarrow> write_bytes buf dst bs)"

definition read_u32 :: "bytes \<Rightarrow> nat \<Rightarrow> u32 option" where
  "read_u32 buf off = map_option le_word (read_bytes buf off 4)"

definition write_u32 :: "bytes \<Rightarrow> nat \<Rightarrow> u32 \<Rightarrow> bytes option" where
  "write_u32 buf off w = write_bytes buf off (le_bytes 4 w)"

section \<open>Fixed-width codecs and typed views\<close>

record 'a codec =
  width :: nat
  enc :: "'a \<Rightarrow> bytes"
  dec :: "bytes \<Rightarrow> 'a"

definition fixed_codec :: "'a codec \<Rightarrow> bool" where
  "fixed_codec c \<longleftrightarrow>
     (\<forall>x. length (enc c x) = width c) \<and>
     (\<forall>x. dec c (enc c x) = x) \<and>
     (\<forall>bs. length bs = width c \<longrightarrow> enc c (dec c bs) = bs)"

definition view_get :: "'a codec \<Rightarrow> nat \<Rightarrow> bytes \<Rightarrow> 'a option" where
  "view_get c off buf = map_option (dec c) (read_bytes buf off (width c))"

definition view_put :: "'a codec \<Rightarrow> nat \<Rightarrow> 'a \<Rightarrow> bytes \<Rightarrow> bytes option" where
  "view_put c off x buf = write_bytes buf off (enc c x)"

definition words_codec :: "nat \<Rightarrow> ('a \<Rightarrow> u32 list) \<Rightarrow> (u32 list \<Rightarrow> 'a) \<Rightarrow> 'a codec" where
  "words_codec n un mk = \<lparr>width = 4 * n, enc = u32s_bytes \<circ> un, dec = mk \<circ> bytes_u32s n\<rparr>"

definition words_layout :: "nat \<Rightarrow> ('a \<Rightarrow> u32 list) \<Rightarrow> (u32 list \<Rightarrow> 'a) \<Rightarrow> bool" where
  "words_layout n un mk \<longleftrightarrow>
     (\<forall>x. length (un x) = n) \<and> (\<forall>x. mk (un x) = x) \<and>
     (\<forall>ws. length ws = n \<longrightarrow> un (mk ws) = ws)"

lemmas mem_defs [wire_defs] =
  read_bytes_def write_bytes_def memset_bytes_def memmove_bytes_def
  read_u32_def write_u32_def view_get_def view_put_def
  le_bytes_def le_word_def word_at_def u32s_bytes_def bytes_u32s_def words_codec_def

section \<open>Lemmas: lists\<close>

lemma find_inj_val:
  assumes "inj_on f (set xs)" and "x \<in> set xs"
  shows "find (\<lambda>c. f c = f x) xs = Some x"
  using assms by (induction xs) (auto simp: inj_on_def)

lemma chunk_append: "k + n = m \<Longrightarrow> take n (drop k xs) @ drop m xs = drop k xs"
  by (metis add.commute append_take_drop_id drop_drop)

lemma list_eq_nths5: "length ws = 5 \<Longrightarrow> [ws ! 0, ws ! Suc 0, ws ! 2, ws ! 3, ws ! 4] = ws"
  by (rule nth_equalityI) (auto simp: less_Suc_eq numeral_eq_Suc)

lemma list_eq_nths8:
  "length ws = 8 \<Longrightarrow> [ws ! 0, ws ! Suc 0, ws ! 2, ws ! 3, ws ! 4, ws ! 5, ws ! 6, ws ! 7] = ws"
  by (rule nth_equalityI) (auto simp: less_Suc_eq numeral_eq_Suc)

section \<open>Lemmas: little-endian words\<close>

lemma length_le_bytes [simp]: "length (le_bytes n w) = n"
  by (simp add: le_bytes_def)

lemma nth_le_bytes: "i < n \<Longrightarrow> le_bytes n w ! i = ucast (drop_bit (8 * i) w)"
  by (simp add: le_bytes_def)

lemma bit_le_word_iff:
  "bit (le_word bs :: 'a::len word) n \<longleftrightarrow>
     n < LENGTH('a) \<and> n div 8 < length bs \<and> bit (bs ! (n div 8)) (n mod 8)"
  using bit_horner_sum_uint_exp_iff [where ?'a = 8, of bs n]
  by (simp add: le_word_def bit_word_of_int_iff)

lemma le_word_Cons: "le_word (b # bs) = (ucast b + 256 * le_word bs :: 'a::len word)"
  by (simp add: le_word_def)

lemma le_word_bytes:
  fixes w :: "'a::len word"
  assumes "LENGTH('a) \<le> 8 * n"
  shows "le_word (le_bytes n w) = w"
proof (rule bit_word_eqI)
  fix k assume k: "k < LENGTH('a)"
  with assms have "k div 8 < n" by simp
  with k show "bit (le_word (le_bytes n w) :: 'a word) k = bit w k"
    by (simp add: bit_le_word_iff nth_le_bytes bit_simps)
qed

lemma le_bytes_word:
  assumes "8 * length bs \<le> LENGTH('a::len)"
  shows "le_bytes (length bs) (le_word bs :: 'a word) = bs"
proof (rule nth_equalityI)
  show "length (le_bytes (length bs) (le_word bs :: 'a word)) = length bs" by simp
next
  fix i assume "i < length (le_bytes (length bs) (le_word bs :: 'a word))"
  then have i: "i < length bs" by simp
  show "le_bytes (length bs) (le_word bs :: 'a word) ! i = bs ! i"
  proof (rule bit_word_eqI)
    fix k assume "k < LENGTH(8)"
    then have k: "k < 8" by simp
    with i assms have "8 * i + k < LENGTH('a)" by simp
    with i k show "bit (le_bytes (length bs) (le_word bs :: 'a word) ! i) k = bit (bs ! i) k"
      by (simp add: nth_le_bytes bit_simps bit_le_word_iff)
  qed
qed

lemma le_word_bytes_u32 [simp]: "le_word (le_bytes 4 w) = (w :: u32)"
  by (rule le_word_bytes) simp

lemma le_word_bytes_u64 [simp]: "le_word (le_bytes 8 w) = (w :: u64)"
  by (rule le_word_bytes) simp

lemma le_bytes_word_u32: "length bs = 4 \<Longrightarrow> le_bytes 4 (le_word bs :: u32) = bs"
  using le_bytes_word [where ?'a = 32, of bs] by simp

lemma le_bytes_word_u64: "length bs = 8 \<Longrightarrow> le_bytes 8 (le_word bs :: u64) = bs"
  using le_bytes_word [where ?'a = 64, of bs] by simp

lemma le_bytes_inj_u32: "le_bytes 4 (v :: u32) = le_bytes 4 w \<longleftrightarrow> v = w"
  by (metis le_word_bytes_u32)

lemma le_bytes_zero [simp]: "le_bytes n 0 = replicate n 0"
  by (simp add: le_bytes_def map_replicate_const)

lemma le_word_zeros [simp]: "le_word (replicate n 0) = 0"
  by (rule bit_word_eqI) (simp add: bit_le_word_iff)

section \<open>Lemmas: lists of 32-bit words\<close>

lemma length_u32s_bytes [simp]: "length (u32s_bytes ws) = 4 * length ws"
  by (induction ws) (simp_all add: u32s_bytes_def)

lemma u32s_bytes_Nil [simp]: "u32s_bytes [] = []"
  by (simp add: u32s_bytes_def)

lemma u32s_bytes_Cons [simp]: "u32s_bytes (w # ws) = le_bytes 4 w @ u32s_bytes ws"
  by (simp add: u32s_bytes_def)

lemma u32s_bytes_append [simp]: "u32s_bytes (xs @ ys) = u32s_bytes xs @ u32s_bytes ys"
  by (simp add: u32s_bytes_def)

lemma u32s_bytes_zeros [simp]: "u32s_bytes (replicate n 0) = replicate (4 * n) 0"
  by (induction n) (simp_all add: replicate_add [symmetric])

lemma word_at_0 [simp]: "word_at (le_bytes 4 w @ bs) 0 = w"
  by (simp add: word_at_def)

lemma word_at_Suc [simp]: "word_at (le_bytes 4 w @ bs) (Suc i) = word_at bs i"
  by (simp add: word_at_def)

lemma word_at_u32s_bytes: "i < length ws \<Longrightarrow> word_at (u32s_bytes ws) i = ws ! i"
proof (induction ws arbitrary: i)
  case Nil then show ?case by simp
next
  case (Cons w ws) then show ?case by (cases i) simp_all
qed

lemma bytes_u32s_append:
  "length bs = 4 * n \<Longrightarrow> bytes_u32s n (bs @ cs) = bytes_u32s n bs"
  by (simp add: bytes_u32s_def word_at_def)

lemma length_bytes_u32s [simp]: "length (bytes_u32s n bs) = n"
  by (simp add: bytes_u32s_def)

lemma bytes_u32s_u32s_bytes [simp]: "bytes_u32s (length ws) (u32s_bytes ws) = ws"
  by (rule nth_equalityI) (simp_all add: bytes_u32s_def word_at_u32s_bytes)

lemma u32s_bytes_bytes_u32s:
  "length bs = 4 * n \<Longrightarrow> u32s_bytes (bytes_u32s n bs) = bs"
proof (induction n arbitrary: bs)
  case 0 then show ?case by (simp add: bytes_u32s_def)
next
  case (Suc n)
  have "bytes_u32s (Suc n) bs = word_at bs 0 # bytes_u32s n (drop 4 bs)"
    by (simp add: bytes_u32s_def word_at_def upt_rec [of 0] map_Suc_upt [symmetric] add.commute del: upt_Suc)
  with Suc show ?case
    by (simp add: word_at_def le_bytes_word_u32)
qed

section \<open>Lemmas: memory primitives\<close>

lemma separate_sym: "separate off n off' n' \<longleftrightarrow> separate off' n' off n"
  by (auto simp: separate_def)

lemma read_bytes_Some_iff:
  "read_bytes buf off n = Some bs \<longleftrightarrow> off + n \<le> length buf \<and> bs = take n (drop off buf)"
  by (auto simp: read_bytes_def)

lemma read_bytes_None_iff: "read_bytes buf off n = None \<longleftrightarrow> length buf < off + n"
  by (auto simp: read_bytes_def)

lemma read_bytes_length: "read_bytes buf off n = Some bs \<Longrightarrow> length bs = n"
  by (auto simp: read_bytes_def split: if_splits)

lemma write_bytes_Some_iff:
  "(\<exists>buf'. write_bytes buf off bs = Some buf') \<longleftrightarrow> off + length bs \<le> length buf"
  by (simp add: write_bytes_def)

lemma write_bytes_None_iff: "write_bytes buf off bs = None \<longleftrightarrow> length buf < off + length bs"
  by (auto simp: write_bytes_def)

lemma write_bytes_length: "write_bytes buf off bs = Some buf' \<Longrightarrow> length buf' = length buf"
  by (auto simp: write_bytes_def split: if_splits)

lemma write_bytes_nth:
  assumes "write_bytes buf off bs = Some buf'" and "i < length buf"
  shows "buf' ! i = (if off \<le> i \<and> i < off + length bs then bs ! (i - off) else buf ! i)"
  using assms by (auto simp: write_bytes_def nth_append split: if_splits)

lemma read_write_same:
  "write_bytes buf off bs = Some buf' \<Longrightarrow> read_bytes buf' off (length bs) = Some bs"
  by (auto simp: write_bytes_def read_bytes_def split: if_splits)

lemma read_write_separate:
  assumes "write_bytes buf off bs = Some buf'" and "separate off (length bs) off' n"
  shows "read_bytes buf' off' n = read_bytes buf off' n"
proof (cases "off' + n \<le> length buf")
  case False
  with assms(1) show ?thesis by (simp add: read_bytes_def write_bytes_length)
next
  case True
  have len: "length buf' = length buf" using assms(1) by (rule write_bytes_length)
  have "take n (drop off' buf') = take n (drop off' buf)"
  proof (rule nth_equalityI)
    show "length (take n (drop off' buf')) = length (take n (drop off' buf))"
      by (simp add: len)
  next
    fix i assume "i < length (take n (drop off' buf'))"
    then have i: "i < n" by simp
    with True have "off' + i < length buf" by simp
    moreover from i assms(2) have "\<not> (off \<le> off' + i \<and> off' + i < off + length bs)"
      by (auto simp: separate_def)
    ultimately have "buf' ! (off' + i) = buf ! (off' + i)"
      using write_bytes_nth [OF assms(1), of "off' + i"] by auto
    with i True show "take n (drop off' buf') ! i = take n (drop off' buf) ! i"
      by (simp add: len)
  qed
  with True show ?thesis by (simp add: read_bytes_def len)
qed

lemma write_read_id:
  "read_bytes buf off n = Some bs \<Longrightarrow> write_bytes buf off bs = Some buf"
  by (auto simp: read_bytes_def write_bytes_def min_def split: if_splits)
    (metis add.commute append_take_drop_id drop_drop)

lemma write_write_same:
  assumes "write_bytes buf off bs = Some buf'" and "length cs = length bs"
  shows "write_bytes buf' off cs = write_bytes buf off cs"
  using assms by (auto simp: write_bytes_def split: if_splits)

lemma memmove_bytes_Some_iff:
  "(\<exists>buf'. memmove_bytes buf dst src n = Some buf') \<longleftrightarrow>
     src + n \<le> length buf \<and> dst + n \<le> length buf"
  by (auto simp: memmove_bytes_def read_bytes_def write_bytes_def)

lemma memmove_bytes_length:
  "memmove_bytes buf dst src n = Some buf' \<Longrightarrow> length buf' = length buf"
  by (auto simp: memmove_bytes_def dest: write_bytes_length split: option.splits)

lemma memmove_bytes_dst:
  "memmove_bytes buf dst src n = Some buf' \<Longrightarrow> read_bytes buf' dst n = read_bytes buf src n"
  by (auto simp: memmove_bytes_def split: option.splits
      dest!: read_write_same dest: read_bytes_length)

lemma memmove_bytes_separate:
  assumes "memmove_bytes buf dst src n = Some buf'" and "separate dst n off m"
  shows "read_bytes buf' off m = read_bytes buf off m"
  using assms
  by (auto simp: memmove_bytes_def split: option.splits
      dest: read_bytes_length intro: read_write_separate)

lemma memmove_bytes_nth:
  assumes "memmove_bytes buf dst src n = Some buf'" and "i < length buf"
  shows "buf' ! i = (if dst \<le> i \<and> i < dst + n then buf ! (src + (i - dst)) else buf ! i)"
proof -
  from assms(1) have src: "src + n \<le> length buf"
    and wr: "write_bytes buf dst (take n (drop src buf)) = Some buf'"
    by (auto simp: memmove_bytes_def read_bytes_def split: if_splits)
  from src have "length (take n (drop src buf)) = n" by simp
  with write_bytes_nth [OF wr assms(2)] src show ?thesis by auto
qed

lemma memset_bytes_length:
  "memset_bytes buf off c n = Some buf' \<Longrightarrow> length buf' = length buf"
  by (auto simp: memset_bytes_def dest: write_bytes_length)

lemma memset_bytes_read:
  "memset_bytes buf off c n = Some buf' \<Longrightarrow> read_bytes buf' off n = Some (replicate n c)"
  using read_write_same [of buf off "replicate n c" buf'] by (simp add: memset_bytes_def)

lemma memset_bytes_separate:
  "memset_bytes buf off c n = Some buf' \<Longrightarrow> separate off n off' m \<Longrightarrow>
     read_bytes buf' off' m = read_bytes buf off' m"
  using read_write_separate [of buf off "replicate n c" buf' off' m] by (simp add: memset_bytes_def)

lemma read_bytes_sub:
  assumes "read_bytes buf off n = Some bs" and "k + m \<le> n"
  shows "read_bytes buf (off + k) m = Some (take m (drop k bs))"
  using assms
  by (auto simp: read_bytes_def take_drop ac_simps min_def split: if_splits)

lemma read_u32_write_u32_same:
  "write_u32 buf off w = Some buf' \<Longrightarrow> read_u32 buf' off = Some w"
  using read_write_same [of buf off "le_bytes 4 w" buf'] by (simp add: read_u32_def write_u32_def)

lemma read_u32_write_u32_separate:
  "write_u32 buf off w = Some buf' \<Longrightarrow> separate off 4 off' 4 \<Longrightarrow>
     read_u32 buf' off' = read_u32 buf off'"
  using read_write_separate [of buf off "le_bytes 4 w" buf' off' 4]
  by (simp add: read_u32_def write_u32_def)

section \<open>Lemmas: codecs and typed views\<close>

lemma fixed_codecI:assumes "\<And>x. length (enc c x) = width c"
    and "\<And>x. dec c (enc c x) = x"
    and "\<And>bs. length bs = width c \<Longrightarrow> enc c (dec c bs) = bs"
  shows "fixed_codec c"
  using assms by (simp add: fixed_codec_def)

lemma fixed_codec_length: "fixed_codec c \<Longrightarrow> length (enc c x) = width c"
  by (simp add: fixed_codec_def)

lemma fixed_codec_dec_enc: "fixed_codec c \<Longrightarrow> dec c (enc c x) = x"
  by (simp add: fixed_codec_def)

lemma fixed_codec_enc_dec: "fixed_codec c \<Longrightarrow> length bs = width c \<Longrightarrow> enc c (dec c bs) = bs"
  by (simp add: fixed_codec_def)

lemma fixed_codec_enc_inj: "fixed_codec c \<Longrightarrow> enc c x = enc c y \<longleftrightarrow> x = y"
  by (metis fixed_codec_dec_enc)

lemma fixed_words_codec:
  assumes "\<And>x. length (un x) = n" and "\<And>x. mk (un x) = x"
    and "\<And>ws. length ws = n \<Longrightarrow> un (mk ws) = ws"
  shows "fixed_codec (words_codec n un mk)"
proof (rule fixed_codecI)
  fix x show "length (enc (words_codec n un mk) x) = width (words_codec n un mk)"
    by (simp add: words_codec_def assms(1))
next
  fix x
  have "bytes_u32s n (u32s_bytes (un x)) = un x"
    using bytes_u32s_u32s_bytes [of "un x"] by (simp add: assms(1))
  then show "dec (words_codec n un mk) (enc (words_codec n un mk) x) = x"
    by (simp add: words_codec_def assms(2))
next
  fix bs :: bytes assume "length bs = width (words_codec n un mk)"
  then have "length bs = 4 * n" by (simp add: words_codec_def)
  then show "enc (words_codec n un mk) (dec (words_codec n un mk) bs) = bs"
    by (simp add: words_codec_def assms(3) u32s_bytes_bytes_u32s)
qed

lemma view_get_Some_iff:
  "(\<exists>x. view_get c off buf = Some x) \<longleftrightarrow> off + width c \<le> length buf"
  by (simp add: view_get_def read_bytes_def)

lemma view_get_None_iff: "view_get c off buf = None \<longleftrightarrow> length buf < off + width c"
  by (auto simp: view_get_def read_bytes_def)

lemma view_put_Some_iff:
  "fixed_codec c \<Longrightarrow> (\<exists>buf'. view_put c off x buf = Some buf') \<longleftrightarrow> off + width c \<le> length buf"
  by (simp add: view_put_def write_bytes_def fixed_codec_length)

lemma view_put_length: "view_put c off x buf = Some buf' \<Longrightarrow> length buf' = length buf"
  by (auto simp: view_put_def dest: write_bytes_length)

lemma view_get_put_same:
  assumes "fixed_codec c" and "view_put c off x buf = Some buf'"
  shows "view_get c off buf' = Some x"
  using assms read_write_same [of buf off "enc c x" buf']
  by (simp add: view_get_def view_put_def fixed_codec_length fixed_codec_dec_enc)

lemma view_get_put_separate:
  assumes "fixed_codec c" and "view_put c off x buf = Some buf'"
    and "separate off (width c) off' (width d)"
  shows "view_get d off' buf' = view_get d off' buf"
  using assms read_write_separate [of buf off "enc c x" buf' off' "width d"]
  by (simp add: view_get_def view_put_def fixed_codec_length)

lemma read_bytes_put_separate:
  assumes "fixed_codec c" and "view_put c off x buf = Some buf'"
    and "separate off (width c) off' n"
  shows "read_bytes buf' off' n = read_bytes buf off' n"
  using assms read_write_separate [of buf off "enc c x" buf' off' n]
  by (simp add: view_put_def fixed_codec_length)

lemma view_put_get_id:
  assumes "fixed_codec c" and "view_get c off buf = Some x"
  shows "view_put c off x buf = Some buf"
proof -
  from assms(2) obtain bs where bs: "read_bytes buf off (width c) = Some bs" and x: "x = dec c bs"
    by (auto simp: view_get_def)
  from bs have "length bs = width c" by (rule read_bytes_length)
  with assms(1) x have "enc c x = bs" by (simp add: fixed_codec_enc_dec)
  with bs show ?thesis by (simp add: view_put_def write_read_id)
qed

section \<open>Lemmas: structs of 32-bit fields, accessed field by field\<close>

lemma words_layoutI:
  assumes "\<And>x. length (un x) = n" and "\<And>x. mk (un x) = x"
    and "\<And>ws. length ws = n \<Longrightarrow> un (mk ws) = ws"
  shows "words_layout n un mk"
  using assms by (simp add: words_layout_def)

lemma words_layout_fixed: "words_layout n un mk \<Longrightarrow> fixed_codec (words_codec n un mk)"
  by (rule fixed_words_codec) (simp_all add: words_layout_def)

lemma read_u32_word_at:
  assumes "read_bytes buf off (4 * n) = Some bs" and "i < n"
  shows "read_u32 buf (off + 4 * i) = Some (word_at bs i)"
  using read_bytes_sub [OF assms(1), of "4 * i" 4] assms(2)
  by (simp add: read_u32_def word_at_def)

lemma words_view_get:
  assumes "words_layout n un mk" and "view_get (words_codec n un mk) off buf = Some x"
  shows "\<exists>bs. read_bytes buf off (4 * n) = Some bs \<and> un x = bytes_u32s n bs"
  using assms by (auto simp: view_get_def words_codec_def words_layout_def)

lemma field_read:
  assumes "words_layout n un mk" and "view_get (words_codec n un mk) off buf = Some x"
    and "i < n"
  shows "read_u32 buf (off + 4 * i) = Some (un x ! i)"
proof -
  from words_view_get [OF assms(1,2)] obtain bs
    where bs: "read_bytes buf off (4 * n) = Some bs" and x: "un x = bytes_u32s n bs" by blast
  from bs assms(3) have "read_u32 buf (off + 4 * i) = Some (word_at bs i)"
    by (rule read_u32_word_at)
  with x assms(3) show ?thesis by (simp add: bytes_u32s_def)
qed

lemma field_reads_view:
  assumes lay: "words_layout n un mk" and len: "off + 4 * n \<le> length buf"
    and rd: "\<And>i. i < n \<Longrightarrow> read_u32 buf (off + 4 * i) = Some (ws ! i)" and ws: "length ws = n"
  shows "view_get (words_codec n un mk) off buf = Some (mk ws)"
proof -
  from len obtain bs where bs: "read_bytes buf off (4 * n) = Some bs"
    by (auto simp: read_bytes_def)
  have "bytes_u32s n bs = ws"
  proof (rule nth_equalityI)
    show "length (bytes_u32s n bs) = length ws" by (simp add: ws)
  next
    fix i assume "i < length (bytes_u32s n bs)"
    then have i: "i < n" by simp
    from read_u32_word_at [OF bs i] rd [OF i] have "word_at bs i = ws ! i" by simp
    with i show "bytes_u32s n bs ! i = ws ! i" by (simp add: bytes_u32s_def)
  qed
  with bs show ?thesis by (simp add: view_get_def words_codec_def)
qed

lemma field_write:
  assumes lay: "words_layout n un mk" and get: "view_get (words_codec n un mk) off buf = Some x"
    and i: "i < n" and wr: "write_u32 buf (off + 4 * i) w = Some buf'"
  shows "view_get (words_codec n un mk) off buf' = Some (mk ((un x)[i := w]))"
proof (rule field_reads_view [OF lay])
  from get have "off + 4 * n \<le> length buf"
    by (auto simp: view_get_def words_codec_def read_bytes_def split: if_splits)
  moreover from wr have "length buf' = length buf"
    by (auto simp: write_u32_def dest: write_bytes_length)
  ultimately show "off + 4 * n \<le> length buf'" by simp
next
  show "length ((un x)[i := w]) = n" using lay by (simp add: words_layout_def)
next
  fix j assume j: "j < n"
  have len: "length (un x) = n" using lay by (simp add: words_layout_def)
  show "read_u32 buf' (off + 4 * j) = Some ((un x)[i := w] ! j)"
  proof (cases "j = i")
    case True
    with wr i len show ?thesis by (simp add: read_u32_write_u32_same)
  next
    case False
    then have "separate (off + 4 * i) 4 (off + 4 * j) 4" by (auto simp: separate_def)
    with wr have "read_u32 buf' (off + 4 * j) = read_u32 buf (off + 4 * j)"
      by (rule read_u32_write_u32_separate)
    with False j len show ?thesis by (simp add: field_read [OF lay get])
  qed
qed

lemma field_write_defined:
  assumes "view_get (words_codec n un mk) off buf = Some x" and "i < n"
  shows "\<exists>buf'. write_u32 buf (off + 4 * i) w = Some buf'"
  using assms
  by (auto simp: view_get_def words_codec_def read_bytes_def write_u32_def write_bytes_def
      split: if_splits)

section \<open>Properties\<close>

text \<open>
  A 32-bit field is stored least significant byte first in four bytes, reading
  the four bytes gives the value back, and distinct values have distinct encodings.
\<close>

theorem le_u32_roundtrip:
  "le_word (le_bytes 4 w) = (w :: u32) \<and>
   le_bytes 4 w = [ucast w, ucast (drop_bit 8 w), ucast (drop_bit 16 w), ucast (drop_bit 24 w)] \<and>
   (le_bytes 4 v = le_bytes 4 w \<longleftrightarrow> v = w)"
proof (intro conjI)
  show rt: "le_word (le_bytes 4 w) = w" for w :: u32
    by (rule le_word_bytes) simp
  show "le_bytes 4 w = [ucast w, ucast (drop_bit 8 w), ucast (drop_bit 16 w), ucast (drop_bit 24 w)]"
    by (simp add: le_bytes_def upt_rec)
  show "le_bytes 4 v = le_bytes 4 w \<longleftrightarrow> v = w"
  proof
    assume "le_bytes 4 v = le_bytes 4 w"
    then have "(le_word (le_bytes 4 v) :: u32) = le_word (le_bytes 4 w)" by simp
    then show "v = w" by (simp only: rt)
  qed simp
qed

end
