(* ===== verification/Wire_Enums.thy ===== *)
theory Wire_Enums
  imports Byte_Prelude
begin

text \<open>
  The two closed enumerations of the wire contract, \<^verbatim>\<open>CommandId\<close> and \<^verbatim>\<open>ImageResult\<close>
  (\<^verbatim>\<open>EGISAPTrustlet.h\<close>, lines 14--51). Both are C++ scoped enumerations over
  \<^verbatim>\<open>uint32_t\<close>: a struct field of such a type can hold any 32-bit value, so the struct
  models keep the raw \<open>u32\<close> and this theory gives the named enumerators as a datatype
  together with the conversion in both directions: \<open>CommandId_val\<close> is the numeric
  value of an enumerator, \<open>CommandId_of\<close> recognises a raw value (\<open>None\<close> for a value
  that names no enumerator). The enumerators are ordered by their numeric value, as the
  built-in comparison of C++ orders them.
\<close>

section \<open>Command identifiers\<close>

datatype CommandId =
    SetMasterKey
  | InitializeAlgo
  | InitializeSensor
  | Calibrate
  | GetImage
  | InitializeEnroll
  | Enroll
  | FinalizeEnroll
  | SaveEnrolledPrint
  | GetPrintIds
  | SetWorkMode
  | SetUserDataPath
  | SetDataPath
  | CheckSecureId
  | CheckAuthToken
  | GetAuthenticatorId
  | IsFingerLost
  | OpenSpi
  | CloseSpi

fun CommandId_val :: "CommandId \<Rightarrow> u32" where
  "CommandId_val SetMasterKey = 0"
| "CommandId_val InitializeAlgo = 1"
| "CommandId_val InitializeSensor = 2"
| "CommandId_val Calibrate = 6"
| "CommandId_val GetImage = 0x8"
| "CommandId_val InitializeEnroll = 0xb"
| "CommandId_val Enroll = 0xc"
| "CommandId_val FinalizeEnroll = 0xd"
| "CommandId_val SaveEnrolledPrint = 0xe"
| "CommandId_val GetPrintIds = 0x16"
| "CommandId_val SetWorkMode = 0x17"
| "CommandId_val SetUserDataPath = 0x18"
| "CommandId_val SetDataPath = 0x19"
| "CommandId_val CheckSecureId = 0x1e"
| "CommandId_val CheckAuthToken = 0x1f"
| "CommandId_val GetAuthenticatorId = 0x20"
| "CommandId_val IsFingerLost = 0x25"
| "CommandId_val OpenSpi = 0x29"
| "CommandId_val CloseSpi = 0x2a"

definition all_CommandIds :: "CommandId list" where
  "all_CommandIds =
     [SetMasterKey, InitializeAlgo, InitializeSensor, Calibrate, GetImage,
      InitializeEnroll, Enroll, FinalizeEnroll, SaveEnrolledPrint,
      GetPrintIds, SetWorkMode, SetUserDataPath, SetDataPath,
      CheckSecureId, CheckAuthToken, GetAuthenticatorId, IsFingerLost,
      OpenSpi, CloseSpi]"

definition CommandId_of :: "u32 \<Rightarrow> CommandId option" where
  "CommandId_of w = find (\<lambda>c. CommandId_val c = w) all_CommandIds"

section \<open>Image results\<close>

datatype ImageResult =
    Good
  | Detected1
  | TooFast
  | Detected3
  | Lost
  | ImagerDirty
  | Partial
  | Nothing
  | DirtOnSensor

fun ImageResult_val :: "ImageResult \<Rightarrow> u32" where
  "ImageResult_val Good = 0"
| "ImageResult_val Detected1 = 1"
| "ImageResult_val TooFast = 2"
| "ImageResult_val Detected3 = 3"
| "ImageResult_val Lost = 6"
| "ImageResult_val ImagerDirty = 7"
| "ImageResult_val Partial = 8"
| "ImageResult_val Nothing = 10"
| "ImageResult_val DirtOnSensor = 0xd"

definition all_ImageResults :: "ImageResult list" where
  "all_ImageResults =
     [Good, Detected1, TooFast, Detected3, Lost, ImagerDirty, Partial, Nothing, DirtOnSensor]"

definition ImageResult_of :: "u32 \<Rightarrow> ImageResult option" where
  "ImageResult_of w = find (\<lambda>r. ImageResult_val r = w) all_ImageResults"

section \<open>Order and enumeration instances\<close>

instantiation CommandId :: linorder
begin

definition less_eq_CommandId :: "CommandId \<Rightarrow> CommandId \<Rightarrow> bool" where
  "less_eq_CommandId c d \<longleftrightarrow> unat (CommandId_val c) \<le> unat (CommandId_val d)"

definition less_CommandId :: "CommandId \<Rightarrow> CommandId \<Rightarrow> bool" where
  "less_CommandId c d \<longleftrightarrow> unat (CommandId_val c) < unat (CommandId_val d)"

instance
proof
  fix x y z :: CommandId
  show "x < y \<longleftrightarrow> x \<le> y \<and> \<not> y \<le> x"
    by (auto simp: less_eq_CommandId_def less_CommandId_def)
  show "x \<le> x" by (simp add: less_eq_CommandId_def)
  show "x \<le> y \<Longrightarrow> y \<le> z \<Longrightarrow> x \<le> z" by (simp add: less_eq_CommandId_def)
  show "x \<le> y \<or> y \<le> x" by (auto simp: less_eq_CommandId_def)
  show "x \<le> y \<Longrightarrow> y \<le> x \<Longrightarrow> x = y"
    unfolding less_eq_CommandId_def by (cases x; cases y; simp)
qed

end

instantiation ImageResult :: linorder
begin

definition less_eq_ImageResult :: "ImageResult \<Rightarrow> ImageResult \<Rightarrow> bool" where
  "less_eq_ImageResult c d \<longleftrightarrow> unat (ImageResult_val c) \<le> unat (ImageResult_val d)"

definition less_ImageResult :: "ImageResult \<Rightarrow> ImageResult \<Rightarrow> bool" where
  "less_ImageResult c d \<longleftrightarrow> unat (ImageResult_val c) < unat (ImageResult_val d)"

instance
proof
  fix x y z :: ImageResult
  show "x < y \<longleftrightarrow> x \<le> y \<and> \<not> y \<le> x"
    by (auto simp: less_eq_ImageResult_def less_ImageResult_def)
  show "x \<le> x" by (simp add: less_eq_ImageResult_def)
  show "x \<le> y \<Longrightarrow> y \<le> z \<Longrightarrow> x \<le> z" by (simp add: less_eq_ImageResult_def)
  show "x \<le> y \<or> y \<le> x" by (auto simp: less_eq_ImageResult_def)
  show "x \<le> y \<Longrightarrow> y \<le> x \<Longrightarrow> x = y"
    unfolding less_eq_ImageResult_def by (cases x; cases y; simp)
qed

end

lemmas enum_defs [wire_defs] =
  all_CommandIds_def CommandId_of_def all_ImageResults_def ImageResult_of_def

section \<open>Lemmas\<close>

lemma set_all_CommandIds [simp]: "set all_CommandIds = UNIV"
proof -
  have "c \<in> set all_CommandIds" for c
    by (cases c) (simp_all add: all_CommandIds_def)
  then show ?thesis by auto
qed

lemma distinct_all_CommandIds: "distinct (map CommandId_val all_CommandIds)"
  by (simp add: all_CommandIds_def)

lemma CommandId_val_inj: "CommandId_val c = CommandId_val d \<longleftrightarrow> c = d"
  using distinct_all_CommandIds
  by (metis UNIV_I distinct_map inj_onD set_all_CommandIds)

lemma CommandId_of_val [simp]: "CommandId_of (CommandId_val c) = Some c"
  unfolding CommandId_of_def
  by (rule find_inj_val) (simp_all add: inj_on_def CommandId_val_inj)

lemma CommandId_of_Some_iff: "CommandId_of w = Some c \<longleftrightarrow> CommandId_val c = w"
proof
  assume "CommandId_of w = Some c"
  then show "CommandId_val c = w" by (auto simp: CommandId_of_def find_Some_iff)
next
  assume "CommandId_val c = w"
  then show "CommandId_of w = Some c" using CommandId_of_val by blast
qed

lemma CommandId_of_None_iff: "CommandId_of w = None \<longleftrightarrow> w \<notin> range CommandId_val"
  by (auto simp: CommandId_of_def find_None_iff)

lemma CommandId_val_le: "CommandId_val c \<le> 0x2a"
  by (cases c) simp_all

lemma CommandId_less_eq_iff: "c \<le> d \<longleftrightarrow> CommandId_val c \<le> CommandId_val d"
  by (simp add: less_eq_CommandId_def word_le_nat_alt)

lemma sorted_all_CommandIds: "sorted all_CommandIds"
  by (simp add: all_CommandIds_def less_eq_CommandId_def)

lemma set_all_ImageResults [simp]: "set all_ImageResults = UNIV"
proof -
  have "r \<in> set all_ImageResults" for r
    by (cases r) (simp_all add: all_ImageResults_def)
  then show ?thesis by auto
qed

lemma distinct_all_ImageResults: "distinct (map ImageResult_val all_ImageResults)"
  by (simp add: all_ImageResults_def)

lemma ImageResult_val_inj: "ImageResult_val r = ImageResult_val s \<longleftrightarrow> r = s"
  using distinct_all_ImageResults
  by (metis UNIV_I distinct_map inj_onD set_all_ImageResults)

lemma ImageResult_of_val [simp]: "ImageResult_of (ImageResult_val r) = Some r"
  unfolding ImageResult_of_def
  by (rule find_inj_val) (simp_all add: inj_on_def ImageResult_val_inj)

lemma ImageResult_of_Some_iff: "ImageResult_of w = Some r \<longleftrightarrow> ImageResult_val r = w"
proof
  assume "ImageResult_of w = Some r"
  then show "ImageResult_val r = w" by (auto simp: ImageResult_of_def find_Some_iff)
next
  assume "ImageResult_val r = w"
  then show "ImageResult_of w = Some r" using ImageResult_of_val by blast
qed

lemma ImageResult_of_None_iff: "ImageResult_of w = None \<longleftrightarrow> w \<notin> range ImageResult_val"
  by (auto simp: ImageResult_of_def find_None_iff)

lemma ImageResult_val_le: "ImageResult_val r \<le> 0xd"
  by (cases r) simp_all

lemma range_CommandId_val:
  "range CommandId_val =
     {0, 1, 2, 6, 8, 0xb, 0xc, 0xd, 0xe, 0x16, 0x17, 0x18, 0x19, 0x1e, 0x1f, 0x20, 0x25, 0x29, 0x2a}"
proof -
  have "range CommandId_val = set (map CommandId_val all_CommandIds)" by simp
  also have "\<dots> = {0, 1, 2, 6, 8, 0xb, 0xc, 0xd, 0xe, 0x16, 0x17, 0x18, 0x19, 0x1e, 0x1f, 0x20,
      0x25, 0x29, 0x2a}"
    unfolding all_CommandIds_def by simp
  finally show ?thesis .
qed

lemma range_ImageResult_val:
  "range ImageResult_val = {0, 1, 2, 3, 6, 7, 8, 10, 0xd}"
proof -
  have "range ImageResult_val = set (map ImageResult_val all_ImageResults)" by simp
  also have "\<dots> = {0, 1, 2, 3, 6, 7, 8, 10, 0xd}"
    unfolding all_ImageResults_def by simp
  finally show ?thesis .
qed

section \<open>Properties\<close>

text \<open>
  C25: the wire value of a command identifier is recognised as that identifier and as
  no other: \<open>CommandId_of\<close> inverts \<open>CommandId_val\<close>, and two identifiers with the same
  wire value are equal.
\<close>

theorem CommandId_wire_roundtrip:
  "CommandId_of (CommandId_val c) = Some c \<and>
   (CommandId_of w = Some c \<longleftrightarrow> CommandId_val c = w) \<and>
   (CommandId_val c = CommandId_val d \<longleftrightarrow> c = d)"
proof (intro conjI)
  have "distinct (map CommandId_val all_CommandIds)" by (rule distinct_all_CommandIds)
  then have "inj_on CommandId_val (set all_CommandIds)" by (simp add: distinct_map)
  then show inj: "CommandId_val c = CommandId_val d \<longleftrightarrow> c = d"
    by (auto simp: inj_on_def)
  show "CommandId_of (CommandId_val c) = Some c"
    unfolding CommandId_of_def
    by (rule find_inj_val) (simp_all add: inj_on_def CommandId_val_inj)
  show "CommandId_of w = Some c \<longleftrightarrow> CommandId_val c = w"
    by (rule CommandId_of_Some_iff)
qed

text \<open>
  A 32-bit value is rejected as a command identifier exactly when it is none of
  the nineteen opcodes of the wire contract (0, 1, 2, 6, 8, 0xb--0xe, 0x16--0x19, 0x1e,
  0x1f, 0x20, 0x25, 0x29, 0x2a).
\<close>

theorem CommandId_of_unknown:
  "CommandId_of w = None \<longleftrightarrow>
     w \<notin> {0, 1, 2, 6, 8, 0xb, 0xc, 0xd, 0xe, 0x16, 0x17, 0x18, 0x19, 0x1e, 0x1f, 0x20, 0x25,
       0x29, 0x2a}"
proof -
  have "CommandId_of w = None \<longleftrightarrow> w \<notin> range CommandId_val"
    by (rule CommandId_of_None_iff)
  then show ?thesis by (simp only: range_CommandId_val)
qed

text \<open>
  C36: the wire value of an image result is recognised as that result and as no other,
  and a 32-bit value is rejected exactly when it is none of 0, 1, 2, 3, 6, 7, 8, 10 and
  0xd.
\<close>

theorem ImageResult_wire_roundtrip:
  "ImageResult_of (ImageResult_val r) = Some r \<and>
   (ImageResult_of w = Some r \<longleftrightarrow> ImageResult_val r = w) \<and>
   (ImageResult_of w = None \<longleftrightarrow> w \<notin> {0, 1, 2, 3, 6, 7, 8, 10, 0xd})"
proof (intro conjI)
  show "ImageResult_of (ImageResult_val r) = Some r" by (rule ImageResult_of_val)
  show "ImageResult_of w = Some r \<longleftrightarrow> ImageResult_val r = w"
    by (rule ImageResult_of_Some_iff)
  have "ImageResult_of w = None \<longleftrightarrow> w \<notin> range ImageResult_val"
    by (rule ImageResult_of_None_iff)
  then show "ImageResult_of w = None \<longleftrightarrow> w \<notin> {0, 1, 2, 3, 6, 7, 8, 10, 0xd}"
    by (simp only: range_ImageResult_val)
qed

end
