(* ===== verification/Wire_Structs.thy ===== *)
theory Wire_Structs
  imports Wire_Enums
begin

text \<open>
  The three fixed-layout structs of the wire contract (\<^verbatim>\<open>EGISAPTrustlet.h\<close>, lines
  56--100): the request/response header \<^verbatim>\<open>trustlet_buffer_t\<close>, the transaction envelope
  \<^verbatim>\<open>base_transaction_t\<close> and the enrollment result \<^verbatim>\<open>enroll_result_t\<close>. Each struct is
  a record of its 32-bit fields in declaration order, and a codec built by
  \<open>words_codec\<close> that lays the fields out one after the other, as the compiler does for
  structs made of 4-byte fields only (no padding). Fields of enumeration type hold the
  raw \<open>u32\<close>; \<open>command_id\<close> and \<open>status_result\<close> read them as enumerators. The \<^verbatim>\<open>int\<close>
  fields of the enrollment result are kept as 32-bit words and read as two's complement
  by \<open>sint\<close>. The flexible array members \<^verbatim>\<open>data[]\<close> take no space in a struct; the bytes
  that follow a header in the buffer are modelled where the buffer is
  (theory \<open>Buffer_API\<close>). The anonymous union of the envelope is one 12-byte region with
  two readings: the three words \<open>unk1\<close>, \<open>unk2\<close>, \<open>extra_flags\<close> and the bytes
  \<open>base_data\<close>.

  The lemmas give the sizes and offsets that the header's \<^verbatim>\<open>static_assert\<close>s fix, the
  round trip of every codec, and the agreement of a field read at its byte offset with
  the decoded struct.
\<close>

section \<open>Request and response header\<close>

record trustlet_buffer_t =
  process :: u32
  command :: u32
  gid :: u32
  fid :: u32
  buffer_size :: u32

definition trustlet_buffer_words :: "trustlet_buffer_t \<Rightarrow> u32 list" where
  "trustlet_buffer_words h = [process h, command h, gid h, fid h, buffer_size h]"

definition words_trustlet_buffer :: "u32 list \<Rightarrow> trustlet_buffer_t" where
  "words_trustlet_buffer ws =
     \<lparr>process = ws ! 0, command = ws ! 1, gid = ws ! 2, fid = ws ! 3, buffer_size = ws ! 4\<rparr>"

definition trustlet_buffer_codec :: "trustlet_buffer_t codec" where
  "trustlet_buffer_codec = words_codec 5 trustlet_buffer_words words_trustlet_buffer"

definition sizeof_trustlet_buffer_t :: nat where
  "sizeof_trustlet_buffer_t = width trustlet_buffer_codec"

definition command_id :: "trustlet_buffer_t \<Rightarrow> CommandId option" where
  "command_id h = CommandId_of (command h)"

section \<open>Transaction envelope\<close>

record base_transaction_t =
  process_id :: u32
  no_extra_buffer :: u32
  unk0 :: u32
  extra_buffer_size :: u32
  ret_val :: u32
  unk1 :: u32
  unk2 :: u32
  extra_flags :: u32

definition base_transaction_words :: "base_transaction_t \<Rightarrow> u32 list" where
  "base_transaction_words b =
     [process_id b, no_extra_buffer b, base_transaction_t.unk0 b, extra_buffer_size b,
      ret_val b, base_transaction_t.unk1 b, base_transaction_t.unk2 b, extra_flags b]"

definition words_base_transaction :: "u32 list \<Rightarrow> base_transaction_t" where
  "words_base_transaction ws =
     \<lparr>process_id = ws ! 0, no_extra_buffer = ws ! 1, unk0 = ws ! 2,
      extra_buffer_size = ws ! 3, ret_val = ws ! 4, unk1 = ws ! 5, unk2 = ws ! 6,
      extra_flags = ws ! 7\<rparr>"

definition base_transaction_codec :: "base_transaction_t codec" where
  "base_transaction_codec = words_codec 8 base_transaction_words words_base_transaction"

definition sizeof_base_transaction_t :: nat where
  "sizeof_base_transaction_t = width base_transaction_codec"

definition base_data :: "base_transaction_t \<Rightarrow> bytes" where
  "base_data b =
     u32s_bytes [base_transaction_t.unk1 b, base_transaction_t.unk2 b, extra_flags b]"

definition base_zero :: base_transaction_t where
  "base_zero = words_base_transaction (replicate 8 0)"

section \<open>Enrollment result\<close>

record enroll_result_t =
  status :: u32
  percentage :: u32
  dx :: u32
  dy :: u32
  unk0 :: u32
  score :: u32
  unk1 :: u32
  unk2 :: u32

definition enroll_result_words :: "enroll_result_t \<Rightarrow> u32 list" where
  "enroll_result_words r =
     [status r, percentage r, dx r, dy r, enroll_result_t.unk0 r, score r,
      enroll_result_t.unk1 r, enroll_result_t.unk2 r]"

definition words_enroll_result :: "u32 list \<Rightarrow> enroll_result_t" where
  "words_enroll_result ws =
     \<lparr>status = ws ! 0, percentage = ws ! 1, dx = ws ! 2, dy = ws ! 3, unk0 = ws ! 4,
      score = ws ! 5, unk1 = ws ! 6, unk2 = ws ! 7\<rparr>"

definition enroll_result_codec :: "enroll_result_t codec" where
  "enroll_result_codec = words_codec 8 enroll_result_words words_enroll_result"

definition sizeof_enroll_result_t :: nat where
  "sizeof_enroll_result_t = width enroll_result_codec"

definition status_result :: "enroll_result_t \<Rightarrow> ImageResult option" where
  "status_result r = ImageResult_of (status r)"

definition percentage_int :: "enroll_result_t \<Rightarrow> int" where
  "percentage_int r = sint (percentage r)"

lemmas struct_defs [wire_defs] =
  trustlet_buffer_words_def words_trustlet_buffer_def trustlet_buffer_codec_def
  sizeof_trustlet_buffer_t_def command_id_def
  base_transaction_words_def words_base_transaction_def base_transaction_codec_def
  sizeof_base_transaction_t_def base_data_def base_zero_def
  enroll_result_words_def words_enroll_result_def enroll_result_codec_def
  sizeof_enroll_result_t_def status_result_def percentage_int_def

section \<open>Lemmas: sizes\<close>

lemma sizeof_trustlet_buffer_t [layout, simp]: "sizeof_trustlet_buffer_t = 0x14"
  by (simp add: sizeof_trustlet_buffer_t_def trustlet_buffer_codec_def words_codec_def)

lemma sizeof_base_transaction_t [layout, simp]: "sizeof_base_transaction_t = 0x20"
  by (simp add: sizeof_base_transaction_t_def base_transaction_codec_def words_codec_def)

lemma sizeof_enroll_result_t [layout, simp]: "sizeof_enroll_result_t = 0x20"
  by (simp add: sizeof_enroll_result_t_def enroll_result_codec_def words_codec_def)

lemma width_trustlet_buffer_codec [layout, simp]: "width trustlet_buffer_codec = 20"
  by (simp add: trustlet_buffer_codec_def words_codec_def)

lemma width_base_transaction_codec [layout, simp]: "width base_transaction_codec = 32"
  by (simp add: base_transaction_codec_def words_codec_def)

lemma width_enroll_result_codec [layout, simp]: "width enroll_result_codec = 32"
  by (simp add: enroll_result_codec_def words_codec_def)

section \<open>Lemmas: the codecs are fixed-width and invertible\<close>

lemma length_trustlet_buffer_words [simp]: "length (trustlet_buffer_words h) = 5"
  by (simp add: trustlet_buffer_words_def)

lemma length_base_transaction_words [simp]: "length (base_transaction_words b) = 8"
  by (simp add: base_transaction_words_def)

lemma length_enroll_result_words [simp]: "length (enroll_result_words r) = 8"
  by (simp add: enroll_result_words_def)

lemma trustlet_buffer_layout [simp, intro]:
  "words_layout 5 trustlet_buffer_words words_trustlet_buffer"
  by (rule words_layoutI)
    (simp_all add: trustlet_buffer_words_def words_trustlet_buffer_def list_eq_nths5)

lemma base_transaction_layout [simp, intro]:
  "words_layout 8 base_transaction_words words_base_transaction"
  by (rule words_layoutI)
    (simp_all add: base_transaction_words_def words_base_transaction_def list_eq_nths8)

lemma enroll_result_layout [simp, intro]:
  "words_layout 8 enroll_result_words words_enroll_result"
  by (rule words_layoutI)
    (simp_all add: enroll_result_words_def words_enroll_result_def list_eq_nths8)

lemma fixed_trustlet_buffer_codec [simp, intro]: "fixed_codec trustlet_buffer_codec"
  unfolding trustlet_buffer_codec_def by (rule words_layout_fixed) simp

lemma fixed_base_transaction_codec [simp, intro]: "fixed_codec base_transaction_codec"
  unfolding base_transaction_codec_def by (rule words_layout_fixed) simp

lemma fixed_enroll_result_codec [simp, intro]: "fixed_codec enroll_result_codec"
  unfolding enroll_result_codec_def by (rule words_layout_fixed) simp

lemma length_enc_trustlet_buffer [simp]: "length (enc trustlet_buffer_codec h) = 20"
  using fixed_codec_length [OF fixed_trustlet_buffer_codec, of h] by simp

lemma length_enc_base_transaction [simp]: "length (enc base_transaction_codec b) = 32"
  using fixed_codec_length [OF fixed_base_transaction_codec, of b] by simp

lemma length_enc_enroll_result [simp]: "length (enc enroll_result_codec r) = 32"
  using fixed_codec_length [OF fixed_enroll_result_codec, of r] by simp

section \<open>Lemmas: fields at their byte offsets\<close>

lemma trustlet_buffer_field_offsets:
  assumes "view_get trustlet_buffer_codec off buf = Some h"
  shows "read_u32 buf off = Some (process h)"
    and "read_u32 buf (off + 4) = Some (command h)"
    and "read_u32 buf (off + 8) = Some (gid h)"
    and "read_u32 buf (off + 0xc) = Some (fid h)"
    and "read_u32 buf (off + 0x10) = Some (buffer_size h)"
  using field_read [OF trustlet_buffer_layout assms [unfolded trustlet_buffer_codec_def], of 0]
    field_read [OF trustlet_buffer_layout assms [unfolded trustlet_buffer_codec_def], of 1]
    field_read [OF trustlet_buffer_layout assms [unfolded trustlet_buffer_codec_def], of 2]
    field_read [OF trustlet_buffer_layout assms [unfolded trustlet_buffer_codec_def], of 3]
    field_read [OF trustlet_buffer_layout assms [unfolded trustlet_buffer_codec_def], of 4]
  by (simp_all add: trustlet_buffer_words_def)

lemma base_transaction_field_offsets:
  assumes "view_get base_transaction_codec off buf = Some b"
  shows "read_u32 buf off = Some (process_id b)"
    and "read_u32 buf (off + 4) = Some (no_extra_buffer b)"
    and "read_u32 buf (off + 8) = Some (base_transaction_t.unk0 b)"
    and "read_u32 buf (off + 0xc) = Some (extra_buffer_size b)"
    and "read_u32 buf (off + 0x10) = Some (ret_val b)"
    and "read_u32 buf (off + 0x14) = Some (base_transaction_t.unk1 b)"
    and "read_u32 buf (off + 0x18) = Some (base_transaction_t.unk2 b)"
    and "read_u32 buf (off + 0x1c) = Some (extra_flags b)"
  using field_read [OF base_transaction_layout assms [unfolded base_transaction_codec_def], of 0]
    field_read [OF base_transaction_layout assms [unfolded base_transaction_codec_def], of 1]
    field_read [OF base_transaction_layout assms [unfolded base_transaction_codec_def], of 2]
    field_read [OF base_transaction_layout assms [unfolded base_transaction_codec_def], of 3]
    field_read [OF base_transaction_layout assms [unfolded base_transaction_codec_def], of 4]
    field_read [OF base_transaction_layout assms [unfolded base_transaction_codec_def], of 5]
    field_read [OF base_transaction_layout assms [unfolded base_transaction_codec_def], of 6]
    field_read [OF base_transaction_layout assms [unfolded base_transaction_codec_def], of 7]
  by (simp_all add: base_transaction_words_def)

lemma base_data_enc: "base_data b = drop 0x14 (enc base_transaction_codec b)"
  by (simp add: base_data_def base_transaction_codec_def words_codec_def base_transaction_words_def)

lemma base_data_offset:
  assumes "view_get base_transaction_codec off buf = Some b"
  shows "read_bytes buf (off + 0x14) 12 = Some (base_data b)"
proof -
  from assms obtain bs where bs: "read_bytes buf off 32 = Some bs"
    and b: "b = dec base_transaction_codec bs"
    by (auto simp: view_get_def)
  from bs have "length bs = 32" by (rule read_bytes_length)
  then have "enc base_transaction_codec b = bs"
    using b by (simp add: fixed_codec_enc_dec)
  moreover from read_bytes_sub [OF bs, of 20 12] \<open>length bs = 32\<close>
  have "read_bytes buf (off + 0x14) 12 = Some (drop 20 bs)" by simp
  ultimately show ?thesis by (simp add: base_data_enc)
qed

lemma enc_base_zero: "enc base_transaction_codec base_zero = replicate 32 0"
  by (simp add: base_zero_def base_transaction_codec_def words_codec_def
      words_base_transaction_def base_transaction_words_def numeral_eq_Suc)

lemma dec_zeros_base: "dec base_transaction_codec (replicate 32 0) = base_zero"
  by (metis enc_base_zero fixed_base_transaction_codec fixed_codec_dec_enc)

lemma view_get_enc: "fixed_codec c \<Longrightarrow> view_get c 0 (enc c x) = Some x"
  by (simp add: view_get_def read_bytes_def fixed_codec_length fixed_codec_dec_enc)

section \<open>Lemmas: enumerators and signed fields\<close>

lemma command_id_val [simp]: "command_id (h\<lparr>command := CommandId_val c\<rparr>) = Some c"
  by (simp add: command_id_def)

lemma command_id_Some_iff: "command_id h = Some c \<longleftrightarrow> command h = CommandId_val c"
  by (auto simp: command_id_def CommandId_of_Some_iff)

lemma status_result_val [simp]: "status_result (r\<lparr>status := ImageResult_val s\<rparr>) = Some s"
  by (simp add: status_result_def)

lemma status_result_Some_iff: "status_result r = Some s \<longleftrightarrow> status r = ImageResult_val s"
  by (auto simp: status_result_def ImageResult_of_Some_iff)

lemma percentage_int_range: "- (2 ^ 31) \<le> percentage_int r \<and> percentage_int r < 2 ^ 31"
  using sint_ge [of "percentage r"] sint_lt [of "percentage r"]
  by (simp add: percentage_int_def)

section \<open>Properties\<close>

text \<open>
  C1: round trip of the request/response header. Writing a header into memory with the
  layout of \<^verbatim>\<open>trustlet_buffer_t\<close> and reading it back gives the same process, command,
  gid, fid and buffer_size, for every value of the five fields, and the encoding takes
  exactly 0x14 bytes (the header's first \<^verbatim>\<open>static_assert\<close>).
\<close>

theorem trustlet_buffer_roundtrip:
  "dec trustlet_buffer_codec (enc trustlet_buffer_codec h) = h \<and>
   length (enc trustlet_buffer_codec h) = 0x14"
proof
  have "words_layout 5 trustlet_buffer_words words_trustlet_buffer"
    by (rule trustlet_buffer_layout)
  then have "fixed_codec (words_codec 5 trustlet_buffer_words words_trustlet_buffer)"
    by (rule words_layout_fixed)
  then show "dec trustlet_buffer_codec (enc trustlet_buffer_codec h) = h"
    unfolding trustlet_buffer_codec_def by (rule fixed_codec_dec_enc)
next
  have "length (enc trustlet_buffer_codec h) = 4 * length (trustlet_buffer_words h)"
    by (simp add: trustlet_buffer_codec_def words_codec_def)
  then show "length (enc trustlet_buffer_codec h) = 0x14" by simp
qed

text \<open>
  C28: the envelope layout asserted in the header: the encoding of
  \<^verbatim>\<open>base_transaction_t\<close> takes 0x20 bytes, \<open>extra_buffer_size\<close> is read at offset 0xc,
  \<open>ret_val\<close> at 0x10, the union member \<^verbatim>\<open>data\<close> starts at 0x14 and \<open>extra_flags\<close> is read at
  0x1c.
\<close>

theorem base_transaction_offsets:
  "length (enc base_transaction_codec b) = 0x20 \<and>
   read_u32 (enc base_transaction_codec b) 0xc = Some (extra_buffer_size b) \<and>
   read_u32 (enc base_transaction_codec b) 0x10 = Some (ret_val b) \<and>
   read_bytes (enc base_transaction_codec b) 0x14 12 = Some (base_data b) \<and>
   read_u32 (enc base_transaction_codec b) 0x1c = Some (extra_flags b)"
  using base_transaction_field_offsets(4,5,8) [of 0 "enc base_transaction_codec b" b]
    base_data_offset [of 0 "enc base_transaction_codec b" b]
  by (simp add: view_get_enc)

text \<open>
  The header layout has no padding and no invalid bit patterns: every run of 0x14
  bytes is the encoding of the header it decodes to.
\<close>

theorem trustlet_buffer_bytes_roundtrip:
  assumes "length bs = sizeof_trustlet_buffer_t"
  shows "enc trustlet_buffer_codec (dec trustlet_buffer_codec bs) = bs"
  using assms by (simp add: fixed_codec_enc_dec)

theorem trustlet_buffer_bytes_roundtrip_witness:
  "length [0xe0, 0, 0, 0, 0x2a, 0, 0, 0, 1, 0, 0, 0, 7, 0, 0, 0, 0, 0, 0, 0 :: u8]
     = sizeof_trustlet_buffer_t \<and>
   enc trustlet_buffer_codec (dec trustlet_buffer_codec
     [0xe0, 0, 0, 0, 0x2a, 0, 0, 0, 1, 0, 0, 0, 7, 0, 0, 0, 0, 0, 0, 0])
     = [0xe0, 0, 0, 0, 0x2a, 0, 0, 0, 1, 0, 0, 0, 7, 0, 0, 0, 0, 0, 0, 0] \<and>
   dec trustlet_buffer_codec [0xe0, 0, 0, 0, 0x2a, 0, 0, 0, 1, 0, 0, 0, 7, 0, 0, 0, 0, 0, 0, 0]
     = \<lparr>process = 0xe0, command = 0x2a, gid = 1, fid = 7, buffer_size = 0\<rparr>"
  using trustlet_buffer_bytes_roundtrip
    [of "[0xe0, 0, 0, 0, 0x2a, 0, 0, 0, 1, 0, 0, 0, 7, 0, 0, 0, 0, 0, 0, 0]"]
  by (simp add: wire_defs upt_rec)

text \<open>
  C35: round trip of the enrollment result: encoding and decoding gives back all eight
  fields, the encoding takes 0x20 bytes, and a status stored as the wire value of an
  image result is recognised as that image result.
\<close>

theorem enroll_result_roundtrip:
  "dec enroll_result_codec (enc enroll_result_codec r) = r \<and>
   length (enc enroll_result_codec r) = 0x20 \<and>
   status_result (dec enroll_result_codec
     (enc enroll_result_codec (r\<lparr>status := ImageResult_val s\<rparr>))) = Some s"
proof (intro conjI)
  have rt: "dec enroll_result_codec (enc enroll_result_codec x) = x" for x
    using fixed_enroll_result_codec by (rule fixed_codec_dec_enc)
  show "dec enroll_result_codec (enc enroll_result_codec r) = r" by (rule rt)
  show "length (enc enroll_result_codec r) = 0x20" by simp
  show "status_result (dec enroll_result_codec
     (enc enroll_result_codec (r\<lparr>status := ImageResult_val s\<rparr>))) = Some s"
    by (simp only: rt status_result_val)
qed

end
