(* ===== verification/Buffer_API.thy ===== *)
theory Buffer_API
  imports Wire_Structs
begin

text \<open>
  The class \<^verbatim>\<open>EGISAPTrustlet::API\<close> (\<^verbatim>\<open>EGISAPTrustlet.h\<close>, lines 104--144): the typed
  views of the locked shared buffer. The state of an \<open>API\<close> object is the content of the
  memory block it holds locked (\<open>mLockedBuffer\<close>). The C++ accessors return references
  into that block; a reference is modelled by a pair of operations, the read through it
  (\<open>GetRequest\<close>, \<open>GetResponse\<close>, \<open>Base\<close>) and the write through it (\<open>SetRequest\<close>,
  \<open>SetResponse\<close>, \<open>SetBase\<close>). The flexible array \<^verbatim>\<open>data[]\<close> of a header is the run of
  bytes right after it (\<open>RequestData\<close>, \<open>ResponseData\<close> and their writes). Every
  operation returns \<open>None\<close> when it would touch memory outside the block, which is
  undefined behaviour in the C++ code; \<open>api_ok\<close> says that the block has at least
  \<open>BufferSize\<close> bytes, and under it no operation on the three structs fails.

  The lemmas show which views are independent of each other and which alias: the request
  header is disjoint from the envelope and from the response header, while the response
  header starts at the envelope's \<^verbatim>\<open>data\<close> member, so that its first three words are the
  envelope's \<open>unk1\<close>, \<open>unk2\<close> and \<open>extra_flags\<close>.
\<close>

section \<open>State and layout constants\<close>

record API =
  mLockedBuffer :: bytes

definition RequestOffset :: nat where
  "RequestOffset = 0x5c"

definition ResponseOffset :: nat where
  "ResponseOffset = 0x14"

definition BufferSize :: nat where
  "BufferSize = sizeof_trustlet_buffer_t + max RequestOffset ResponseOffset"

definition api_ok :: "API \<Rightarrow> bool" where
  "api_ok api \<longleftrightarrow> BufferSize \<le> length (mLockedBuffer api)"

definition with_buffer :: "API \<Rightarrow> bytes option \<Rightarrow> API option" where
  "with_buffer api r = map_option (\<lambda>b. api\<lparr>mLockedBuffer := b\<rparr>) r"

section \<open>Views\<close>

definition GetRequest :: "API \<Rightarrow> trustlet_buffer_t option" where
  "GetRequest api = view_get trustlet_buffer_codec RequestOffset (mLockedBuffer api)"

definition SetRequest :: "trustlet_buffer_t \<Rightarrow> API \<Rightarrow> API option" where
  "SetRequest h api =
     with_buffer api (view_put trustlet_buffer_codec RequestOffset h (mLockedBuffer api))"

definition GetResponse :: "API \<Rightarrow> trustlet_buffer_t option" where
  "GetResponse api = view_get trustlet_buffer_codec ResponseOffset (mLockedBuffer api)"

definition SetResponse :: "trustlet_buffer_t \<Rightarrow> API \<Rightarrow> API option" where
  "SetResponse h api =
     with_buffer api (view_put trustlet_buffer_codec ResponseOffset h (mLockedBuffer api))"

definition Base :: "API \<Rightarrow> base_transaction_t option" where
  "Base api = view_get base_transaction_codec 0 (mLockedBuffer api)"

definition SetBase :: "base_transaction_t \<Rightarrow> API \<Rightarrow> API option" where
  "SetBase b api =
     with_buffer api (view_put base_transaction_codec 0 b (mLockedBuffer api))"

definition RequestData :: "API \<Rightarrow> nat \<Rightarrow> bytes option" where
  "RequestData api n =
     read_bytes (mLockedBuffer api) (RequestOffset + sizeof_trustlet_buffer_t) n"

definition SetRequestData :: "bytes \<Rightarrow> API \<Rightarrow> API option" where
  "SetRequestData bs api =
     with_buffer api
       (write_bytes (mLockedBuffer api) (RequestOffset + sizeof_trustlet_buffer_t) bs)"

definition ResponseData :: "API \<Rightarrow> nat \<Rightarrow> bytes option" where
  "ResponseData api n =
     read_bytes (mLockedBuffer api) (ResponseOffset + sizeof_trustlet_buffer_t) n"

definition SetResponseData :: "bytes \<Rightarrow> API \<Rightarrow> API option" where
  "SetResponseData bs api =
     with_buffer api
       (write_bytes (mLockedBuffer api) (ResponseOffset + sizeof_trustlet_buffer_t) bs)"

section \<open>Operations\<close>

definition PrepareBase :: "u32 \<Rightarrow> API \<Rightarrow> API option" where
  "PrepareBase pid api =
     (case memset_bytes (mLockedBuffer api) 0 0 sizeof_base_transaction_t of
        None \<Rightarrow> None
      | Some buf \<Rightarrow> with_buffer api (write_u32 buf 0 pid))"

definition MoveResponseToRequest :: "API \<Rightarrow> API option" where
  "MoveResponseToRequest api =
     with_buffer api
       (memmove_bytes (mLockedBuffer api) RequestOffset ResponseOffset
          sizeof_trustlet_buffer_t)"

section \<open>The operations as a datatype, and runs of them\<close>

datatype api_op =
    OpPrepareBase u32
  | OpSetBase base_transaction_t
  | OpSetRequest trustlet_buffer_t
  | OpSetResponse trustlet_buffer_t
  | OpSetRequestData bytes
  | OpSetResponseData bytes
  | OpMoveResponseToRequest

fun api_step :: "api_op \<Rightarrow> API \<Rightarrow> API option" where
  "api_step (OpPrepareBase pid) api = PrepareBase pid api"
| "api_step (OpSetBase b) api = SetBase b api"
| "api_step (OpSetRequest h) api = SetRequest h api"
| "api_step (OpSetResponse h) api = SetResponse h api"
| "api_step (OpSetRequestData bs) api = SetRequestData bs api"
| "api_step (OpSetResponseData bs) api = SetResponseData bs api"
| "api_step OpMoveResponseToRequest api = MoveResponseToRequest api"

fun api_run :: "api_op list \<Rightarrow> API \<Rightarrow> API option" where
  "api_run [] api = Some api"
| "api_run (x # xs) api =
     (case api_step x api of None \<Rightarrow> None | Some api' \<Rightarrow> api_run xs api')"

fun op_fits :: "nat \<Rightarrow> api_op \<Rightarrow> bool" where
  "op_fits n (OpSetRequestData bs) \<longleftrightarrow> BufferSize + length bs \<le> n"
| "op_fits n (OpSetResponseData bs) \<longleftrightarrow>
     ResponseOffset + sizeof_trustlet_buffer_t + length bs \<le> n"
| "op_fits n _ \<longleftrightarrow> BufferSize \<le> n"

section \<open>Example states\<close>

definition hdr_example :: trustlet_buffer_t where
  "hdr_example = \<lparr>process = 0xe0, command = 0x2a, gid = 1, fid = 7, buffer_size = 0\<rparr>"

definition api_zero :: API where
  "api_zero = \<lparr>mLockedBuffer = replicate 0x70 0\<rparr>"

definition api_example :: API where
  "api_example = \<lparr>mLockedBuffer = replicate 0x14 0 @ enc trustlet_buffer_codec hdr_example
     @ replicate 0x48 0xff\<rparr>"

lemmas api_defs [wire_defs] =
  RequestOffset_def ResponseOffset_def BufferSize_def api_ok_def with_buffer_def
  GetRequest_def SetRequest_def GetResponse_def SetResponse_def Base_def SetBase_def
  RequestData_def SetRequestData_def ResponseData_def SetResponseData_def
  PrepareBase_def MoveResponseToRequest_def hdr_example_def api_zero_def api_example_def

section \<open>Lemmas: layout\<close>

lemma BufferSize_eq [layout, simp]: "BufferSize = 0x70"
  by (simp add: BufferSize_def RequestOffset_def ResponseOffset_def)

lemma request_end [layout]: "RequestOffset + sizeof_trustlet_buffer_t = BufferSize"
  by (simp add: RequestOffset_def)

lemma separate_request_response [layout, simp]:
  "separate RequestOffset 20 ResponseOffset 20" "separate ResponseOffset 20 RequestOffset 20"
  by (simp_all add: separate_def RequestOffset_def ResponseOffset_def)

lemma separate_request_base [layout, simp]:
  "separate RequestOffset 20 0 32" "separate 0 32 RequestOffset 20"
  by (simp_all add: separate_def RequestOffset_def)

lemma with_buffer_Some_iff:
  "with_buffer api r = Some api' \<longleftrightarrow> (\<exists>b. r = Some b \<and> api' = api\<lparr>mLockedBuffer := b\<rparr>)"
  by (auto simp: with_buffer_def)

lemma with_buffer_None_iff [simp]: "with_buffer api r = None \<longleftrightarrow> r = None"
  by (simp add: with_buffer_def)

section \<open>Lemmas: definedness and the size invariant\<close>

lemma GetRequest_defined_iff: "(\<exists>h. GetRequest api = Some h) \<longleftrightarrow> api_ok api"
  by (simp add: GetRequest_def view_get_Some_iff api_ok_def RequestOffset_def)

lemma GetResponse_defined_iff:
  "(\<exists>h. GetResponse api = Some h) \<longleftrightarrow> 0x28 \<le> length (mLockedBuffer api)"
  by (simp add: GetResponse_def view_get_Some_iff ResponseOffset_def)

lemma Base_defined_iff: "(\<exists>b. Base api = Some b) \<longleftrightarrow> 0x20 \<le> length (mLockedBuffer api)"
  by (simp add: Base_def view_get_Some_iff)

lemma SetRequest_defined_iff: "(\<exists>api'. SetRequest h api = Some api') \<longleftrightarrow> api_ok api"
  using view_put_Some_iff [OF fixed_trustlet_buffer_codec, of RequestOffset h "mLockedBuffer api"]
  by (simp add: SetRequest_def with_buffer_Some_iff api_ok_def RequestOffset_def)

lemma SetResponse_defined_iff:
  "(\<exists>api'. SetResponse h api = Some api') \<longleftrightarrow> 0x28 \<le> length (mLockedBuffer api)"
  using view_put_Some_iff [OF fixed_trustlet_buffer_codec, of ResponseOffset h "mLockedBuffer api"]
  by (simp add: SetResponse_def with_buffer_Some_iff ResponseOffset_def)

lemma SetBase_defined_iff:
  "(\<exists>api'. SetBase b api = Some api') \<longleftrightarrow> 0x20 \<le> length (mLockedBuffer api)"
  using view_put_Some_iff [OF fixed_base_transaction_codec, of 0 b "mLockedBuffer api"]
  by (simp add: SetBase_def with_buffer_Some_iff)

lemma PrepareBase_defined_iff:
  "(\<exists>api'. PrepareBase pid api = Some api') \<longleftrightarrow> 0x20 \<le> length (mLockedBuffer api)"
  by (auto simp: PrepareBase_def with_buffer_Some_iff memset_bytes_def write_u32_def
      write_bytes_def split: option.splits)

lemma MoveResponseToRequest_defined_iff:
  "(\<exists>api'. MoveResponseToRequest api = Some api') \<longleftrightarrow> api_ok api"
  using memmove_bytes_Some_iff [of "mLockedBuffer api" RequestOffset ResponseOffset 20]
  by (auto simp: MoveResponseToRequest_def with_buffer_Some_iff api_ok_def
      RequestOffset_def ResponseOffset_def)

lemma SetRequest_length:
  "SetRequest h api = Some api' \<Longrightarrow> length (mLockedBuffer api') = length (mLockedBuffer api)"
  by (auto simp: SetRequest_def with_buffer_Some_iff dest: view_put_length)

lemma SetResponse_length:
  "SetResponse h api = Some api' \<Longrightarrow> length (mLockedBuffer api') = length (mLockedBuffer api)"
  by (auto simp: SetResponse_def with_buffer_Some_iff dest: view_put_length)

lemma SetBase_length:
  "SetBase b api = Some api' \<Longrightarrow> length (mLockedBuffer api') = length (mLockedBuffer api)"
  by (auto simp: SetBase_def with_buffer_Some_iff dest: view_put_length)

lemma SetRequestData_length:
  "SetRequestData bs api = Some api' \<Longrightarrow>
     length (mLockedBuffer api') = length (mLockedBuffer api)"
  by (auto simp: SetRequestData_def with_buffer_Some_iff dest: write_bytes_length)

lemma SetResponseData_length:
  "SetResponseData bs api = Some api' \<Longrightarrow>
     length (mLockedBuffer api') = length (mLockedBuffer api)"
  by (auto simp: SetResponseData_def with_buffer_Some_iff dest: write_bytes_length)

lemma PrepareBase_length:
  "PrepareBase pid api = Some api' \<Longrightarrow> length (mLockedBuffer api') = length (mLockedBuffer api)"
  by (auto simp: PrepareBase_def with_buffer_Some_iff write_u32_def
      dest!: memset_bytes_length write_bytes_length split: option.splits)

lemma MoveResponseToRequest_length:
  "MoveResponseToRequest api = Some api' \<Longrightarrow>
     length (mLockedBuffer api') = length (mLockedBuffer api)"
  by (auto simp: MoveResponseToRequest_def with_buffer_Some_iff dest: memmove_bytes_length)

lemmas api_length =
  SetRequest_length SetResponse_length SetBase_length SetRequestData_length
  SetResponseData_length PrepareBase_length MoveResponseToRequest_length

lemma api_ok_length: "length (mLockedBuffer api') = length (mLockedBuffer api) \<Longrightarrow>
  api_ok api' = api_ok api"
  by (simp add: api_ok_def)

section \<open>Lemmas: reads after writes\<close>

lemma GetRequest_SetRequest: "SetRequest h api = Some api' \<Longrightarrow> GetRequest api' = Some h"
  by (auto simp: SetRequest_def GetRequest_def with_buffer_Some_iff
      intro: view_get_put_same [OF fixed_trustlet_buffer_codec])

lemma GetResponse_SetResponse: "SetResponse h api = Some api' \<Longrightarrow> GetResponse api' = Some h"
  by (auto simp: SetResponse_def GetResponse_def with_buffer_Some_iff
      intro: view_get_put_same [OF fixed_trustlet_buffer_codec])

lemma Base_SetBase: "SetBase b api = Some api' \<Longrightarrow> Base api' = Some b"
  by (auto simp: SetBase_def Base_def with_buffer_Some_iff
      intro: view_get_put_same [OF fixed_base_transaction_codec])

lemma SetRequest_frame:
  assumes "SetRequest h api = Some api'" and "separate RequestOffset 20 off n"
  shows "read_bytes (mLockedBuffer api') off n = read_bytes (mLockedBuffer api) off n"
  using assms read_bytes_put_separate [OF fixed_trustlet_buffer_codec, of RequestOffset h
      "mLockedBuffer api" "mLockedBuffer api'" off n]
  by (auto simp: SetRequest_def with_buffer_Some_iff)

lemma GetResponse_SetRequest:
  "SetRequest h api = Some api' \<Longrightarrow> GetResponse api' = GetResponse api"
  by (simp add: GetResponse_def view_get_def SetRequest_frame)

lemma Base_SetRequest: "SetRequest h api = Some api' \<Longrightarrow> Base api' = Base api"
  by (simp add: Base_def view_get_def SetRequest_frame)

lemma SetResponse_frame:
  assumes "SetResponse h api = Some api'" and "separate ResponseOffset 20 off n"
  shows "read_bytes (mLockedBuffer api') off n = read_bytes (mLockedBuffer api) off n"
  using assms read_bytes_put_separate [OF fixed_trustlet_buffer_codec, of ResponseOffset h
      "mLockedBuffer api" "mLockedBuffer api'" off n]
  by (auto simp: SetResponse_def with_buffer_Some_iff)

lemma GetRequest_SetResponse:
  "SetResponse h api = Some api' \<Longrightarrow> GetRequest api' = GetRequest api"
  by (simp add: GetRequest_def view_get_def SetResponse_frame)

lemma SetBase_frame:
  assumes "SetBase b api = Some api'" and "separate 0 32 off n"
  shows "read_bytes (mLockedBuffer api') off n = read_bytes (mLockedBuffer api) off n"
  using assms read_bytes_put_separate [OF fixed_base_transaction_codec, of 0 b
      "mLockedBuffer api" "mLockedBuffer api'" off n]
  by (auto simp: SetBase_def with_buffer_Some_iff)

lemma GetRequest_SetBase: "SetBase b api = Some api' \<Longrightarrow> GetRequest api' = GetRequest api"
  by (simp add: GetRequest_def view_get_def SetBase_frame)

section \<open>Lemmas: the response header aliases the envelope\<close>

lemma response_is_base_data:
  assumes "Base api = Some b"
  shows "read_bytes (mLockedBuffer api) ResponseOffset 12 = Some (base_data b)"
  using base_data_offset [of 0 "mLockedBuffer api" b] assms
  by (simp add: Base_def ResponseOffset_def)

lemma response_aliases_base:
  assumes "Base api = Some b" and "GetResponse api = Some h"
  shows "process h = base_transaction_t.unk1 b"
    and "command h = base_transaction_t.unk2 b"
    and "gid h = extra_flags b"
  using base_transaction_field_offsets(6-8) [of 0 "mLockedBuffer api" b]
    trustlet_buffer_field_offsets(1-3) [of ResponseOffset "mLockedBuffer api" h] assms
  by (simp_all add: Base_def GetResponse_def ResponseOffset_def)

section \<open>Lemmas: PrepareBase\<close>

lemma PrepareBase_buffer:
  assumes "PrepareBase pid api = Some api'"
  shows "mLockedBuffer api' = le_bytes 4 pid @ replicate 28 0 @ drop 32 (mLockedBuffer api)"
  using assms
  by (auto simp: PrepareBase_def with_buffer_Some_iff memset_bytes_def write_u32_def
      write_bytes_def min_def split: option.splits if_splits)


lemma enc_prepared_base:
  "enc base_transaction_codec (base_zero\<lparr>process_id := pid\<rparr>) = le_bytes 4 pid @ replicate 28 0"
  by (simp add: base_zero_def base_transaction_codec_def words_codec_def
      words_base_transaction_def base_transaction_words_def numeral_eq_Suc)

lemma Base_PrepareBase:
  assumes "PrepareBase pid api = Some api'"
  shows "Base api' = Some (base_zero\<lparr>process_id := pid\<rparr>)"
proof -
  have "dec base_transaction_codec (le_bytes 4 pid @ replicate 28 0)
      = base_zero\<lparr>process_id := pid\<rparr>"
    using fixed_codec_dec_enc [OF fixed_base_transaction_codec, of "base_zero\<lparr>process_id := pid\<rparr>"]
    by (simp add: enc_prepared_base)
  then show ?thesis
    by (simp add: Base_def view_get_def read_bytes_def PrepareBase_buffer [OF assms])
qed

lemma PrepareBase_frame:
  assumes "PrepareBase pid api = Some api'" and "32 \<le> off"
  shows "read_bytes (mLockedBuffer api') off n = read_bytes (mLockedBuffer api) off n"
proof -
  from assms(1) have "32 \<le> length (mLockedBuffer api)"
    using PrepareBase_defined_iff by blast
  with assms(2) show ?thesis
    by (simp add: read_bytes_def PrepareBase_buffer [OF assms(1)])
qed

lemma GetRequest_PrepareBase:
  "PrepareBase pid api = Some api' \<Longrightarrow> GetRequest api' = GetRequest api"
  by (simp add: GetRequest_def view_get_def PrepareBase_frame RequestOffset_def)

lemma GetResponse_PrepareBase:
  assumes "PrepareBase pid api = Some api'" and "GetResponse api = Some h"
  shows "GetResponse api' = Some (h\<lparr>process := 0, command := 0, gid := 0\<rparr>)"
proof -
  let ?ws = "[0, 0, 0, fid h, buffer_size h]"
  have len: "length (mLockedBuffer api') = length (mLockedBuffer api)"
    using assms(1) by (rule PrepareBase_length)
  have rd: "read_u32 (mLockedBuffer api') (ResponseOffset + 4 * i) = Some (?ws ! i)"
    if "i < 5" for i
  proof -
    note b = base_transaction_field_offsets(6-8)
      [of 0 "mLockedBuffer api'" "base_zero\<lparr>process_id := pid\<rparr>",
        unfolded Base_def [symmetric], OF Base_PrepareBase [OF assms(1)]]
    note r = trustlet_buffer_field_offsets(4,5)
      [of ResponseOffset "mLockedBuffer api" h, unfolded GetResponse_def [symmetric], OF assms(2)]
    from that consider "i = 0" | "i = 1" | "i = 2" | "i = 3" | "i = 4" by linarith
    then show ?thesis
      using b r
      by cases (simp_all add: ResponseOffset_def base_zero_def words_base_transaction_def
          read_u32_def PrepareBase_frame [OF assms(1)])
  qed
  have "view_get (words_codec 5 trustlet_buffer_words words_trustlet_buffer) ResponseOffset
      (mLockedBuffer api') = Some (words_trustlet_buffer ?ws)"
  proof (rule field_reads_view [OF trustlet_buffer_layout])
    from assms(2) show "ResponseOffset + 4 * 5 \<le> length (mLockedBuffer api')"
      using GetResponse_defined_iff [of api] by (simp add: len ResponseOffset_def)
  qed (simp_all add: rd)
  then show ?thesis
    by (simp add: GetResponse_def trustlet_buffer_codec_def words_trustlet_buffer_def)
qed


lemma PrepareBase_eq_SetBase: "PrepareBase pid api = SetBase (base_zero\<lparr>process_id := pid\<rparr>) api"
  by (simp add: PrepareBase_def SetBase_def memset_bytes_def write_u32_def write_bytes_def
      view_put_def enc_prepared_base with_buffer_def)

section \<open>Lemmas: MoveResponseToRequest\<close>

lemma MoveResponseToRequest_frame:
  assumes "MoveResponseToRequest api = Some api'" and "separate RequestOffset 20 off n"
  shows "read_bytes (mLockedBuffer api') off n = read_bytes (mLockedBuffer api) off n"
  using assms memmove_bytes_separate [of "mLockedBuffer api" RequestOffset ResponseOffset 20
      "mLockedBuffer api'" off n]
  by (auto simp: MoveResponseToRequest_def with_buffer_Some_iff)

lemma GetRequest_MoveResponseToRequest:
  assumes "MoveResponseToRequest api = Some api'"
  shows "GetRequest api' = GetResponse api"
  using assms memmove_bytes_dst [of "mLockedBuffer api" RequestOffset ResponseOffset 20
      "mLockedBuffer api'"]
  by (auto simp: MoveResponseToRequest_def with_buffer_Some_iff GetRequest_def GetResponse_def
      view_get_def)

lemma GetResponse_MoveResponseToRequest:
  "MoveResponseToRequest api = Some api' \<Longrightarrow> GetResponse api' = GetResponse api"
  by (simp add: GetResponse_def view_get_def MoveResponseToRequest_frame)

lemma Base_MoveResponseToRequest:
  "MoveResponseToRequest api = Some api' \<Longrightarrow> Base api' = Base api"
  by (simp add: Base_def view_get_def MoveResponseToRequest_frame)

lemma RequestData_MoveResponseToRequest:
  "MoveResponseToRequest api = Some api' \<Longrightarrow> RequestData api' n = RequestData api n"
  by (simp add: RequestData_def MoveResponseToRequest_frame separate_def RequestOffset_def)

lemma ResponseData_MoveResponseToRequest:
  "MoveResponseToRequest api = Some api' \<Longrightarrow> n \<le> 0x34 \<Longrightarrow>
     ResponseData api' n = ResponseData api n"
  by (simp add: ResponseData_def MoveResponseToRequest_frame separate_def RequestOffset_def
      ResponseOffset_def)

lemma MoveResponseToRequest_nth:
  assumes "MoveResponseToRequest api = Some api'" and "i < length (mLockedBuffer api)"
  shows "mLockedBuffer api' ! i =
     (if RequestOffset \<le> i \<and> i < RequestOffset + 0x14
      then mLockedBuffer api ! (ResponseOffset + (i - RequestOffset))
      else mLockedBuffer api ! i)"
  using assms memmove_bytes_nth [of "mLockedBuffer api" RequestOffset ResponseOffset 20
      "mLockedBuffer api'" i]
  by (auto simp: MoveResponseToRequest_def with_buffer_Some_iff)

lemma MoveResponseToRequest_typed:
  "MoveResponseToRequest api =
     (case GetResponse api of None \<Rightarrow> None | Some h \<Rightarrow> SetRequest h api)"
proof (cases "read_bytes (mLockedBuffer api) ResponseOffset 20")
  case None
  then show ?thesis
    by (simp add: MoveResponseToRequest_def memmove_bytes_def GetResponse_def view_get_def
        with_buffer_def)
next
  case (Some bs)
  then have "length bs = 20" by (rule read_bytes_length)
  then have "enc trustlet_buffer_codec (dec trustlet_buffer_codec bs) = bs"
    by (simp add: fixed_codec_enc_dec)
  with Some show ?thesis
    by (simp add: MoveResponseToRequest_def memmove_bytes_def GetResponse_def view_get_def
        SetRequest_def view_put_def)
qed

section \<open>Lemmas: runs of operations\<close>

lemma api_step_length:
  "api_step x api = Some api' \<Longrightarrow> length (mLockedBuffer api') = length (mLockedBuffer api)"
  by (cases x) (auto dest: api_length)

lemma api_run_length:
  "api_run xs api = Some api' \<Longrightarrow> length (mLockedBuffer api') = length (mLockedBuffer api)"
proof (induction xs arbitrary: api)
  case Nil
  then show ?case by simp
next
  case (Cons x xs)
  then show ?case by (auto split: option.splits dest!: api_step_length)
qed

lemma api_step_defined:
  assumes "op_fits (length (mLockedBuffer api)) x"
  shows "\<exists>api'. api_step x api = Some api'"
proof (cases x)
  case (OpPrepareBase pid)
  with assms show ?thesis by (simp add: PrepareBase_defined_iff)
next
  case (OpSetBase b)
  with assms show ?thesis by (simp add: SetBase_defined_iff)
next
  case (OpSetRequest h)
  with assms show ?thesis by (simp add: SetRequest_defined_iff api_ok_def)
next
  case (OpSetResponse h)
  with assms show ?thesis by (simp add: SetResponse_defined_iff)
next
  case (OpSetRequestData bs)
  with assms show ?thesis
    by (simp add: SetRequestData_def with_buffer_Some_iff write_bytes_def RequestOffset_def)
next
  case (OpSetResponseData bs)
  with assms show ?thesis
    by (simp add: SetResponseData_def with_buffer_Some_iff write_bytes_def ResponseOffset_def)
next
  case OpMoveResponseToRequest
  with assms show ?thesis by (simp add: MoveResponseToRequest_defined_iff api_ok_def)
qed

lemma api_run_defined:
  assumes "list_all (op_fits (length (mLockedBuffer api))) xs"
  shows "\<exists>api'. api_run xs api = Some api'"
  using assms
proof (induction xs arbitrary: api)
  case Nil
  then show ?case by simp
next
  case (Cons x xs)
  from Cons.prems obtain api1 where 1: "api_step x api = Some api1"
    using api_step_defined [of api x] by auto
  then have "length (mLockedBuffer api1) = length (mLockedBuffer api)"
    by (rule api_step_length)
  with Cons.prems have "list_all (op_fits (length (mLockedBuffer api1))) xs" by simp
  then obtain api' where "api_run xs api1 = Some api'" using Cons.IH by blast
  with 1 show ?case by simp
qed

lemma api_run_append:
  "api_run (xs @ ys) api =
     (case api_run xs api of None \<Rightarrow> None | Some api' \<Rightarrow> api_run ys api')"
  by (induction xs arbitrary: api) (auto split: option.splits)

section \<open>Lemmas: payload bytes\<close>

lemma SetResponseData_frame:
  assumes "SetResponseData bs api = Some api'"
    and "separate (ResponseOffset + 0x14) (length bs) off n"
  shows "read_bytes (mLockedBuffer api') off n = read_bytes (mLockedBuffer api) off n"
  using assms read_write_separate [of "mLockedBuffer api" "ResponseOffset + 0x14" bs
      "mLockedBuffer api'" off n]
  by (auto simp: SetResponseData_def with_buffer_Some_iff)

lemma SetRequestData_frame:
  assumes "SetRequestData bs api = Some api'"
    and "separate (RequestOffset + 0x14) (length bs) off n"
  shows "read_bytes (mLockedBuffer api') off n = read_bytes (mLockedBuffer api) off n"
  using assms read_write_separate [of "mLockedBuffer api" "RequestOffset + 0x14" bs
      "mLockedBuffer api'" off n]
  by (auto simp: SetRequestData_def with_buffer_Some_iff)

lemma ResponseData_SetResponseData:
  "SetResponseData bs api = Some api' \<Longrightarrow> ResponseData api' (length bs) = Some bs"
  by (auto simp: SetResponseData_def ResponseData_def with_buffer_Some_iff
      dest: read_write_same)

lemma RequestData_SetRequestData:
  "SetRequestData bs api = Some api' \<Longrightarrow> RequestData api' (length bs) = Some bs"
  by (auto simp: SetRequestData_def RequestData_def with_buffer_Some_iff
      dest: read_write_same)

lemma SetRequestData_defined_iff:
  "(\<exists>api'. SetRequestData bs api = Some api') \<longleftrightarrow>
     BufferSize + length bs \<le> length (mLockedBuffer api)"
  by (simp add: SetRequestData_def with_buffer_Some_iff write_bytes_def RequestOffset_def)

lemma SetResponseData_defined_iff:
  "(\<exists>api'. SetResponseData bs api = Some api') \<longleftrightarrow>
     0x28 + length bs \<le> length (mLockedBuffer api)"
  by (simp add: SetResponseData_def with_buffer_Some_iff write_bytes_def ResponseOffset_def)

section \<open>Lemmas: the example states\<close>

lemma api_ok_api_zero [simp]: "api_ok api_zero"
  by (simp add: api_ok_def api_zero_def)

lemma api_ok_api_example [simp]: "api_ok api_example"
  by (simp add: api_ok_def api_example_def)

lemma length_api_example [simp]: "length (mLockedBuffer api_example) = 0x70"
  by (simp add: api_example_def)

lemma GetResponse_api_example [simp]: "GetResponse api_example = Some hdr_example"
  by (simp add: GetResponse_def view_get_def read_bytes_def api_example_def ResponseOffset_def
      fixed_codec_dec_enc)

lemma api_ok_imp_lengths:
  "api_ok api \<Longrightarrow> 0x20 \<le> length (mLockedBuffer api) \<and> 0x28 \<le> length (mLockedBuffer api)"
  by (simp add: api_ok_def)

section \<open>Properties\<close>

text \<open>
  C2: \<^verbatim>\<open>BufferSize()\<close> is the header size plus the larger of the two header offsets,
  that is 0x70, and it is exactly the size a block needs: the request view, the response
  view and the envelope view are all inside the block if and only if the block has at
  least \<open>BufferSize\<close> bytes.
\<close>

theorem BufferSize_sufficient:
  "BufferSize = sizeof_trustlet_buffer_t + max RequestOffset ResponseOffset \<and>
   BufferSize = 0x70 \<and>
   ((\<exists>q. GetRequest api = Some q) \<and> (\<exists>r. GetResponse api = Some r) \<and> (\<exists>b. Base api = Some b)
      \<longleftrightarrow> BufferSize \<le> length (mLockedBuffer api))"
  by (auto simp: GetRequest_defined_iff GetResponse_defined_iff Base_defined_iff api_ok_def
      BufferSize_def RequestOffset_def ResponseOffset_def)

text \<open>
  C3: \<^verbatim>\<open>MoveResponseToRequest\<close> on a block of at least \<open>BufferSize\<close> bytes succeeds; after it
  the request header equals the former response header, the response header is
  unchanged, and byte by byte the block differs from the old one only in the 0x14 bytes
  of the request header, each of which is the corresponding byte of the response header.
  In particular any payload that trails either header stays where it was.
\<close>

theorem move_response_to_request:
  assumes "api_ok api"
  shows "\<exists>api'. MoveResponseToRequest api = Some api'
    \<and> GetRequest api' = GetResponse api \<and> GetResponse api' = GetResponse api
    \<and> length (mLockedBuffer api') = length (mLockedBuffer api)
    \<and> (\<forall>i < length (mLockedBuffer api). mLockedBuffer api' ! i =
          (if RequestOffset \<le> i \<and> i < RequestOffset + sizeof_trustlet_buffer_t
           then mLockedBuffer api ! (ResponseOffset + (i - RequestOffset))
           else mLockedBuffer api ! i))"
proof -
  from assms obtain api' where "MoveResponseToRequest api = Some api'"
    using MoveResponseToRequest_defined_iff by blast
  then show ?thesis
    by (simp add: GetRequest_MoveResponseToRequest GetResponse_MoveResponseToRequest
        MoveResponseToRequest_length MoveResponseToRequest_nth)
qed

theorem move_response_to_request_witness:
  "api_ok api_example \<and> (\<exists>api'. MoveResponseToRequest api_example = Some api'
     \<and> GetRequest api' = Some hdr_example \<and> GetResponse api' = Some hdr_example)"
  using move_response_to_request [OF api_ok_api_example] by auto

text \<open>
  C4: a write of the request header on a block of at least \<open>BufferSize\<close> bytes
  succeeds, is read back unchanged, and corrupts neither the response header nor the
  envelope nor the payload bytes that follow the request header.
\<close>

theorem request_write_isolated:
  assumes "api_ok api"
  shows "\<exists>api'. SetRequest h api = Some api' \<and> GetRequest api' = Some h
    \<and> GetResponse api' = GetResponse api \<and> Base api' = Base api
    \<and> (\<forall>n. RequestData api' n = RequestData api n)"
proof -
  from assms obtain api' where 1: "SetRequest h api = Some api'"
    using SetRequest_defined_iff by blast
  have "RequestData api' n = RequestData api n" for n
    unfolding RequestData_def
    by (rule SetRequest_frame [OF 1]) (simp add: separate_def)
  with 1 show ?thesis
    by (simp add: GetRequest_SetRequest GetResponse_SetRequest Base_SetRequest)
qed

theorem request_write_isolated_witness:
  "api_ok api_example \<and> (\<exists>api'. SetRequest \<lparr>process = 1, command = 2, gid = 3, fid = 4,
       buffer_size = 5\<rparr> api_example = Some api'
     \<and> GetRequest api' = Some \<lparr>process = 1, command = 2, gid = 3, fid = 4, buffer_size = 5\<rparr>
     \<and> GetResponse api' = Some hdr_example)"
  using request_write_isolated [OF api_ok_api_example,
      of "\<lparr>process = 1, command = 2, gid = 3, fid = 4, buffer_size = 5\<rparr>"]
  by auto

text \<open>
  C5: \<^verbatim>\<open>PrepareBase(process)\<close> on a block of at least \<open>BufferSize\<close> bytes succeeds and
  leaves an envelope whose every field is zero except \<open>process_id\<close>, which is the
  argument; the request header and every byte from offset 0x20 on are unchanged.
\<close>

theorem prepare_base_result:
  assumes "api_ok api"
  shows "\<exists>api'. PrepareBase pid api = Some api'
    \<and> Base api' = Some (base_zero\<lparr>process_id := pid\<rparr>) \<and> GetRequest api' = GetRequest api
    \<and> (\<forall>off n. sizeof_base_transaction_t \<le> off \<longrightarrow>
          read_bytes (mLockedBuffer api') off n = read_bytes (mLockedBuffer api) off n)"
proof -
  from assms obtain api' where "PrepareBase pid api = Some api'"
    using PrepareBase_defined_iff [of pid api] by (auto dest: api_ok_imp_lengths)
  then show ?thesis
    by (simp add: Base_PrepareBase GetRequest_PrepareBase PrepareBase_frame)
qed

theorem prepare_base_result_witness:
  "api_ok api_example \<and> (\<exists>api'. PrepareBase 0xe0 api_example = Some api' \<and>
     Base api' = Some \<lparr>process_id = 0xe0, no_extra_buffer = 0, unk0 = 0, extra_buffer_size = 0,
       ret_val = 0, unk1 = 0, unk2 = 0, extra_flags = 0\<rparr>)"
  using prepare_base_result [OF api_ok_api_example, of "0xe0"]
  by (auto simp: base_zero_def words_base_transaction_def)

text \<open>
  C26: the response header is not independent of the envelope. On a block of at
  least \<open>BufferSize\<close> bytes both views exist, the response header starts at the envelope's
  \<^verbatim>\<open>data\<close> member (offset 0x14), and its process, command and gid fields are the envelope's
  \<open>unk1\<close>, \<open>unk2\<close> and \<open>extra_flags\<close>.
\<close>

theorem response_aliases_envelope:
  assumes "api_ok api"
  shows "\<exists>b r. Base api = Some b \<and> GetResponse api = Some r
    \<and> process r = base_transaction_t.unk1 b \<and> command r = base_transaction_t.unk2 b
    \<and> gid r = extra_flags b
    \<and> read_bytes (mLockedBuffer api) ResponseOffset 12 = Some (base_data b)"
proof -
  from assms obtain b r where "Base api = Some b" and "GetResponse api = Some r"
    using Base_defined_iff [of api] GetResponse_defined_iff [of api]
    by (auto dest: api_ok_imp_lengths)
  then show ?thesis by (simp add: response_aliases_base response_is_base_data)
qed

theorem response_aliases_envelope_witness:
  "api_ok api_example \<and> (\<exists>b. Base api_example = Some b
     \<and> base_transaction_t.unk1 b = 0xe0 \<and> base_transaction_t.unk2 b = 0x2a
     \<and> extra_flags b = 1)"
  using response_aliases_envelope [OF api_ok_api_example]
  by (auto simp: hdr_example_def)

text \<open>
  C27: \<^verbatim>\<open>PrepareBase\<close> clears part of a response that is in the block: whenever the
  response view exists, \<^verbatim>\<open>PrepareBase\<close> succeeds and afterwards the response header has
  process, command and gid zero, while fid and buffer_size are as before.
\<close>

theorem prepare_base_clobbers_response:
  assumes "GetResponse api = Some r"
  shows "\<exists>api'. PrepareBase pid api = Some api'
    \<and> GetResponse api' = Some (r\<lparr>process := 0, command := 0, gid := 0\<rparr>)"
proof -
  from assms have "0x28 \<le> length (mLockedBuffer api)"
    using GetResponse_defined_iff [of api] by auto
  then obtain api' where "PrepareBase pid api = Some api'"
    using PrepareBase_defined_iff [of pid api] by auto
  with assms show ?thesis by (simp add: GetResponse_PrepareBase)
qed

theorem prepare_base_clobbers_response_witness:
  "GetResponse api_example = Some hdr_example \<and> (\<exists>api'. PrepareBase 0xe0 api_example = Some api'
     \<and> GetResponse api' =
         Some \<lparr>process = 0, command = 0, gid = 0, fid = 7, buffer_size = 0\<rparr>)"
  using prepare_base_clobbers_response [OF GetResponse_api_example, of "0xe0"]
  by (auto simp: hdr_example_def)

text \<open>
  C29: no sequence of buffer operations whose accesses fit the block fails, and every
  such sequence keeps the size of the block, hence keeps \<open>api_ok\<close>.
\<close>

theorem api_run_total:
  assumes "list_all (op_fits (length (mLockedBuffer api))) xs"
  shows "\<exists>api'. api_run xs api = Some api'
    \<and> length (mLockedBuffer api') = length (mLockedBuffer api) \<and> api_ok api' = api_ok api"
proof -
  from assms obtain api' where "api_run xs api = Some api'"
    using api_run_defined by blast
  then show ?thesis by (auto dest: api_run_length simp: api_ok_def)
qed

theorem api_run_total_witness:
  "list_all (op_fits (length (mLockedBuffer api_example)))
     [OpPrepareBase 0xe0, OpSetRequest hdr_example, OpMoveResponseToRequest] \<and>
   (\<exists>api'. api_run [OpPrepareBase 0xe0, OpSetRequest hdr_example, OpMoveResponseToRequest]
      api_example = Some api' \<and> api_ok api')"
  using api_run_total [of api_example
      "[OpPrepareBase 0xe0, OpSetRequest hdr_example, OpMoveResponseToRequest]"]
  by auto

text \<open>
  The byte copy of \<^verbatim>\<open>MoveResponseToRequest\<close> is the typed copy: it is the same
  as reading the response header and writing it as the request header, and it fails
  exactly when the block is shorter than \<open>BufferSize\<close>.
\<close>

theorem move_response_typed:
  "MoveResponseToRequest api =
     (case GetResponse api of None \<Rightarrow> None | Some r \<Rightarrow> SetRequest r api) \<and>
   (MoveResponseToRequest api = None \<longleftrightarrow> \<not> api_ok api)"
  using MoveResponseToRequest_defined_iff [of api]
  by (cases "MoveResponseToRequest api") (auto simp: MoveResponseToRequest_typed)

text \<open>
  C31: a response payload of at most 0x34 bytes fits between the response header and
  the request header: writing it succeeds, it is read back unchanged, and the request
  header, the response header and the envelope are untouched.
\<close>

theorem response_payload_capacity:
  assumes "api_ok api" and "length bs \<le> 0x34"
  shows "\<exists>api'. SetResponseData bs api = Some api' \<and> ResponseData api' (length bs) = Some bs
    \<and> GetRequest api' = GetRequest api \<and> GetResponse api' = GetResponse api
    \<and> Base api' = Base api"
proof -
  from assms obtain api' where 1: "SetResponseData bs api = Some api'"
    using SetResponseData_defined_iff [of bs api] by (auto simp: api_ok_def)
  from assms(2) have "GetRequest api' = GetRequest api" "GetResponse api' = GetResponse api"
    "Base api' = Base api"
    unfolding GetRequest_def GetResponse_def Base_def view_get_def
    by (simp_all add: SetResponseData_frame [OF 1] separate_def ResponseOffset_def
        RequestOffset_def)
  with 1 show ?thesis by (simp add: ResponseData_SetResponseData)
qed

theorem response_payload_capacity_witness:
  "api_ok api_example \<and> length [1, 2, 3 :: u8] \<le> 0x34 \<and>
   (\<exists>api'. SetResponseData [1, 2, 3] api_example = Some api'
      \<and> ResponseData api' 3 = Some [1, 2, 3] \<and> GetResponse api' = Some hdr_example)"
  using response_payload_capacity [OF api_ok_api_example, of "[1, 2, 3]"]
  by (auto simp: numeral_3_eq_3)

text \<open>
  C32: the response payload area is bounded by the request header: there is a block of
  \<open>BufferSize\<close> bytes and a payload of 0x35 bytes whose write succeeds and changes the
  request header.
\<close>

theorem response_payload_overflow:
  "\<exists>api bs api'. api_ok api \<and> length bs = 0x35 \<and> SetResponseData bs api = Some api'
     \<and> GetRequest api' \<noteq> GetRequest api"
proof -
  let ?bs = "replicate 0x35 (0xff :: u8)"
  obtain api' where 1: "SetResponseData ?bs api_zero = Some api'"
    using SetResponseData_defined_iff [of ?bs api_zero] by (auto simp: api_zero_def)
  then have buf: "mLockedBuffer api' = replicate 0x28 0 @ ?bs @ replicate 0x13 0"
    by (auto simp: SetResponseData_def with_buffer_Some_iff write_bytes_def api_zero_def
        ResponseOffset_def)
  have "read_u32 (mLockedBuffer api') RequestOffset = Some 0xff"
    by (simp add: buf read_u32_def read_bytes_def RequestOffset_def le_word_Cons)
  moreover have "read_u32 (mLockedBuffer api_zero) RequestOffset = Some 0"
    by (simp add: api_zero_def read_u32_def read_bytes_def RequestOffset_def)
  moreover have "api_ok api_zero" "api_ok api'"
    using SetResponseData_length [OF 1] by (simp_all add: api_ok_def api_zero_def)
  then obtain q q' where "GetRequest api_zero = Some q" "GetRequest api' = Some q'"
    using GetRequest_defined_iff by blast
  ultimately have "GetRequest api' \<noteq> GetRequest api_zero"
    using trustlet_buffer_field_offsets(1) [of RequestOffset "mLockedBuffer api_zero" q]
      trustlet_buffer_field_offsets(1) [of RequestOffset "mLockedBuffer api'" q']
    by (auto simp: GetRequest_def)
  with 1 \<open>api_ok api_zero\<close> show ?thesis
    by (intro exI [of _ api_zero] exI [of _ ?bs] exI [of _ api'] conjI) simp_all
qed

text \<open>
  C33: an inline request payload that fits the block behind the request header is
  written successfully, is read back unchanged, and leaves both headers and the envelope
  as they were.
\<close>

theorem request_payload_roundtrip:
  assumes "BufferSize + length bs \<le> length (mLockedBuffer api)"
  shows "\<exists>api'. SetRequestData bs api = Some api' \<and> RequestData api' (length bs) = Some bs
    \<and> GetRequest api' = GetRequest api \<and> GetResponse api' = GetResponse api
    \<and> Base api' = Base api"
proof -
  from assms obtain api' where 1: "SetRequestData bs api = Some api'"
    using SetRequestData_defined_iff by blast
  have "GetRequest api' = GetRequest api" "GetResponse api' = GetResponse api"
    "Base api' = Base api"
    unfolding GetRequest_def GetResponse_def Base_def view_get_def
    by (simp_all add: SetRequestData_frame [OF 1] separate_def ResponseOffset_def
        RequestOffset_def)
  with 1 show ?thesis by (simp add: RequestData_SetRequestData)
qed

theorem request_payload_roundtrip_witness:
  "BufferSize + length [1, 2, 3 :: u8] \<le> length (mLockedBuffer (api_example\<lparr>mLockedBuffer :=
      mLockedBuffer api_example @ [0, 0, 0, 0]\<rparr>)) \<and>
   (\<exists>api'. SetRequestData [1, 2, 3] (api_example\<lparr>mLockedBuffer :=
      mLockedBuffer api_example @ [0, 0, 0, 0]\<rparr>) = Some api'
      \<and> RequestData api' 3 = Some [1, 2, 3])"
  using request_payload_roundtrip [of "[1, 2, 3]" "api_example\<lparr>mLockedBuffer :=
      mLockedBuffer api_example @ [0, 0, 0, 0]\<rparr>"]
  by (auto simp: numeral_3_eq_3)

text \<open>
  C34: a block of exactly \<open>BufferSize\<close> bytes has no room for inline request data: a
  write of request payload fails unless the payload is empty.
\<close>

theorem BufferSize_no_payload_room:
  assumes "length (mLockedBuffer api) = BufferSize"
  shows "SetRequestData bs api = None \<longleftrightarrow> bs \<noteq> []"
  using assms SetRequestData_defined_iff [of bs api]
  by (cases "SetRequestData bs api") auto

theorem BufferSize_no_payload_room_witness:
  "length (mLockedBuffer api_example) = BufferSize \<and> SetRequestData [1] api_example = None"
  using BufferSize_no_payload_room [of api_example "[1]"] by simp

text \<open>
  \<^verbatim>\<open>PrepareBase\<close> fails exactly when the block is shorter than the envelope, which
  is when the C++ code would write outside the block.
\<close>

theorem prepare_base_error:
  "PrepareBase pid api = None \<longleftrightarrow> length (mLockedBuffer api) < sizeof_base_transaction_t"
  using PrepareBase_defined_iff [of pid api] by (cases "PrepareBase pid api") auto

end
