(* ===== verification/Buffer_Slots.thy ===== *)
theory Buffer_Slots
  imports Buffer_API
begin

text \<open>
  What the buffer views promise, stated without bytes: the locked block is five
  independent slots, and each operation of \<open>Buffer_API\<close> is an update of slots. The
  slots are the five leading words of the envelope, the response header (whose first
  three words double as the envelope's union), the 0x34 bytes between the response
  header and the request header, the request header, and whatever follows the request
  header. \<open>slots_of\<close> reads the slots off a block and \<open>slots_bytes\<close> lays them out;
  they are inverse to each other on blocks of at least \<open>BufferSize\<close> bytes, and the
  refinement lemmas show that every operation of the byte-level model is the
  corresponding slot update.
\<close>

section \<open>Slots\<close>

record slots =
  s_env :: "u32 list"
  s_response :: trustlet_buffer_t
  s_gap :: bytes
  s_request :: trustlet_buffer_t
  s_tail :: bytes

definition slots_ok :: "slots \<Rightarrow> bool" where
  "slots_ok s \<longleftrightarrow> length (s_env s) = 5 \<and> length (s_gap s) = 0x34"

definition slots_bytes :: "slots \<Rightarrow> bytes" where
  "slots_bytes s =
     u32s_bytes (s_env s) @ enc trustlet_buffer_codec (s_response s) @ s_gap s @
     enc trustlet_buffer_codec (s_request s) @ s_tail s"

definition slots_of :: "bytes \<Rightarrow> slots" where
  "slots_of buf =
     \<lparr>s_env = bytes_u32s 5 buf,
      s_response = dec trustlet_buffer_codec (take 0x14 (drop ResponseOffset buf)),
      s_gap = take 0x34 (drop 0x28 buf),
      s_request = dec trustlet_buffer_codec (take 0x14 (drop RequestOffset buf)),
      s_tail = drop BufferSize buf\<rparr>"

definition abs_api :: "API \<Rightarrow> slots option" where
  "abs_api api = (if api_ok api then Some (slots_of (mLockedBuffer api)) else None)"

section \<open>Slot-level operations\<close>

definition a_Base :: "slots \<Rightarrow> base_transaction_t" where
  "a_Base s =
     words_base_transaction
       (s_env s @ [process (s_response s), command (s_response s), gid (s_response s)])"

definition a_SetBase :: "base_transaction_t \<Rightarrow> slots \<Rightarrow> slots" where
  "a_SetBase b s =
     s\<lparr>s_env := take 5 (base_transaction_words b),
       s_response := (s_response s)
         \<lparr>process := base_transaction_t.unk1 b, command := base_transaction_t.unk2 b,
          gid := extra_flags b\<rparr>\<rparr>"

definition a_PrepareBase :: "u32 \<Rightarrow> slots \<Rightarrow> slots" where
  "a_PrepareBase pid s = a_SetBase (base_zero\<lparr>process_id := pid\<rparr>) s"

definition a_MoveResponseToRequest :: "slots \<Rightarrow> slots" where
  "a_MoveResponseToRequest s = s\<lparr>s_request := s_response s\<rparr>"

definition a_SetRequestData :: "bytes \<Rightarrow> slots \<Rightarrow> slots" where
  "a_SetRequestData bs s = s\<lparr>s_tail := bs @ drop (length bs) (s_tail s)\<rparr>"

definition a_SetResponseData :: "bytes \<Rightarrow> slots \<Rightarrow> slots" where
  "a_SetResponseData bs s = s\<lparr>s_gap := bs @ drop (length bs) (s_gap s)\<rparr>"

fun a_step :: "api_op \<Rightarrow> slots \<Rightarrow> slots" where
  "a_step (OpPrepareBase pid) s = a_PrepareBase pid s"
| "a_step (OpSetBase b) s = a_SetBase b s"
| "a_step (OpSetRequest h) s = s\<lparr>s_request := h\<rparr>"
| "a_step (OpSetResponse h) s = s\<lparr>s_response := h\<rparr>"
| "a_step (OpSetRequestData bs) s = a_SetRequestData bs s"
| "a_step (OpSetResponseData bs) s = a_SetResponseData bs s"
| "a_step OpMoveResponseToRequest s = a_MoveResponseToRequest s"

fun a_fits :: "slots \<Rightarrow> api_op \<Rightarrow> bool" where
  "a_fits s (OpSetRequestData bs) \<longleftrightarrow> length bs \<le> length (s_tail s)"
| "a_fits s (OpSetResponseData bs) \<longleftrightarrow> length bs \<le> 0x34"
| "a_fits s _ \<longleftrightarrow> True"

fun a_run :: "api_op list \<Rightarrow> slots \<Rightarrow> slots option" where
  "a_run [] s = Some s"
| "a_run (x # xs) s = (if a_fits s x then a_run xs (a_step x s) else None)"

section \<open>Example state\<close>

definition slots_example :: slots where
  "slots_example = \<lparr>s_env = replicate 5 0, s_response = hdr_example,
     s_gap = replicate 0x34 0xff,
     s_request = dec trustlet_buffer_codec (replicate 0x14 0xff), s_tail = []\<rparr>"

lemmas slots_defs [wire_defs] =
  slots_ok_def slots_bytes_def slots_of_def abs_api_def a_Base_def a_SetBase_def
  a_PrepareBase_def a_MoveResponseToRequest_def a_SetRequestData_def a_SetResponseData_def

section \<open>Lemmas: slots and bytes are inverse\<close>

lemma length_slots_bytes:
  "slots_ok s \<Longrightarrow> length (slots_bytes s) = BufferSize + length (s_tail s)"
  by (simp add: slots_bytes_def slots_ok_def)

lemma slots_ok_slots_of: "BufferSize \<le> length buf \<Longrightarrow> slots_ok (slots_of buf)"
  by (simp add: slots_ok_def slots_of_def)

lemma slots_of_slots_bytes:
  assumes "slots_ok s"
  shows "slots_of (slots_bytes s) = s"
proof -
  from assms have "bytes_u32s 5 (slots_bytes s) = s_env s"
    using bytes_u32s_u32s_bytes [of "s_env s"]
    by (simp add: slots_bytes_def slots_ok_def bytes_u32s_append)
  with assms show ?thesis
    by (simp add: slots_of_def slots_bytes_def slots_ok_def ResponseOffset_def RequestOffset_def
        fixed_codec_dec_enc)
qed

lemma slots_bytes_slots_of:
  assumes "BufferSize \<le> length buf"
  shows "slots_bytes (slots_of buf) = buf"
proof -
  have 1: "u32s_bytes (bytes_u32s 5 buf) = take 20 buf"
    using assms u32s_bytes_bytes_u32s [of "take 20 buf" 5]
      bytes_u32s_append [of "take 20 buf" 5 "drop 20 buf"] by simp
  have 2: "enc trustlet_buffer_codec (dec trustlet_buffer_codec (take 20 (drop k buf)))
      = take 20 (drop k buf)" if "k + 20 \<le> length buf" for k
    using that by (simp add: fixed_codec_enc_dec)
  have 3: "take 20 buf @ take 20 (drop 20 buf) @ take 52 (drop 40 buf)
      @ take 20 (drop 92 buf) @ drop 112 buf = buf"
    using chunk_append [of 92 20 112 buf] chunk_append [of 40 52 92 buf]
      chunk_append [of 20 20 40 buf] by simp
  from assms show ?thesis
    by (simp add: slots_bytes_def slots_of_def 1 2 3 ResponseOffset_def RequestOffset_def)
qed


section \<open>Lemmas: the byte-level operations on laid-out slots\<close>

lemma get_request_slots:
  "slots_ok s \<Longrightarrow> view_get trustlet_buffer_codec RequestOffset (slots_bytes s) = Some (s_request s)"
  by (simp add: view_get_def read_bytes_def slots_bytes_def slots_ok_def RequestOffset_def
      fixed_codec_dec_enc)

lemma get_response_slots:
  "slots_ok s \<Longrightarrow>
     view_get trustlet_buffer_codec ResponseOffset (slots_bytes s) = Some (s_response s)"
  by (simp add: view_get_def read_bytes_def slots_bytes_def slots_ok_def ResponseOffset_def
      fixed_codec_dec_enc)

lemma put_request_slots:
  "slots_ok s \<Longrightarrow> view_put trustlet_buffer_codec RequestOffset h (slots_bytes s)
     = Some (slots_bytes (s\<lparr>s_request := h\<rparr>))"
  by (simp add: view_put_def write_bytes_def slots_bytes_def slots_ok_def RequestOffset_def)

lemma put_response_slots:
  "slots_ok s \<Longrightarrow> view_put trustlet_buffer_codec ResponseOffset h (slots_bytes s)
     = Some (slots_bytes (s\<lparr>s_response := h\<rparr>))"
  by (simp add: view_put_def write_bytes_def slots_bytes_def slots_ok_def ResponseOffset_def)

lemma enc_trustlet_buffer_chunks:
  "enc trustlet_buffer_codec h =
     u32s_bytes [process h, command h, gid h] @ u32s_bytes [fid h, buffer_size h]"
  by (simp add: trustlet_buffer_codec_def words_codec_def trustlet_buffer_words_def)

lemma enc_base_transaction_chunks:
  "enc base_transaction_codec b =
     u32s_bytes (take 5 (base_transaction_words b)) @
     u32s_bytes [base_transaction_t.unk1 b, base_transaction_t.unk2 b, extra_flags b]"
  by (simp add: base_transaction_codec_def words_codec_def base_transaction_words_def)

lemma put_base_slots:
  "slots_ok s \<Longrightarrow>
     view_put base_transaction_codec 0 b (slots_bytes s) = Some (slots_bytes (a_SetBase b s))"
  by (simp add: view_put_def write_bytes_def slots_bytes_def slots_ok_def a_SetBase_def
      enc_trustlet_buffer_chunks enc_base_transaction_chunks del: u32s_bytes_Cons)


lemma get_base_slots:
  "slots_ok s \<Longrightarrow> view_get base_transaction_codec 0 (slots_bytes s) = Some (a_Base s)"
proof -
  assume ok: "slots_ok s"
  let ?ws = "s_env s @ [process (s_response s), command (s_response s), gid (s_response s)]"
  have "take 32 (slots_bytes s) = u32s_bytes ?ws"
    using ok by (simp add: slots_bytes_def slots_ok_def enc_trustlet_buffer_chunks)
  moreover have "bytes_u32s 8 (u32s_bytes ?ws) = ?ws"
    using ok bytes_u32s_u32s_bytes [of ?ws] by (simp add: slots_ok_def)
  ultimately show ?thesis
    using ok
    by (simp add: view_get_def read_bytes_def length_slots_bytes a_Base_def
        base_transaction_codec_def words_codec_def)
qed

lemma put_request_data_slots:
  "slots_ok s \<Longrightarrow> length bs \<le> length (s_tail s) \<Longrightarrow>
     write_bytes (slots_bytes s) (RequestOffset + 0x14) bs
       = Some (slots_bytes (a_SetRequestData bs s))"
  by (simp add: write_bytes_def slots_bytes_def slots_ok_def RequestOffset_def
      a_SetRequestData_def)

lemma put_response_data_slots:
  "slots_ok s \<Longrightarrow> length bs \<le> 0x34 \<Longrightarrow>
     write_bytes (slots_bytes s) (ResponseOffset + 0x14) bs
       = Some (slots_bytes (a_SetResponseData bs s))"
  by (simp add: write_bytes_def slots_bytes_def slots_ok_def ResponseOffset_def
      a_SetResponseData_def)

section \<open>Lemmas: refinement\<close>

lemma abs_api_Some_iff:
  "abs_api api = Some s \<longleftrightarrow> slots_ok s \<and> mLockedBuffer api = slots_bytes s"
proof
  assume "abs_api api = Some s"
  then have "api_ok api" and s: "s = slots_of (mLockedBuffer api)"
    by (auto simp: abs_api_def split: if_splits)
  then show "slots_ok s \<and> mLockedBuffer api = slots_bytes s"
    by (simp add: api_ok_def slots_ok_slots_of slots_bytes_slots_of)
next
  assume "slots_ok s \<and> mLockedBuffer api = slots_bytes s"
  then show "abs_api api = Some s"
    by (simp add: abs_api_def api_ok_def length_slots_bytes slots_of_slots_bytes)
qed

lemma slots_ok_a_step: "slots_ok s \<Longrightarrow> a_fits s x \<Longrightarrow> slots_ok (a_step x s)"
  by (cases x)
    (auto simp: slots_ok_def a_PrepareBase_def a_SetBase_def a_SetRequestData_def
      a_SetResponseData_def a_MoveResponseToRequest_def)

lemma api_step_slots:
  assumes "slots_ok s" and "a_fits s x"
  shows "api_step x \<lparr>mLockedBuffer = slots_bytes s\<rparr>
     = Some \<lparr>mLockedBuffer = slots_bytes (a_step x s)\<rparr>"
proof (cases x)
  case (OpPrepareBase pid)
  with assms show ?thesis
    by (simp add: PrepareBase_eq_SetBase SetBase_def put_base_slots with_buffer_def
        a_PrepareBase_def)
next
  case (OpSetBase b)
  with assms show ?thesis by (simp add: SetBase_def put_base_slots with_buffer_def)
next
  case (OpSetRequest h)
  with assms show ?thesis by (simp add: SetRequest_def put_request_slots with_buffer_def)
next
  case (OpSetResponse h)
  with assms show ?thesis by (simp add: SetResponse_def put_response_slots with_buffer_def)
next
  case (OpSetRequestData bs)
  with assms show ?thesis
    by (simp add: SetRequestData_def put_request_data_slots with_buffer_def)
next
  case (OpSetResponseData bs)
  with assms show ?thesis
    by (simp add: SetResponseData_def put_response_data_slots with_buffer_def)
next
  case OpMoveResponseToRequest
  with assms show ?thesis
    by (simp add: MoveResponseToRequest_typed GetResponse_def get_response_slots
        SetRequest_def put_request_slots with_buffer_def a_MoveResponseToRequest_def)
qed

lemma api_step_refines:
  assumes "abs_api api = Some s" and "a_fits s x"
  shows "\<exists>api'. api_step x api = Some api' \<and> abs_api api' = Some (a_step x s)"
proof -
  from assms(1) have ok: "slots_ok s" and buf: "api = \<lparr>mLockedBuffer = slots_bytes s\<rparr>"
    by (simp_all add: abs_api_Some_iff)
  from ok assms(2) have "slots_ok (a_step x s)" by (rule slots_ok_a_step)
  then have "abs_api \<lparr>mLockedBuffer = slots_bytes (a_step x s)\<rparr> = Some (a_step x s)"
    by (simp add: abs_api_Some_iff)
  with api_step_slots [OF ok assms(2)] buf show ?thesis by simp
qed

lemma views_refine:
  assumes "abs_api api = Some s"
  shows "GetRequest api = Some (s_request s)"
    and "GetResponse api = Some (s_response s)"
    and "Base api = Some (a_Base s)"
  using assms
  by (simp_all add: abs_api_Some_iff GetRequest_def GetResponse_def Base_def
      get_request_slots get_response_slots get_base_slots)


lemma api_run_refines:
  assumes "abs_api api = Some s" and "a_run xs s = Some s'"
  shows "\<exists>api'. api_run xs api = Some api' \<and> abs_api api' = Some s'"
  using assms
proof (induction xs arbitrary: api s)
  case Nil
  then show ?case by simp
next
  case (Cons x xs)
  from Cons.prems(2) have fits: "a_fits s x" and rest: "a_run xs (a_step x s) = Some s'"
    by (auto split: if_splits)
  from api_step_refines [OF Cons.prems(1) fits] obtain api1
    where 1: "api_step x api = Some api1" and 2: "abs_api api1 = Some (a_step x s)" by blast
  from Cons.IH [OF 2 rest] obtain api' where "api_run xs api1 = Some api'"
    and "abs_api api' = Some s'" by blast
  with 1 show ?case by simp
qed

section \<open>Lemmas: field stores and the example state\<close>

lemma store_field_slots:
  assumes "slots_ok s" and "i < 5"
  shows "write_u32 (slots_bytes s) (RequestOffset + 4 * i) w =
     Some (slots_bytes (s\<lparr>s_request :=
       words_trustlet_buffer ((trustlet_buffer_words (s_request s))[i := w])\<rparr>))"
proof -
  from assms(2) consider "i = 0" | "i = 1" | "i = 2" | "i = 3" | "i = 4" by linarith
  then show ?thesis
    using assms(1)
    by cases
      (simp_all add: write_u32_def write_bytes_def slots_bytes_def slots_ok_def RequestOffset_def
        trustlet_buffer_codec_def words_codec_def trustlet_buffer_words_def
        words_trustlet_buffer_def)
qed

lemma slots_ok_example [simp]: "slots_ok slots_example"
  by (simp add: slots_ok_def slots_example_def)

lemma abs_api_example [simp]: "abs_api api_example = Some slots_example"
proof -
  have "enc trustlet_buffer_codec (dec trustlet_buffer_codec (replicate 0x14 0xff))
      = replicate 0x14 0xff"
    by (simp add: fixed_codec_enc_dec)
  then have "slots_bytes slots_example = mLockedBuffer api_example"
    by (simp add: slots_bytes_def slots_example_def api_example_def
        replicate_add [symmetric])
  then show ?thesis by (simp add: abs_api_Some_iff)
qed

section \<open>Properties\<close>

text \<open>
  C6: refinement. A block of at least \<open>BufferSize\<close> bytes is five slots (envelope
  head, response header, gap, request header, tail), and every sequence of buffer
  operations that fits the slots runs without failure on the block and ends in the block
  that lays out the result of the same sequence of slot updates; the three views of the
  final block are the slots of the final abstract state.
\<close>

theorem api_refines_slots:
  assumes "abs_api api = Some s" and "a_run xs s = Some s'"
  shows "\<exists>api'. api_run xs api = Some api' \<and> abs_api api' = Some s'
    \<and> GetRequest api' = Some (s_request s') \<and> GetResponse api' = Some (s_response s')
    \<and> Base api' = Some (a_Base s')"
proof -
  from api_run_refines [OF assms] obtain api' where "api_run xs api = Some api'"
    and "abs_api api' = Some s'" by blast
  then show ?thesis by (simp add: views_refine)
qed

theorem api_refines_slots_witness:
  "abs_api api_example = Some slots_example \<and>
   a_run [OpPrepareBase 0xe0, OpMoveResponseToRequest] slots_example
     = Some (a_MoveResponseToRequest (a_PrepareBase 0xe0 slots_example)) \<and>
   (\<exists>api'. api_run [OpPrepareBase 0xe0, OpMoveResponseToRequest] api_example = Some api'
      \<and> GetRequest api' = Some \<lparr>process = 0, command = 0, gid = 0, fid = 7, buffer_size = 0\<rparr>)"
proof -
  have r: "a_run [OpPrepareBase 0xe0, OpMoveResponseToRequest] slots_example
     = Some (a_MoveResponseToRequest (a_PrepareBase 0xe0 slots_example))"
    by simp
  from api_refines_slots [OF abs_api_example r] r show ?thesis
    by (auto simp: a_MoveResponseToRequest_def a_PrepareBase_def a_SetBase_def
        slots_example_def hdr_example_def base_zero_def words_base_transaction_def)
qed

text \<open>
  C30: a store to one field of the request header through the overlay, that is a
  32-bit little-endian write at the field's offset (command at +4, gid at +8, fid at
  +0xc, buffer_size at +0x10), is the same as writing back the whole header with that
  field updated.
\<close>

theorem request_field_store:
  assumes "GetRequest api = Some q"
  shows "with_buffer api (write_u32 (mLockedBuffer api) (RequestOffset + 4) c)
      = SetRequest (q\<lparr>command := c\<rparr>) api
    \<and> with_buffer api (write_u32 (mLockedBuffer api) (RequestOffset + 8) g)
      = SetRequest (q\<lparr>gid := g\<rparr>) api
    \<and> with_buffer api (write_u32 (mLockedBuffer api) (RequestOffset + 0xc) f)
      = SetRequest (q\<lparr>fid := f\<rparr>) api
    \<and> with_buffer api (write_u32 (mLockedBuffer api) (RequestOffset + 0x10) n)
      = SetRequest (q\<lparr>buffer_size := n\<rparr>) api"
proof -
  from assms have "api_ok api" using GetRequest_defined_iff by blast
  then obtain s where s: "abs_api api = Some s" by (simp add: abs_api_def)
  then have ok: "slots_ok s" and buf: "mLockedBuffer api = slots_bytes s"
    by (simp_all add: abs_api_Some_iff)
  from views_refine(1) [OF s] assms have q: "s_request s = q" by simp
  show ?thesis
    using store_field_slots [OF ok, of 1 c] store_field_slots [OF ok, of 2 g]
      store_field_slots [OF ok, of 3 f] store_field_slots [OF ok, of 4 n]
    by (cases q)
      (simp add: buf q SetRequest_def put_request_slots [OF ok] trustlet_buffer_words_def
        words_trustlet_buffer_def)
qed

theorem request_field_store_witness:
  "\<exists>q. GetRequest api_example = Some q \<and>
     with_buffer api_example (write_u32 (mLockedBuffer api_example) (RequestOffset + 4) 0x2a)
       = SetRequest (q\<lparr>command := 0x2a\<rparr>) api_example"
proof -
  obtain q where q: "GetRequest api_example = Some q"
    using GetRequest_defined_iff [of api_example] by auto
  from request_field_store [OF q] q show ?thesis by blast
qed

end
