(* ===== verification/Session.thy ===== *)
theory Session
  imports Buffer_API
begin

text \<open>
  The shared buffer session: the scoped lock on the shared buffer under which every
  operation of the trustlet client runs (\<^verbatim>\<open>EGISAPTrustlet::GetLockedAPI\<close>, declared at
  line 157 of \<^verbatim>\<open>EGISAPTrustlet.h\<close>; its body and the buffer provider are outside the
  sources and are modelled from the design document). The state of the client is the
  shared block, the lock flag and the state of the secure world; the collaborators are
  an interface record \<open>secure_world\<close> over the type variable \<open>'tz\<close> of secure-world states,
  so that the lemmas of the dispatcher hold for every firmware. \<open>GetLockedAPI\<close> hands out
  an \<open>API\<close> over a zeroed block and fails while the lock is held, \<open>ReleaseAPI\<close> is the
  destructor of the \<open>API\<close> object, and \<open>with_session\<close> is the scope of the C++ local
  variable: the release runs on every path of the body, whatever it returns. A call
  made while the lock is held would block; in this sequential model it returns the
  value \<open>busy\<close> given by the caller (\<open>Inl LockHeld\<close> for the operations) and changes
  nothing.

  Errors are values: \<open>error\<close> keeps failures of the transport apart from failures of the
  protocol, and every early return of an operation is a branch of the sum type
  \<open>error + 'a\<close>.
\<close>

section \<open>Errors\<close>

datatype protocol_error =
    WrongCommand u32 u32
  | Rejected u32
  | BadLength u32
  | UnexpectedStatus u32

datatype error =
    LockHeld
  | BufferFault
  | PayloadTooLarge nat
  | TransportError u32
  | ProtocolError protocol_error
  | OrderViolation
  | Exhausted

type_synonym 'a result = "error + 'a"

fun is_transport_error :: "'a result \<Rightarrow> bool" where
  "is_transport_error (Inl (TransportError rc)) = True"
| "is_transport_error _ = False"

fun is_protocol_error :: "'a result \<Rightarrow> bool" where
  "is_protocol_error (Inl (ProtocolError e)) = True"
| "is_protocol_error _ = False"

definition is_ok :: "'a result \<Rightarrow> bool" where
  "is_ok r = (case r of Inl e \<Rightarrow> False | Inr x \<Rightarrow> True)"

definition bind_result :: "'a result \<Rightarrow> ('a \<Rightarrow> 'b result) \<Rightarrow> 'b result" where
  "bind_result r f = (case r of Inl e \<Rightarrow> Inl e | Inr x \<Rightarrow> f x)"

section \<open>Collaborators and client state\<close>

record 'tz secure_world =
  process_id_of :: u32
  invoke :: "bytes \<Rightarrow> 'tz \<Rightarrow> u32 \<times> bytes \<times> 'tz"
  invoke_modified :: "bytes \<Rightarrow> bytes \<Rightarrow> 'tz \<Rightarrow> u32 \<times> (bytes \<times> bytes) \<times> 'tz"

record 'tz trustlet =
  mBuffer :: bytes
  mLocked :: bool
  mSecure :: 'tz

type_synonym ('tz, 'r) session_body = "API \<Rightarrow> 'tz \<Rightarrow> 'r \<times> API \<times> 'tz"

definition world_ok :: "'tz secure_world \<Rightarrow> bool" where
  "world_ok w \<longleftrightarrow>
     (\<forall>buf s. length (fst (snd (invoke w buf s))) = length buf) \<and>
     (\<forall>buf ex s. length (fst (fst (snd (invoke_modified w buf ex s)))) = length buf \<and>
                 length (snd (fst (snd (invoke_modified w buf ex s)))) = length ex)"

definition trustlet_ok :: "'tz trustlet \<Rightarrow> bool" where
  "trustlet_ok t \<longleftrightarrow> \<not> mLocked t \<and> BufferSize \<le> length (mBuffer t)"

definition new_trustlet :: "nat \<Rightarrow> 'tz \<Rightarrow> 'tz trustlet" where
  "new_trustlet n s = \<lparr>mBuffer = replicate n 0, mLocked = False, mSecure = s\<rparr>"

section \<open>Acquire, release and the scope of a session\<close>

definition fresh_api :: "'tz trustlet \<Rightarrow> API" where
  "fresh_api t = \<lparr>mLockedBuffer = replicate (length (mBuffer t)) 0\<rparr>"

definition GetLockedAPI :: "'tz trustlet \<Rightarrow> (API \<times> 'tz trustlet) option" where
  "GetLockedAPI t =
     (if mLocked t then None
      else Some (fresh_api t, t\<lparr>mLocked := True\<rparr>))"

definition ReleaseAPI :: "API \<Rightarrow> 'tz trustlet \<Rightarrow> 'tz trustlet" where
  "ReleaseAPI api t = t\<lparr>mBuffer := mLockedBuffer api, mLocked := False\<rparr>"

definition with_session ::
  "'tz trustlet \<Rightarrow> 'r \<Rightarrow> ('tz, 'r) session_body \<Rightarrow> 'r \<times> 'tz trustlet" where
  "with_session t busy f =
     (case GetLockedAPI t of
        None \<Rightarrow> (busy, t)
      | Some (api, t') \<Rightarrow>
          (case f api (mSecure t') of
             (r, api', s') \<Rightarrow> (r, ReleaseAPI api' (t'\<lparr>mSecure := s'\<rparr>))))"

definition keeps_length :: "('tz, 'r) session_body \<Rightarrow> bool" where
  "keeps_length f \<longleftrightarrow>
     (\<forall>api s. length (mLockedBuffer (fst (snd (f api s)))) = length (mLockedBuffer api))"

lemmas session_defs [wire_defs] =
  GetLockedAPI_def ReleaseAPI_def with_session_def new_trustlet_def trustlet_ok_def
  fresh_api_def

section \<open>Results\<close>

lemma is_ok_simps [simp]: "is_ok (Inr x)" "\<not> is_ok (Inl e)"
  by (simp_all add: is_ok_def)

lemma is_ok_iff: "is_ok r \<longleftrightarrow> (\<exists>x. r = Inr x)"
  by (cases r) simp_all

lemma is_transport_error_iff: "is_transport_error r \<longleftrightarrow> (\<exists>rc. r = Inl (TransportError rc))"
  by (cases r rule: is_transport_error.cases) simp_all

lemma is_protocol_error_iff: "is_protocol_error r \<longleftrightarrow> (\<exists>e. r = Inl (ProtocolError e))"
  by (cases r rule: is_protocol_error.cases) simp_all

lemma error_kinds_exclusive:
  "\<not> (is_transport_error r \<and> is_protocol_error r)"
  "\<not> (is_ok r \<and> is_transport_error r)" "\<not> (is_ok r \<and> is_protocol_error r)"
  by (auto simp: is_transport_error_iff is_protocol_error_iff is_ok_iff)

lemma bind_result_simps [simp]:
  "bind_result (Inl e) f = Inl e" "bind_result (Inr x) f = f x"
  by (simp_all add: bind_result_def)

lemma bind_result_Inr_iff:
  "bind_result r f = Inr y \<longleftrightarrow> (\<exists>x. r = Inr x \<and> f x = Inr y)"
  by (cases r) simp_all

lemma bind_result_assoc:
  "bind_result (bind_result r f) g = bind_result r (\<lambda>x. bind_result (f x) g)"
  by (cases r) simp_all

section \<open>The lock\<close>

lemma API_update_eq [simp]: "api\<lparr>mLockedBuffer := buf\<rparr> = \<lparr>mLockedBuffer = buf\<rparr>"
  by (cases api) simp

lemma API_eta [simp]: "\<lparr>mLockedBuffer = mLockedBuffer api\<rparr> = api"
  by (cases api) simp

lemma API_eq_iff: "(api :: API) = api' \<longleftrightarrow> mLockedBuffer api = mLockedBuffer api'"
  by (cases api, cases api') simp

lemma GetLockedAPI_Some_iff:
  "GetLockedAPI t = Some (api, t') \<longleftrightarrow>
     \<not> mLocked t \<and> api = fresh_api t \<and>
     t' = t\<lparr>mLocked := True\<rparr>"
  by (auto simp: GetLockedAPI_def)

lemma GetLockedAPI_None_iff [simp]: "GetLockedAPI t = None \<longleftrightarrow> mLocked t"
  by (simp add: GetLockedAPI_def)

lemma GetLockedAPI_twice:
  "GetLockedAPI t = Some (api, t') \<Longrightarrow> GetLockedAPI t' = None"
  by (auto simp: GetLockedAPI_def split: if_splits)

lemma GetLockedAPI_api_ok:
  "GetLockedAPI t = Some (api, t') \<Longrightarrow> api_ok api \<longleftrightarrow> BufferSize \<le> length (mBuffer t)"
  by (auto simp: GetLockedAPI_def api_ok_def fresh_api_def split: if_splits)

lemma ReleaseAPI_simps [simp]:
  "mLocked (ReleaseAPI api t) = False" "mBuffer (ReleaseAPI api t) = mLockedBuffer api"
  "mSecure (ReleaseAPI api t) = mSecure t"
  by (simp_all add: ReleaseAPI_def)

lemma GetLockedAPI_ReleaseAPI:
  "GetLockedAPI (ReleaseAPI api t) =
     Some (\<lparr>mLockedBuffer = replicate (length (mLockedBuffer api)) 0\<rparr>,
           (ReleaseAPI api t)\<lparr>mLocked := True\<rparr>)"
  by (simp add: GetLockedAPI_def fresh_api_def)

lemma length_fresh_api [simp]: "length (mLockedBuffer (fresh_api t)) = length (mBuffer t)"
  by (simp add: fresh_api_def)

lemma api_ok_fresh_api [simp]: "api_ok (fresh_api t) \<longleftrightarrow> BufferSize \<le> length (mBuffer t)"
  by (simp add: api_ok_def)

lemma with_session_locked: "mLocked t \<Longrightarrow> with_session t busy f = (busy, t)"
  by (simp add: with_session_def GetLockedAPI_def)

lemma with_session_unlocked:
  assumes "\<not> mLocked t"
    and "f (fresh_api t) (mSecure t) = (r, api', s')"
  shows "with_session t busy f = (r, \<lparr>mBuffer = mLockedBuffer api', mLocked = False, mSecure = s'\<rparr>)"
  using assms by (simp add: with_session_def GetLockedAPI_def ReleaseAPI_def)

lemma with_session_cases:
  obtains "mLocked t" "with_session t busy f = (busy, t)"
  | r api' s' where "\<not> mLocked t"
      "f (fresh_api t) (mSecure t) = (r, api', s')"
      "with_session t busy f = (r, \<lparr>mBuffer = mLockedBuffer api', mLocked = False, mSecure = s'\<rparr>)"
proof (cases "mLocked t")
  case True
  then show ?thesis using that(1) by (simp add: with_session_locked)
next
  case False
  show ?thesis
  proof (cases "f (fresh_api t) (mSecure t)")
    case (fields r api' s')
    with False show ?thesis using that(2) [of r api' s'] by (simp add: with_session_unlocked)
  qed
qed

lemma with_session_released: "\<not> mLocked t \<Longrightarrow> \<not> mLocked (snd (with_session t busy f))"
  by (cases rule: with_session_cases [of t busy f]) simp_all

lemma with_session_lock_unchanged: "mLocked (snd (with_session t busy f)) = mLocked t"
  by (cases rule: with_session_cases [of t busy f]) simp_all

lemma with_session_length:
  assumes "keeps_length f"
  shows "length (mBuffer (snd (with_session t busy f))) = length (mBuffer t)"
proof (cases rule: with_session_cases [of t busy f])
  case 1
  then show ?thesis by simp
next
  case (2 r api' s')
  from assms have "length (mLockedBuffer (fst (snd (f (fresh_api t) (mSecure t)))))
      = length (mBuffer t)"
    by (simp add: keeps_length_def fresh_api_def)
  with 2(2) have "length (mLockedBuffer api') = length (mBuffer t)" by simp
  with 2(3) show ?thesis by simp
qed

lemma with_session_ok:
  "trustlet_ok t \<Longrightarrow> keeps_length f \<Longrightarrow> trustlet_ok (snd (with_session t busy f))"
  by (simp add: trustlet_ok_def with_session_length with_session_released)

lemma trustlet_ok_new [simp]: "trustlet_ok (new_trustlet n s) \<longleftrightarrow> BufferSize \<le> n"
  by (simp add: trustlet_ok_def new_trustlet_def)

lemma new_trustlet_simps [simp]:
  "mBuffer (new_trustlet n s) = replicate n 0" "mLocked (new_trustlet n s) = False"
  "mSecure (new_trustlet n s) = s"
  by (simp_all add: new_trustlet_def)

section \<open>Properties\<close>

text \<open>
  C10: the scope of a session. Started on an unlocked client, a session runs its body
  once on an \<open>API\<close> over a zeroed block of the size of the shared buffer and on the
  current secure-world state; whatever the body returns (a result or an error), the
  session returns it, stores the block the body left and the new secure-world state, and
  ends with the lock released, so that the next session can be opened.
\<close>

theorem session_scope:
  assumes "\<not> mLocked t"
  shows "\<exists>r api' s'. f (fresh_api t) (mSecure t) = (r, api', s')
    \<and> mLockedBuffer (fresh_api t) = replicate (length (mBuffer t)) 0
    \<and> with_session t busy f = (r, \<lparr>mBuffer = mLockedBuffer api', mLocked = False, mSecure = s'\<rparr>)
    \<and> GetLockedAPI (snd (with_session t busy f)) \<noteq> None"
proof (cases rule: with_session_cases [of t busy f])
  case 1
  with assms show ?thesis by simp
next
  case (2 r api' s')
  then show ?thesis by (auto simp: fresh_api_def)
qed

theorem session_scope_witness:
  "\<not> mLocked (new_trustlet 0x70 (0 :: nat))
    \<and> with_session (new_trustlet 0x70 (0 :: nat)) (Inl LockHeld)
        (\<lambda>api s. (Inl BufferFault :: unit result, api, Suc s))
      = (Inl BufferFault, \<lparr>mBuffer = replicate 0x70 0, mLocked = False, mSecure = 1\<rparr>)"
  using session_scope [of "new_trustlet 0x70 (0 :: nat)"
      "\<lambda>api s. (Inl BufferFault :: unit result, api, Suc s)" "Inl LockHeld"]
  by (auto simp: fresh_api_def)

text \<open>
  C16: the lock is exclusive. While an \<open>API\<close> handed out by \<open>GetLockedAPI\<close> is alive the
  lock is held: a second acquisition fails, and a session started in that state runs no
  body and changes nothing. Releasing the \<open>API\<close> stores its block as the shared buffer
  and makes the next acquisition succeed, on a zeroed block of the same size.
\<close>

theorem lock_exclusive:
  assumes "GetLockedAPI t = Some (api, t')"
  shows "mLocked t' \<and> GetLockedAPI t' = None \<and> with_session t' busy f = (busy, t')
    \<and> mBuffer (ReleaseAPI api' t') = mLockedBuffer api'
    \<and> GetLockedAPI (ReleaseAPI api' t') =
        Some (\<lparr>mLockedBuffer = replicate (length (mLockedBuffer api')) 0\<rparr>,
              (ReleaseAPI api' t')\<lparr>mLocked := True\<rparr>)"
proof -
  from assms have "mLocked t'" by (auto simp: GetLockedAPI_Some_iff)
  then show ?thesis by (simp add: with_session_locked GetLockedAPI_ReleaseAPI)
qed

theorem lock_exclusive_witness:
  "GetLockedAPI (new_trustlet 0x70 (0 :: nat))
      = Some (api_zero, (new_trustlet 0x70 0)\<lparr>mLocked := True\<rparr>)
    \<and> GetLockedAPI ((new_trustlet 0x70 (0 :: nat))\<lparr>mLocked := True\<rparr>) = None
    \<and> mBuffer (ReleaseAPI api_example ((new_trustlet 0x70 (0 :: nat))\<lparr>mLocked := True\<rparr>))
      = mLockedBuffer api_example"
  using lock_exclusive [of "new_trustlet 0x70 (0 :: nat)" api_zero
      "(new_trustlet 0x70 0)\<lparr>mLocked := True\<rparr>" "()" "\<lambda>api s. ((), api, s)" api_example]
  by (simp add: GetLockedAPI_def fresh_api_def api_zero_def)

end
