(* ===== verification/Dispatcher.thy ===== *)
theory Dispatcher
  imports Session
begin

text \<open>
  The command dispatcher: the three call shapes of \<^verbatim>\<open>EGISAPTrustlet\<close> declared at lines
  149--156 of \<^verbatim>\<open>EGISAPTrustlet.h\<close> (\<^verbatim>\<open>SendCommand\<close>, \<^verbatim>\<open>SendModifiedCommand\<close>,
  \<^verbatim>\<open>SendDataCommand\<close>, each with an overload working on a locked \<open>API\<close> and one that
  opens its own session). Their bodies are outside the sources; they are modelled from
  the design document on top of the operations of \<open>Buffer_API\<close>: a shape fills the
  request header through \<open>GetRequest\<close>, clears the envelope with \<open>PrepareBase\<close>, calls
  the secure world once, and classifies what came back. The overloads are told apart by
  a suffix: \<open>_api\<close> takes the locked buffer as it is, \<open>_id\<close> writes command and group
  first, and the plain name opens the session.

  The classification \<open>classify\<close> is the validation policy: a non-zero status of the
  transport is a transport error whatever the block holds; with status zero, a non-zero
  \<open>ret_val\<close> of the envelope, an echoed command other than the issued one, or a payload
  length that does not fit the block is a protocol error; everything else is the decoded
  response header with its payload.
\<close>

section \<open>Filling the request\<close>

type_synonym response = "trustlet_buffer_t \<times> bytes"

definition set_request_command :: "CommandId \<Rightarrow> u32 \<Rightarrow> nat \<Rightarrow> API \<Rightarrow> API option" where
  "set_request_command c g n api =
     (case GetRequest api of
        None \<Rightarrow> None
      | Some q \<Rightarrow>
          SetRequest (q\<lparr>command := CommandId_val c, gid := g, buffer_size := of_nat n\<rparr>) api)"

definition set_extra_buffer_size :: "nat \<Rightarrow> API \<Rightarrow> API option" where
  "set_extra_buffer_size n api =
     (case Base api of
        None \<Rightarrow> None
      | Some b \<Rightarrow> SetBase (b\<lparr>extra_buffer_size := of_nat n\<rparr>) api)"

definition request_capacity :: "API \<Rightarrow> nat" where
  "request_capacity api = length (mLockedBuffer api) - BufferSize"

section \<open>Validation\<close>

definition status_of :: "u32 \<Rightarrow> unit result" where
  "status_of rc = (if rc = 0 then Inr () else Inl (TransportError rc))"

definition check_ret_val :: "API \<Rightarrow> unit result" where
  "check_ret_val api =
     (case Base api of
        None \<Rightarrow> Inl BufferFault
      | Some b \<Rightarrow> if ret_val b = 0 then Inr () else Inl (ProtocolError (Rejected (ret_val b))))"

definition decode_response :: "CommandId \<Rightarrow> API \<Rightarrow> response result" where
  "decode_response c api =
     (case GetResponse api of
        None \<Rightarrow> Inl BufferFault
      | Some r \<Rightarrow>
          if command r \<noteq> CommandId_val c
          then Inl (ProtocolError (WrongCommand (CommandId_val c) (command r)))
          else (case ResponseData api (unat (buffer_size r)) of
                  None \<Rightarrow> Inl (ProtocolError (BadLength (buffer_size r)))
                | Some d \<Rightarrow> Inr (r, d)))"

definition classify :: "CommandId \<Rightarrow> u32 \<Rightarrow> API \<Rightarrow> response result" where
  "classify c rc api =
     bind_result (status_of rc)
       (\<lambda>_. bind_result (check_ret_val api) (\<lambda>_. decode_response c api))"

section \<open>Plain commands\<close>

definition transact :: "'tz secure_world \<Rightarrow> ('tz, u32) session_body" where
  "transact w api s =
     (case invoke w (mLockedBuffer api) s of
        (rc, buf, s') \<Rightarrow> (rc, api\<lparr>mLockedBuffer := buf\<rparr>, s'))"

definition SendCommand_api :: "'tz secure_world \<Rightarrow> ('tz, unit result) session_body" where
  "SendCommand_api w api s =
     (case PrepareBase (process_id_of w) api of
        None \<Rightarrow> (Inl BufferFault, api, s)
      | Some api1 \<Rightarrow>
          (case transact w api1 s of
             (rc, api2, s') \<Rightarrow>
               (bind_result (status_of rc) (\<lambda>_. check_ret_val api2), api2, s')))"

definition send_and_decode ::
  "'tz secure_world \<Rightarrow> CommandId \<Rightarrow> ('tz, response result) session_body" where
  "send_and_decode w c api s =
     (case SendCommand_api w api s of
        (r, api', s') \<Rightarrow> (bind_result r (\<lambda>_. decode_response c api'), api', s'))"

definition SendCommand_id ::
  "'tz secure_world \<Rightarrow> CommandId \<Rightarrow> u32 \<Rightarrow> ('tz, response result) session_body" where
  "SendCommand_id w c g api s =
     (case set_request_command c g 0 api of
        None \<Rightarrow> (Inl BufferFault, api, s)
      | Some api1 \<Rightarrow> send_and_decode w c api1 s)"

definition SendCommand ::
  "'tz secure_world \<Rightarrow> CommandId \<Rightarrow> u32 \<Rightarrow> 'tz trustlet \<Rightarrow>
     response result \<times> 'tz trustlet" where
  "SendCommand w c g t = with_session t (Inl LockHeld) (SendCommand_id w c g)"

section \<open>Data commands\<close>

definition SendDataCommand_api ::
  "'tz secure_world \<Rightarrow> CommandId \<Rightarrow> bytes \<Rightarrow> u32 \<Rightarrow> ('tz, response result) session_body" where
  "SendDataCommand_api w c d g api s =
     (if request_capacity api < length d then (Inl (PayloadTooLarge (length d)), api, s)
      else
        (case set_request_command c g (length d) api of
           None \<Rightarrow> (Inl BufferFault, api, s)
         | Some api1 \<Rightarrow>
             (case SetRequestData d api1 of
                None \<Rightarrow> (Inl BufferFault, api, s)
              | Some api2 \<Rightarrow> send_and_decode w c api2 s)))"

definition SendDataCommand ::
  "'tz secure_world \<Rightarrow> CommandId \<Rightarrow> bytes \<Rightarrow> u32 \<Rightarrow> 'tz trustlet \<Rightarrow>
     response result \<times> 'tz trustlet" where
  "SendDataCommand w c d g t = with_session t (Inl LockHeld) (SendDataCommand_api w c d g)"

section \<open>Modified-buffer commands\<close>

definition transact_modified ::
  "'tz secure_world \<Rightarrow> bytes \<Rightarrow> ('tz, u32 \<times> bytes) session_body" where
  "transact_modified w ex api s =
     (case invoke_modified w (mLockedBuffer api) ex s of
        (rc, (buf, ex'), s') \<Rightarrow> ((rc, ex'), api\<lparr>mLockedBuffer := buf\<rparr>, s'))"

definition SendModifiedCommand_api ::
  "'tz secure_world \<Rightarrow> bytes \<Rightarrow> ('tz, unit result \<times> bytes) session_body" where
  "SendModifiedCommand_api w ex api s =
     (case PrepareBase (process_id_of w) api of
        None \<Rightarrow> ((Inl BufferFault, ex), api, s)
      | Some api1 \<Rightarrow>
          (case set_extra_buffer_size (length ex) api1 of
             None \<Rightarrow> ((Inl BufferFault, ex), api, s)
           | Some api2 \<Rightarrow>
               (case transact_modified w ex api2 s of
                  ((rc, ex'), api3, s') \<Rightarrow>
                    ((bind_result (status_of rc) (\<lambda>_. check_ret_val api3), ex'), api3, s'))))"

definition SendModifiedCommand_id ::
  "'tz secure_world \<Rightarrow> bytes \<Rightarrow> CommandId \<Rightarrow> u32 \<Rightarrow>
     ('tz, response result \<times> bytes) session_body" where
  "SendModifiedCommand_id w ex c g api s =
     (case set_request_command c g 0 api of
        None \<Rightarrow> ((Inl BufferFault, ex), api, s)
      | Some api1 \<Rightarrow>
          (case SendModifiedCommand_api w ex api1 s of
             ((r, ex'), api', s') \<Rightarrow>
               ((bind_result r (\<lambda>_. decode_response c api'), ex'), api', s')))"

definition SendModifiedCommand ::
  "'tz secure_world \<Rightarrow> bytes \<Rightarrow> CommandId \<Rightarrow> u32 \<Rightarrow> 'tz trustlet \<Rightarrow>
     (response result \<times> bytes) \<times> 'tz trustlet" where
  "SendModifiedCommand w ex c g t =
     with_session t (Inl LockHeld, ex) (SendModifiedCommand_id w ex c g)"

section \<open>What the secure world is handed, and what comes back\<close>

definition plain_request :: "u32 \<Rightarrow> CommandId \<Rightarrow> u32 \<Rightarrow> API \<Rightarrow> API option" where
  "plain_request pid c g api = Option.bind (set_request_command c g 0 api) (PrepareBase pid)"

definition data_request ::
  "u32 \<Rightarrow> CommandId \<Rightarrow> bytes \<Rightarrow> u32 \<Rightarrow> API \<Rightarrow> API option" where
  "data_request pid c d g api =
     Option.bind (Option.bind (set_request_command c g (length d) api) (SetRequestData d))
       (PrepareBase pid)"

definition modified_request ::
  "u32 \<Rightarrow> nat \<Rightarrow> CommandId \<Rightarrow> u32 \<Rightarrow> API \<Rightarrow> API option" where
  "modified_request pid n c g api =
     Option.bind (plain_request pid c g api) (set_extra_buffer_size n)"

definition exchange ::
  "'tz secure_world \<Rightarrow> CommandId \<Rightarrow> ('tz, response result) session_body" where
  "exchange w c api s =
     (case transact w api s of (rc, api', s') \<Rightarrow> (classify c rc api', api', s'))"

definition exchange_modified ::
  "'tz secure_world \<Rightarrow> bytes \<Rightarrow> CommandId \<Rightarrow> ('tz, response result \<times> bytes) session_body" where
  "exchange_modified w ex c api s =
     (case transact_modified w ex api s of
        ((rc, ex'), api', s') \<Rightarrow> ((classify c rc api', ex'), api', s'))"

section \<open>Replies of a secure world\<close>

definition fw_reply :: "u32 \<Rightarrow> trustlet_buffer_t \<Rightarrow> bytes \<Rightarrow> API \<Rightarrow> API option" where
  "fw_reply rv r d api =
     Option.bind (with_buffer api (write_u32 (mLockedBuffer api) 0x10 rv))
       (\<lambda>a1. Option.bind (SetResponse (r\<lparr>buffer_size := of_nat (length d)\<rparr>) a1)
          (SetResponseData d))"

section \<open>Example worlds\<close>

definition hdr_zero :: trustlet_buffer_t where
  "hdr_zero = \<lparr>process = 0, command = 0, gid = 0, fid = 0, buffer_size = 0\<rparr>"

definition echo_reply :: "bytes \<Rightarrow> bytes" where
  "echo_reply buf =
     (case Option.bind (GetRequest \<lparr>mLockedBuffer = buf\<rparr>)
             (\<lambda>q. fw_reply 0 q [] \<lparr>mLockedBuffer = buf\<rparr>) of
        None \<Rightarrow> buf
      | Some a \<Rightarrow> mLockedBuffer a)"

definition echo_world :: "nat secure_world" where
  "echo_world =
     \<lparr>process_id_of = 0xe0,
      invoke = (\<lambda>buf n. (0, echo_reply buf, Suc n)),
      invoke_modified = (\<lambda>buf ex n. (0, (echo_reply buf, ex), Suc n))\<rparr>"

definition failing_world :: "u32 \<Rightarrow> nat secure_world" where
  "failing_world rc =
     \<lparr>process_id_of = 0xe0,
      invoke = (\<lambda>buf n. (rc, buf, Suc n)),
      invoke_modified = (\<lambda>buf ex n. (rc, (buf, ex), Suc n))\<rparr>"

lemmas dispatcher_defs [wire_defs] =
  set_request_command_def set_extra_buffer_size_def request_capacity_def status_of_def
  check_ret_val_def decode_response_def classify_def transact_def SendCommand_api_def
  send_and_decode_def SendCommand_id_def SendCommand_def SendDataCommand_api_def
  SendDataCommand_def transact_modified_def SendModifiedCommand_api_def
  SendModifiedCommand_id_def SendModifiedCommand_def

section \<open>Lemmas: filling the request\<close>

lemma set_request_command_defined_iff:
  "(\<exists>api'. set_request_command c g n api = Some api') \<longleftrightarrow> api_ok api"
  using GetRequest_defined_iff [of api] SetRequest_defined_iff [of _ api]
  by (auto simp: set_request_command_def split: option.splits)

lemma set_request_command_length:
  "set_request_command c g n api = Some api' \<Longrightarrow>
     length (mLockedBuffer api') = length (mLockedBuffer api)"
  by (auto simp: set_request_command_def dest: SetRequest_length split: option.splits)

lemma GetRequest_set_request_command:
  assumes "set_request_command c g n api = Some api'" and "GetRequest api = Some q"
  shows "GetRequest api' =
    Some (q\<lparr>command := CommandId_val c, gid := g, buffer_size := of_nat n\<rparr>)"
  using assms by (auto simp: set_request_command_def dest: GetRequest_SetRequest)

lemma set_request_command_frame:
  assumes "set_request_command c g n api = Some api'"
    and "separate RequestOffset sizeof_trustlet_buffer_t off m"
  shows "read_bytes (mLockedBuffer api') off m = read_bytes (mLockedBuffer api) off m"
  using assms by (auto simp: set_request_command_def dest: SetRequest_frame split: option.splits)

lemma set_extra_buffer_size_defined_iff:
  "(\<exists>api'. set_extra_buffer_size n api = Some api') \<longleftrightarrow> 0x20 \<le> length (mLockedBuffer api)"
  using Base_defined_iff [of api] SetBase_defined_iff [of _ api]
  by (auto simp: set_extra_buffer_size_def split: option.splits)

lemma set_extra_buffer_size_length:
  "set_extra_buffer_size n api = Some api' \<Longrightarrow>
     length (mLockedBuffer api') = length (mLockedBuffer api)"
  by (auto simp: set_extra_buffer_size_def dest: SetBase_length split: option.splits)

lemma Base_set_extra_buffer_size:
  assumes "set_extra_buffer_size n api = Some api'" and "Base api = Some b"
  shows "Base api' = Some (b\<lparr>extra_buffer_size := of_nat n\<rparr>)"
  using assms by (auto simp: set_extra_buffer_size_def dest: Base_SetBase)

lemma GetRequest_set_extra_buffer_size:
  "set_extra_buffer_size n api = Some api' \<Longrightarrow> GetRequest api' = GetRequest api"
  by (auto simp: set_extra_buffer_size_def dest: GetRequest_SetBase split: option.splits)

section \<open>Lemmas: validation\<close>

lemma status_of_simps [simp]:
  "status_of 0 = Inr ()" "rc \<noteq> 0 \<Longrightarrow> status_of rc = Inl (TransportError rc)"
  by (simp_all add: status_of_def)

lemma classify_transport [simp]: "rc \<noteq> 0 \<Longrightarrow> classify c rc api = Inl (TransportError rc)"
  by (simp add: classify_def)

lemma classify_zero:
  "classify c 0 api = bind_result (check_ret_val api) (\<lambda>_. decode_response c api)"
  by (simp add: classify_def)

lemma check_ret_val_cases:
  assumes "Base api = Some b"
  shows "check_ret_val api =
    (if ret_val b = 0 then Inr () else Inl (ProtocolError (Rejected (ret_val b))))"
  using assms by (simp add: check_ret_val_def)

lemma decode_response_not_transport: "\<not> is_transport_error (decode_response c api)"
  by (simp add: decode_response_def split: option.splits)

lemma check_ret_val_not_transport: "\<not> is_transport_error (check_ret_val api)"
  by (simp add: check_ret_val_def split: option.splits)

lemma classify_transport_iff:
  "classify c rc api = Inl (TransportError rc') \<longleftrightarrow> rc \<noteq> 0 \<and> rc' = rc"
proof (cases "rc = 0")
  case True
  have "\<not> is_transport_error (classify c 0 api)"
    using check_ret_val_not_transport [of api] decode_response_not_transport [of c api]
    by (cases "check_ret_val api") (auto simp: classify_zero is_transport_error_iff)
  with True show ?thesis by (auto simp: is_transport_error_iff)
next
  case False
  then show ?thesis by auto
qed

lemma classify_ok_iff:
  assumes "Base api = Some b" and "GetResponse api = Some r"
  shows "classify c rc api = Inr (h, d) \<longleftrightarrow>
     rc = 0 \<and> ret_val b = 0 \<and> h = r \<and> command r = CommandId_val c \<and>
     ResponseData api (unat (buffer_size r)) = Some d"
  using assms
  by (cases "rc = 0")
    (auto simp: classify_zero check_ret_val_def decode_response_def split: option.splits)

lemma classify_protocol_iff:
  assumes "Base api = Some b" and "GetResponse api = Some r"
  shows "is_protocol_error (classify c rc api) \<longleftrightarrow>
     rc = 0 \<and> (ret_val b \<noteq> 0 \<or> command r \<noteq> CommandId_val c \<or>
       ResponseData api (unat (buffer_size r)) = None)"
  using assms
  by (cases "rc = 0")
    (auto simp: classify_zero check_ret_val_def decode_response_def split: option.splits)

section \<open>Lemmas: the request builders\<close>

lemma api_ok_set_request_command:
  "set_request_command c g n api = Some api' \<Longrightarrow> api_ok api \<and> api_ok api'"
  using set_request_command_defined_iff [of c g n api]
  by (auto simp: api_ok_def dest: set_request_command_length)

lemma PrepareBase_defined: "api_ok api \<Longrightarrow> \<exists>api'. PrepareBase pid api = Some api'"
  using PrepareBase_defined_iff [of pid api] by (auto dest: api_ok_imp_lengths)

lemma api_ok_PrepareBase: "PrepareBase pid api = Some api' \<Longrightarrow> api_ok api' = api_ok api"
  by (auto simp: api_ok_def dest: PrepareBase_length)

lemma plain_request_defined_iff:
  "(\<exists>a. plain_request pid c g api = Some a) \<longleftrightarrow> api_ok api"
proof
  assume "\<exists>a. plain_request pid c g api = Some a"
  then show "api_ok api"
    by (auto simp: plain_request_def bind_eq_Some_conv dest: api_ok_set_request_command)
next
  assume "api_ok api"
  then obtain a1 where 1: "set_request_command c g 0 api = Some a1"
    using set_request_command_defined_iff by blast
  then obtain a where "PrepareBase pid a1 = Some a"
    using PrepareBase_defined api_ok_set_request_command by blast
  with 1 show "\<exists>a. plain_request pid c g api = Some a" by (simp add: plain_request_def)
qed

lemma plain_request_views:
  assumes "plain_request pid c g api = Some a" and "GetRequest api = Some q"
  shows "GetRequest a = Some (q\<lparr>command := CommandId_val c, gid := g, buffer_size := 0\<rparr>)"
    and "Base a = Some (base_zero\<lparr>process_id := pid\<rparr>)"
    and "length (mLockedBuffer a) = length (mLockedBuffer api)"
proof -
  from assms(1) obtain a1 where 1: "set_request_command c g 0 api = Some a1"
    and 2: "PrepareBase pid a1 = Some a"
    by (auto simp: plain_request_def bind_eq_Some_conv)
  show "GetRequest a = Some (q\<lparr>command := CommandId_val c, gid := g, buffer_size := 0\<rparr>)"
    using GetRequest_PrepareBase [OF 2] GetRequest_set_request_command [OF 1 assms(2)] by simp
  show "Base a = Some (base_zero\<lparr>process_id := pid\<rparr>)" using 2 by (rule Base_PrepareBase)
  show "length (mLockedBuffer a) = length (mLockedBuffer api)"
    using set_request_command_length [OF 1] PrepareBase_length [OF 2] by simp
qed

lemma plain_request_length:
  "plain_request pid c g api = Some a \<Longrightarrow>
     length (mLockedBuffer a) = length (mLockedBuffer api)"
  by (auto simp: plain_request_def bind_eq_Some_conv
      dest!: set_request_command_length PrepareBase_length)

lemma plain_request_frame:
  assumes "plain_request pid c g api = Some a" and "32 \<le> off"
    and "separate RequestOffset sizeof_trustlet_buffer_t off n"
  shows "read_bytes (mLockedBuffer a) off n = read_bytes (mLockedBuffer api) off n"
proof -
  from assms(1) obtain a1 where 1: "set_request_command c g 0 api = Some a1"
    and 2: "PrepareBase pid a1 = Some a"
    by (auto simp: plain_request_def bind_eq_Some_conv)
  show ?thesis
    using PrepareBase_frame [OF 2 assms(2)] set_request_command_frame [OF 1 assms(3)] by simp
qed

lemma data_request_defined_iff:
  "(\<exists>a. data_request pid c d g api = Some a) \<longleftrightarrow>
     api_ok api \<and> length d \<le> request_capacity api"
proof
  assume "\<exists>a. data_request pid c d g api = Some a"
  then obtain a1 a2 where 1: "set_request_command c g (length d) api = Some a1"
    and 2: "SetRequestData d a1 = Some a2"
    by (auto simp: data_request_def bind_eq_Some_conv)
  from 2 have "0x70 + length d \<le> length (mLockedBuffer a1)"
    using SetRequestData_defined_iff [of d a1] by auto
  with 1 show "api_ok api \<and> length d \<le> request_capacity api"
    using api_ok_set_request_command [OF 1] set_request_command_length [OF 1]
    by (simp add: request_capacity_def)
next
  assume a: "api_ok api \<and> length d \<le> request_capacity api"
  then obtain a1 where 1: "set_request_command c g (length d) api = Some a1"
    using set_request_command_defined_iff by blast
  with a have "0x70 + length d \<le> length (mLockedBuffer a1)"
    using set_request_command_length [OF 1] by (auto simp: request_capacity_def api_ok_def)
  then obtain a2 where 2: "SetRequestData d a1 = Some a2"
    using SetRequestData_defined_iff [of d a1] by auto
  have "api_ok a2"
    using api_ok_set_request_command [OF 1] SetRequestData_length [OF 2]
    by (simp add: api_ok_def)
  then obtain a3 where "PrepareBase pid a2 = Some a3" using PrepareBase_defined by blast
  with 1 2 show "\<exists>a. data_request pid c d g api = Some a" by (simp add: data_request_def)
qed

lemma modified_request_defined_iff:
  "(\<exists>a. modified_request pid n c g api = Some a) \<longleftrightarrow> api_ok api"
proof
  assume "\<exists>a. modified_request pid n c g api = Some a"
  then show "api_ok api"
    using plain_request_defined_iff [of pid c g api]
    by (auto simp: modified_request_def bind_eq_Some_conv)
next
  assume "api_ok api"
  then obtain a1 where 1: "plain_request pid c g api = Some a1"
    using plain_request_defined_iff by blast
  with \<open>api_ok api\<close> have "0x20 \<le> length (mLockedBuffer a1)"
    using plain_request_length [OF 1] by (auto simp: api_ok_def)
  then obtain a where "set_extra_buffer_size n a1 = Some a"
    using set_extra_buffer_size_defined_iff by blast
  with 1 show "\<exists>a. modified_request pid n c g api = Some a"
    by (simp add: modified_request_def)
qed

section \<open>Lemmas: every shape is a request builder followed by one exchange\<close>

lemma exchange_eq:
  assumes "invoke w (mLockedBuffer a) s = (rc, buf, s')"
  shows "exchange w c a s =
    (classify c rc (a\<lparr>mLockedBuffer := buf\<rparr>), a\<lparr>mLockedBuffer := buf\<rparr>, s')"
  using assms by (simp add: exchange_def transact_def)

lemma exchange_modified_eq:
  assumes "invoke_modified w (mLockedBuffer a) ex s = (rc, (buf, ex'), s')"
  shows "exchange_modified w ex c a s =
    ((classify c rc (a\<lparr>mLockedBuffer := buf\<rparr>), ex'), a\<lparr>mLockedBuffer := buf\<rparr>, s')"
  using assms by (simp add: exchange_modified_def transact_modified_def)

lemma send_and_decode_eq:
  assumes "PrepareBase (process_id_of w) api = Some a"
  shows "send_and_decode w c api s = exchange w c a s"
  using assms
  by (simp add: send_and_decode_def SendCommand_api_def exchange_def classify_def
      bind_result_assoc split: prod.splits)

lemma SendCommand_id_eq:
  "SendCommand_id w c g api s =
     (case plain_request (process_id_of w) c g api of
        None \<Rightarrow> (Inl BufferFault, api, s)
      | Some a \<Rightarrow> exchange w c a s)"
proof (cases "set_request_command c g 0 api")
  case None
  then show ?thesis by (simp add: SendCommand_id_def plain_request_def)
next
  case (Some a1)
  then obtain a where "PrepareBase (process_id_of w) a1 = Some a"
    using PrepareBase_defined api_ok_set_request_command by blast
  with Some show ?thesis
    by (simp add: SendCommand_id_def plain_request_def send_and_decode_eq)
qed

lemma SendDataCommand_api_eq:
  "SendDataCommand_api w c d g api s =
     (if request_capacity api < length d then (Inl (PayloadTooLarge (length d)), api, s)
      else case data_request (process_id_of w) c d g api of
        None \<Rightarrow> (Inl BufferFault, api, s)
      | Some a \<Rightarrow> exchange w c a s)"
proof (cases "set_request_command c g (length d) api")
  case None
  then show ?thesis by (simp add: SendDataCommand_api_def data_request_def)
next
  case (Some a1)
  show ?thesis
  proof (cases "SetRequestData d a1")
    case None
    with Some show ?thesis by (simp add: SendDataCommand_api_def data_request_def)
  next
    case (Some a2)
    then have "api_ok a2"
      using api_ok_set_request_command [OF \<open>set_request_command c g (length d) api = Some a1\<close>]
        SetRequestData_length [OF Some] by (simp add: api_ok_def)
    then obtain a where "PrepareBase (process_id_of w) a2 = Some a"
      using PrepareBase_defined by blast
    with Some \<open>set_request_command c g (length d) api = Some a1\<close> show ?thesis
      by (simp add: SendDataCommand_api_def data_request_def send_and_decode_eq)
  qed
qed

lemma SendModifiedCommand_api_eq:
  assumes "PrepareBase (process_id_of w) api = Some a1"
    and "set_extra_buffer_size (length ex) a1 = Some a"
  shows "SendModifiedCommand_api w ex api s =
    (case transact_modified w ex a s of
       ((rc, ex'), a', s') \<Rightarrow> ((bind_result (status_of rc) (\<lambda>_. check_ret_val a'), ex'), a', s'))"
  using assms by (simp add: SendModifiedCommand_api_def)

lemma SendModifiedCommand_id_eq:
  "SendModifiedCommand_id w ex c g api s =
     (case modified_request (process_id_of w) (length ex) c g api of
        None \<Rightarrow> ((Inl BufferFault, ex), api, s)
      | Some a \<Rightarrow> exchange_modified w ex c a s)"
proof (cases "set_request_command c g 0 api")
  case None
  then show ?thesis
    by (simp add: SendModifiedCommand_id_def modified_request_def plain_request_def)
next
  case (Some a1)
  then have "api_ok api" by (auto dest: api_ok_set_request_command)
  then obtain a where m: "modified_request (process_id_of w) (length ex) c g api = Some a"
    using modified_request_defined_iff by blast
  then obtain a2 where 2: "PrepareBase (process_id_of w) a1 = Some a2"
    and 3: "set_extra_buffer_size (length ex) a2 = Some a"
    using Some by (auto simp: modified_request_def plain_request_def bind_eq_Some_conv)
  show ?thesis
    using Some m SendModifiedCommand_api_eq [OF 2 3, of s]
    by (simp add: SendModifiedCommand_id_def exchange_modified_def classify_def
        bind_result_assoc split: prod.splits)
qed

section \<open>Lemmas: the block keeps its length\<close>

lemma exchange_length:
  assumes "world_ok w"
  shows "length (mLockedBuffer (fst (snd (exchange w c a s)))) = length (mLockedBuffer a)"
proof -
  obtain rc buf s' where i: "invoke w (mLockedBuffer a) s = (rc, buf, s')"
    by (cases "invoke w (mLockedBuffer a) s") auto
  from assms have "length (fst (snd (invoke w (mLockedBuffer a) s))) = length (mLockedBuffer a)"
    by (simp add: world_ok_def)
  with i show ?thesis by (simp add: exchange_eq [OF i])
qed

lemma exchange_modified_length:
  assumes "world_ok w"
  shows "length (mLockedBuffer (fst (snd (exchange_modified w ex c a s)))) = length (mLockedBuffer a)"
    and "length (snd (fst (exchange_modified w ex c a s))) = length ex"
proof -
  obtain rc buf ex' s' where i: "invoke_modified w (mLockedBuffer a) ex s = (rc, (buf, ex'), s')"
    by (cases "invoke_modified w (mLockedBuffer a) ex s") auto
  from assms have "length (fst (fst (snd (invoke_modified w (mLockedBuffer a) ex s))))
      = length (mLockedBuffer a)"
    and "length (snd (fst (snd (invoke_modified w (mLockedBuffer a) ex s)))) = length ex"
    by (simp_all add: world_ok_def)
  with i show "length (mLockedBuffer (fst (snd (exchange_modified w ex c a s))))
      = length (mLockedBuffer a)"
    and "length (snd (fst (exchange_modified w ex c a s))) = length ex"
    by (simp_all add: exchange_modified_eq [OF i])
qed

lemma data_request_length:
  "data_request pid c d g api = Some a \<Longrightarrow>
     length (mLockedBuffer a) = length (mLockedBuffer api)"
  by (auto simp: data_request_def bind_eq_Some_conv
      dest!: set_request_command_length SetRequestData_length PrepareBase_length)

lemma modified_request_length:
  "modified_request pid n c g api = Some a \<Longrightarrow>
     length (mLockedBuffer a) = length (mLockedBuffer api)"
  by (auto simp: modified_request_def bind_eq_Some_conv
      dest!: plain_request_length set_extra_buffer_size_length)

lemma keeps_length_SendCommand_id: "world_ok w \<Longrightarrow> keeps_length (SendCommand_id w c g)"
  by (auto simp: keeps_length_def SendCommand_id_eq exchange_length
      dest: plain_request_length split: option.splits)

lemma keeps_length_SendDataCommand_api:
  "world_ok w \<Longrightarrow> keeps_length (SendDataCommand_api w c d g)"
  by (auto simp: keeps_length_def SendDataCommand_api_eq exchange_length
      dest: data_request_length split: option.splits)

lemma keeps_length_SendModifiedCommand_id:
  "world_ok w \<Longrightarrow> keeps_length (SendModifiedCommand_id w ex c g)"
  by (auto simp: keeps_length_def SendModifiedCommand_id_eq exchange_modified_length
      dest: modified_request_length split: option.splits)

section \<open>Lemmas: replies\<close>

lemma fw_reply_Some_iff:
  "fw_reply rv r d api = Some api' \<longleftrightarrow>
     (\<exists>buf1 a2. write_u32 (mLockedBuffer api) 0x10 rv = Some buf1
        \<and> SetResponse (r\<lparr>buffer_size := of_nat (length d)\<rparr>) \<lparr>mLockedBuffer = buf1\<rparr> = Some a2
        \<and> SetResponseData d a2 = Some api')"
  by (auto simp: fw_reply_def bind_eq_Some_conv with_buffer_Some_iff)

lemma fw_reply_length:
  "fw_reply rv r d api = Some api' \<Longrightarrow> length (mLockedBuffer api') = length (mLockedBuffer api)"
  by (auto simp: fw_reply_Some_iff write_u32_def
      dest!: SetResponse_length SetResponseData_length write_bytes_length)

lemma fw_reply_defined_iff:
  "(\<exists>api'. fw_reply rv r d api = Some api') \<longleftrightarrow> 0x28 + length d \<le> length (mLockedBuffer api)"
proof
  assume "\<exists>api'. fw_reply rv r d api = Some api'"
  then obtain a1 a2 where 1: "write_u32 (mLockedBuffer api) 0x10 rv = Some (mLockedBuffer a1)"
    and 2: "SetResponse (r\<lparr>buffer_size := of_nat (length d)\<rparr>) a1 = Some a2"
    and 3: "\<exists>a. SetResponseData d a2 = Some a"
    using fw_reply_Some_iff [of rv r d api]
    by (metis API.select_convs(1))
  from 3 have "0x28 + length d \<le> length (mLockedBuffer a2)"
    using SetResponseData_defined_iff by blast
  with 1 2 show "0x28 + length d \<le> length (mLockedBuffer api)"
    by (auto simp: write_u32_def dest!: SetResponse_length write_bytes_length)
next
  assume n: "0x28 + length d \<le> length (mLockedBuffer api)"
  then obtain buf1 where 1: "write_u32 (mLockedBuffer api) 0x10 rv = Some buf1"
    by (auto simp: write_u32_def write_bytes_def)
  then have l1: "length buf1 = length (mLockedBuffer api)"
    by (auto simp: write_u32_def dest: write_bytes_length)
  with n obtain a2
    where 2: "SetResponse (r\<lparr>buffer_size := of_nat (length d)\<rparr>) \<lparr>mLockedBuffer = buf1\<rparr> = Some a2"
    using SetResponse_defined_iff [of _ "\<lparr>mLockedBuffer = buf1\<rparr>"] by auto
  with n l1 obtain a3 where "SetResponseData d a2 = Some a3"
    using SetResponseData_defined_iff [of d a2] SetResponse_length [OF 2] by auto
  with 1 2 show "\<exists>api'. fw_reply rv r d api = Some api'"
    by (auto simp: fw_reply_Some_iff)
qed

lemma fw_reply_views:
  assumes "fw_reply rv r d api = Some api'"
  shows "\<exists>b. Base api' = Some b \<and> ret_val b = rv"
    and "GetResponse api' = Some (r\<lparr>buffer_size := of_nat (length d)\<rparr>)"
    and "ResponseData api' (length d) = Some d"
proof -
  from assms obtain a1 a2
    where 1: "write_u32 (mLockedBuffer api) 0x10 rv = Some (mLockedBuffer a1)"
    and 2: "SetResponse (r\<lparr>buffer_size := of_nat (length d)\<rparr>) a1 = Some a2"
    and 3: "SetResponseData d a2 = Some api'"
    using fw_reply_Some_iff [of rv r d api api']
    by (metis API.select_convs(1))
  have "read_u32 (mLockedBuffer api') 0x10 = read_u32 (mLockedBuffer a1) 0x10"
    using SetResponse_frame [OF 2, of "0x10" 4] SetResponseData_frame [OF 3, of "0x10" 4]
    by (simp add: read_u32_def separate_def ResponseOffset_def)
  then have rv: "read_u32 (mLockedBuffer api') 0x10 = Some rv"
    using read_u32_write_u32_same [OF 1] by simp
  then obtain b where b: "Base api' = Some b"
    using Base_defined_iff [of api'] fw_reply_defined_iff [of rv r d api] assms
      fw_reply_length [OF assms] by auto
  with rv base_transaction_field_offsets(5) [of 0 "mLockedBuffer api'" b]
  show "\<exists>b. Base api' = Some b \<and> ret_val b = rv" by (simp add: Base_def)
  show "GetResponse api' = Some (r\<lparr>buffer_size := of_nat (length d)\<rparr>)"
    using SetResponseData_frame [OF 3, of ResponseOffset 20] GetResponse_SetResponse [OF 2]
    by (simp add: GetResponse_def view_get_def separate_def)
  show "ResponseData api' (length d) = Some d" using 3 by (rule ResponseData_SetResponseData)
qed

lemma classify_fw_reply:
  assumes "fw_reply rv r d api = Some api'" and "length d < 2 ^ 32"
  shows "classify c 0 api' =
    (if rv \<noteq> 0 then Inl (ProtocolError (Rejected rv))
     else if command r \<noteq> CommandId_val c
       then Inl (ProtocolError (WrongCommand (CommandId_val c) (command r)))
     else Inr (r\<lparr>buffer_size := of_nat (length d)\<rparr>, d))"
proof -
  from fw_reply_views(1) [OF assms(1)] obtain b where "Base api' = Some b" "ret_val b = rv"
    by blast
  moreover have "unat (of_nat (length d) :: u32) = length d"
    using assms(2) by (simp add: unat_of_nat)
  ultimately show ?thesis
    using fw_reply_views(2,3) [OF assms(1)]
    by (simp add: classify_zero check_ret_val_def decode_response_def)
qed

section \<open>Lemmas: the shapes that open their own session\<close>

lemma GetRequest_fresh_api:
  "BufferSize \<le> length (mBuffer t) \<Longrightarrow> GetRequest (fresh_api t) = Some hdr_zero"
proof -
  have "dec trustlet_buffer_codec (replicate 20 0) = hdr_zero"
    by (simp add: trustlet_buffer_codec_def words_codec_def words_trustlet_buffer_def
        bytes_u32s_def word_at_def hdr_zero_def)
  moreover assume "BufferSize \<le> length (mBuffer t)"
  ultimately show ?thesis
    by (simp add: GetRequest_def view_get_def read_bytes_def fresh_api_def RequestOffset_def)
qed

lemma SendCommand_unlocked:
  assumes "\<not> mLocked t"
    and "plain_request (process_id_of w) c g (fresh_api t) = Some a"
    and "invoke w (mLockedBuffer a) (mSecure t) = (rc, buf, s')"
  shows "SendCommand w c g t =
    (classify c rc \<lparr>mLockedBuffer = buf\<rparr>, \<lparr>mBuffer = buf, mLocked = False, mSecure = s'\<rparr>)"
  using assms
  by (simp add: SendCommand_def SendCommand_id_eq exchange_eq
      with_session_unlocked [where api' = "\<lparr>mLockedBuffer = buf\<rparr>"])

lemma SendDataCommand_unlocked:
  assumes "\<not> mLocked t"
    and "data_request (process_id_of w) c d g (fresh_api t) = Some a"
    and "invoke w (mLockedBuffer a) (mSecure t) = (rc, buf, s')"
  shows "SendDataCommand w c d g t =
    (classify c rc \<lparr>mLockedBuffer = buf\<rparr>, \<lparr>mBuffer = buf, mLocked = False, mSecure = s'\<rparr>)"
proof -
  from assms(2) have "length d \<le> request_capacity (fresh_api t)"
    using data_request_defined_iff by blast
  with assms show ?thesis
    by (simp add: SendDataCommand_def SendDataCommand_api_eq exchange_eq
        with_session_unlocked [where api' = "\<lparr>mLockedBuffer = buf\<rparr>"])
qed

lemma SendDataCommand_too_large:
  assumes "\<not> mLocked t" and "request_capacity (fresh_api t) < length d"
  shows "SendDataCommand w c d g t =
    (Inl (PayloadTooLarge (length d)),
     \<lparr>mBuffer = replicate (length (mBuffer t)) 0, mLocked = False, mSecure = mSecure t\<rparr>)"
  using assms
  by (simp add: SendDataCommand_def SendDataCommand_api_eq
      with_session_unlocked [where api' = "fresh_api t"]) (simp add: fresh_api_def)

lemma SendModifiedCommand_unlocked:
  assumes "\<not> mLocked t"
    and "modified_request (process_id_of w) (length ex) c g (fresh_api t) = Some a"
    and "invoke_modified w (mLockedBuffer a) ex (mSecure t) = (rc, (buf, ex'), s')"
  shows "SendModifiedCommand w ex c g t =
    ((classify c rc \<lparr>mLockedBuffer = buf\<rparr>, ex'),
     \<lparr>mBuffer = buf, mLocked = False, mSecure = s'\<rparr>)"
  using assms
  by (simp add: SendModifiedCommand_def SendModifiedCommand_id_eq exchange_modified_eq
      with_session_unlocked [where api' = "\<lparr>mLockedBuffer = buf\<rparr>"])

lemma dispatcher_locked:
  assumes "mLocked t"
  shows "SendCommand w c g t = (Inl LockHeld, t)"
    and "SendDataCommand w c d g t = (Inl LockHeld, t)"
    and "SendModifiedCommand w ex c g t = ((Inl LockHeld, ex), t)"
  using assms
  by (simp_all add: SendCommand_def SendDataCommand_def SendModifiedCommand_def
      with_session_locked)

lemma plain_request_fresh:
  assumes "BufferSize \<le> length (mBuffer t)"
  shows "plain_request pid c g (fresh_api t) =
    Some \<lparr>mLockedBuffer = le_bytes 4 pid @ replicate 0x5c 0 @ le_bytes 4 (CommandId_val c)
      @ le_bytes 4 g @ replicate (length (mBuffer t) - 0x68) 0\<rparr>"
proof -
  let ?n = "length (mBuffer t)"
  let ?q = "hdr_zero\<lparr>command := CommandId_val c, gid := g, buffer_size := 0\<rparr>"
  have e: "enc trustlet_buffer_codec ?q
      = replicate 4 0 @ le_bytes 4 (CommandId_val c) @ le_bytes 4 g @ replicate 8 0"
    by (simp add: trustlet_buffer_codec_def words_codec_def trustlet_buffer_words_def hdr_zero_def
        replicate_add [symmetric])
  have 1: "set_request_command c g 0 (fresh_api t) =
      Some \<lparr>mLockedBuffer = replicate 0x5c 0 @ enc trustlet_buffer_codec ?q @ replicate (?n - 0x70) 0\<rparr>"
    using assms GetRequest_fresh_api [OF assms]
    by (simp add: set_request_command_def SetRequest_def with_buffer_def view_put_def
        write_bytes_def fresh_api_def RequestOffset_def min_def)
  show ?thesis
    using assms
    by (simp add: plain_request_def 1 e PrepareBase_def memset_bytes_def write_bytes_def
        write_u32_def with_buffer_def replicate_add [symmetric] min_def)
qed

lemma SendCommand_result:
  assumes "trustlet_ok t"
  obtains a rc buf s' where "plain_request (process_id_of w) c g (fresh_api t) = Some a"
    and "invoke w (mLockedBuffer a) (mSecure t) = (rc, buf, s')"
    and "SendCommand w c g t =
      (classify c rc \<lparr>mLockedBuffer = buf\<rparr>, \<lparr>mBuffer = buf, mLocked = False, mSecure = s'\<rparr>)"
proof -
  from assms obtain a where a: "plain_request (process_id_of w) c g (fresh_api t) = Some a"
    using plain_request_defined_iff [of "process_id_of w" c g "fresh_api t"]
    by (auto simp: trustlet_ok_def)
  obtain rc buf s' where i: "invoke w (mLockedBuffer a) (mSecure t) = (rc, buf, s')"
    by (cases "invoke w (mLockedBuffer a) (mSecure t)") auto
  from assms have "\<not> mLocked t" by (simp add: trustlet_ok_def)
  from that [OF a i SendCommand_unlocked [OF this a i]] show ?thesis .
qed

lemma SendDataCommand_result:
  assumes "trustlet_ok t" and "length d \<le> length (mBuffer t) - BufferSize"
  obtains a rc buf s' where "data_request (process_id_of w) c d g (fresh_api t) = Some a"
    and "invoke w (mLockedBuffer a) (mSecure t) = (rc, buf, s')"
    and "SendDataCommand w c d g t =
      (classify c rc \<lparr>mLockedBuffer = buf\<rparr>, \<lparr>mBuffer = buf, mLocked = False, mSecure = s'\<rparr>)"
proof -
  from assms obtain a where a: "data_request (process_id_of w) c d g (fresh_api t) = Some a"
    using data_request_defined_iff [of "process_id_of w" c d g "fresh_api t"]
    by (auto simp: trustlet_ok_def request_capacity_def)
  obtain rc buf s' where i: "invoke w (mLockedBuffer a) (mSecure t) = (rc, buf, s')"
    by (cases "invoke w (mLockedBuffer a) (mSecure t)") auto
  from assms have "\<not> mLocked t" by (simp add: trustlet_ok_def)
  from that [OF a i SendDataCommand_unlocked [OF this a i]] show ?thesis .
qed

lemma SendModifiedCommand_result:
  assumes "trustlet_ok t"
  obtains a rc buf ex' s'
  where "modified_request (process_id_of w) (length ex) c g (fresh_api t) = Some a"
    and "invoke_modified w (mLockedBuffer a) ex (mSecure t) = (rc, (buf, ex'), s')"
    and "SendModifiedCommand w ex c g t =
      ((classify c rc \<lparr>mLockedBuffer = buf\<rparr>, ex'),
       \<lparr>mBuffer = buf, mLocked = False, mSecure = s'\<rparr>)"
proof -
  from assms obtain a
    where a: "modified_request (process_id_of w) (length ex) c g (fresh_api t) = Some a"
    using modified_request_defined_iff [of "process_id_of w" "length ex" c g "fresh_api t"]
    by (auto simp: trustlet_ok_def)
  obtain rc buf ex' s'
    where i: "invoke_modified w (mLockedBuffer a) ex (mSecure t) = (rc, (buf, ex'), s')"
    by (cases "invoke_modified w (mLockedBuffer a) ex (mSecure t)") auto
  from assms have "\<not> mLocked t" by (simp add: trustlet_ok_def)
  from that [OF a i SendModifiedCommand_unlocked [OF this a i]] show ?thesis .
qed

lemma SendCommand_transport_failure:
  assumes "trustlet_ok t" and "rc \<noteq> 0" and "\<forall>buf s. fst (invoke w buf s) = rc"
  shows "fst (SendCommand w c g t) = Inl (TransportError rc)
    \<and> \<not> mLocked (snd (SendCommand w c g t))"
proof (rule SendCommand_result [OF assms(1), of w c g])
  fix a :: API and rc' buf s'
  assume i: "invoke w (mLockedBuffer a) (mSecure t) = (rc', buf, s')"
    and r: "SendCommand w c g t = (classify c rc' \<lparr>mLockedBuffer = buf\<rparr>,
      \<lparr>mBuffer = buf, mLocked = False, mSecure = s'\<rparr>)"
  from assms(3) i have "rc' = rc" by (metis fst_conv)
  with r assms(2) show ?thesis by simp
qed

lemma SendDataCommand_transport_failure:
  assumes "trustlet_ok t" and "length d \<le> length (mBuffer t) - BufferSize" and "rc \<noteq> 0"
    and "\<forall>buf s. fst (invoke w buf s) = rc"
  shows "fst (SendDataCommand w c d g t) = Inl (TransportError rc)
    \<and> \<not> mLocked (snd (SendDataCommand w c d g t))"
proof (rule SendDataCommand_result [OF assms(1,2), of w c g])
  fix a :: API and rc' buf s'
  assume i: "invoke w (mLockedBuffer a) (mSecure t) = (rc', buf, s')"
    and r: "SendDataCommand w c d g t = (classify c rc' \<lparr>mLockedBuffer = buf\<rparr>,
      \<lparr>mBuffer = buf, mLocked = False, mSecure = s'\<rparr>)"
  from assms(4) i have "rc' = rc" by (metis fst_conv)
  with r assms(3) show ?thesis by simp
qed

lemma SendModifiedCommand_transport_failure:
  assumes "trustlet_ok t" and "rc \<noteq> 0"
    and "\<forall>buf ex s. fst (invoke_modified w buf ex s) = rc"
  shows "fst (fst (SendModifiedCommand w ex c g t)) = Inl (TransportError rc)
    \<and> \<not> mLocked (snd (SendModifiedCommand w ex c g t))"
proof (rule SendModifiedCommand_result [OF assms(1), of w ex c g])
  fix a :: API and rc' buf ex' s'
  assume i: "invoke_modified w (mLockedBuffer a) ex (mSecure t) = (rc', (buf, ex'), s')"
    and r: "SendModifiedCommand w ex c g t = ((classify c rc' \<lparr>mLockedBuffer = buf\<rparr>, ex'),
      \<lparr>mBuffer = buf, mLocked = False, mSecure = s'\<rparr>)"
  from assms(3) i have "rc' = rc" by (metis fst_conv)
  with r assms(2) show ?thesis by simp
qed

lemma world_ok_failing_world [simp]: "world_ok (failing_world rc)"
  by (simp add: world_ok_def failing_world_def)

lemma GetRequest_SetRequestData:
  "SetRequestData d api = Some api' \<Longrightarrow> GetRequest api' = GetRequest api"
  by (simp add: GetRequest_def view_get_def SetRequestData_frame separate_def)

lemma data_request_views:
  assumes "data_request pid c d g api = Some a" and "GetRequest api = Some q"
  shows "GetRequest a =
      Some (q\<lparr>command := CommandId_val c, gid := g, buffer_size := of_nat (length d)\<rparr>)"
    and "RequestData a (length d) = Some d"
    and "Base a = Some (base_zero\<lparr>process_id := pid\<rparr>)"
proof -
  from assms(1) obtain a1 a2 where 1: "set_request_command c g (length d) api = Some a1"
    and 2: "SetRequestData d a1 = Some a2" and 3: "PrepareBase pid a2 = Some a"
    by (auto simp: data_request_def bind_eq_Some_conv)
  show "GetRequest a =
      Some (q\<lparr>command := CommandId_val c, gid := g, buffer_size := of_nat (length d)\<rparr>)"
    using GetRequest_PrepareBase [OF 3] GetRequest_SetRequestData [OF 2]
      GetRequest_set_request_command [OF 1 assms(2)] by simp
  show "RequestData a (length d) = Some d"
    using PrepareBase_frame [OF 3, of "0x70" "length d"] RequestData_SetRequestData [OF 2]
    by (simp add: RequestData_def RequestOffset_def)
  show "Base a = Some (base_zero\<lparr>process_id := pid\<rparr>)" using 3 by (rule Base_PrepareBase)
qed

lemma modified_request_views:
  assumes "modified_request pid n c g api = Some a" and "GetRequest api = Some q"
  shows "GetRequest a = Some (q\<lparr>command := CommandId_val c, gid := g, buffer_size := 0\<rparr>)"
    and "Base a = Some (base_zero\<lparr>process_id := pid, extra_buffer_size := of_nat n\<rparr>)"
proof -
  from assms(1) obtain a1 where 1: "plain_request pid c g api = Some a1"
    and 2: "set_extra_buffer_size n a1 = Some a"
    by (auto simp: modified_request_def bind_eq_Some_conv)
  show "GetRequest a = Some (q\<lparr>command := CommandId_val c, gid := g, buffer_size := 0\<rparr>)"
    using GetRequest_set_extra_buffer_size [OF 2] plain_request_views(1) [OF 1 assms(2)]
    by simp
  show "Base a = Some (base_zero\<lparr>process_id := pid, extra_buffer_size := of_nat n\<rparr>)"
    using Base_set_extra_buffer_size [OF 2 plain_request_views(2) [OF 1 assms(2)]] by simp
qed

lemma length_echo_reply [simp]: "length (echo_reply buf) = length buf"
  by (auto simp: echo_reply_def bind_eq_Some_conv dest!: fw_reply_length split: option.splits)

lemma echo_world_simps [simp]:
  "process_id_of echo_world = 0xe0" "invoke echo_world buf n = (0, echo_reply buf, Suc n)"
  "invoke_modified echo_world buf ex n = (0, (echo_reply buf, ex), Suc n)"
  by (simp_all add: echo_world_def)

lemma world_ok_echo_world [simp]: "world_ok echo_world"
  by (simp add: world_ok_def)

lemma classify_echo_reply:
  assumes "api_ok a" and "GetRequest a = Some q" and "command q = CommandId_val c"
  shows "classify c 0 \<lparr>mLockedBuffer = echo_reply (mLockedBuffer a)\<rparr>
    = Inr (q\<lparr>buffer_size := 0\<rparr>, [])"
proof -
  from assms(1) obtain a' where r: "fw_reply 0 q [] a = Some a'"
    using fw_reply_defined_iff [of 0 q "[]" a] by (auto simp: api_ok_def)
  then have "echo_reply (mLockedBuffer a) = mLockedBuffer a'"
    using assms(2) by (simp add: echo_reply_def)
  then show ?thesis
    using classify_fw_reply [OF r, of c] assms(3) by simp
qed


lemma ret_val_api_example: "\<exists>b. Base api_example = Some b \<and> ret_val b = 0"
proof -
  obtain b where b: "Base api_example = Some b"
    using Base_defined_iff [of api_example] by auto
  have "read_u32 (mLockedBuffer api_example) 0x10 = Some 0"
    by (simp add: read_u32_def read_bytes_def api_example_def)
  with base_transaction_field_offsets(5) [of 0 "mLockedBuffer api_example" b] b
  show ?thesis by (simp add: Base_def)
qed

lemma trustlet_ok_SendCommand:
  "world_ok w \<Longrightarrow> trustlet_ok t \<Longrightarrow> trustlet_ok (snd (SendCommand w c g t))"
  by (simp add: SendCommand_def with_session_ok keeps_length_SendCommand_id)

lemma trustlet_ok_SendDataCommand:
  "world_ok w \<Longrightarrow> trustlet_ok t \<Longrightarrow> trustlet_ok (snd (SendDataCommand w c d g t))"
  by (simp add: SendDataCommand_def with_session_ok keeps_length_SendDataCommand_api)

lemma trustlet_ok_SendModifiedCommand:
  "world_ok w \<Longrightarrow> trustlet_ok t \<Longrightarrow> trustlet_ok (snd (SendModifiedCommand w ex c g t))"
  by (simp add: SendModifiedCommand_def with_session_ok keeps_length_SendModifiedCommand_id)

section \<open>Properties\<close>

text \<open>
  C8: a failure of the transport surfaces as a transport error in every call shape.
  When the secure-world call returns the non-zero status \<open>rc\<close>, a plain command, a
  data command whose payload fits the block, and a modified-buffer command each return
  \<open>TransportError rc\<close>, whatever the secure world left in the block, and the lock is
  released afterwards.
\<close>

theorem transport_failure_surfaces:
  assumes "trustlet_ok t" and "length d \<le> length (mBuffer t) - BufferSize" and "rc \<noteq> 0"
    and "\<forall>buf s. fst (invoke w buf s) = rc"
    and "\<forall>buf ex s. fst (invoke_modified w buf ex s) = rc"
  shows "fst (SendCommand w c g t) = Inl (TransportError rc)
    \<and> \<not> mLocked (snd (SendCommand w c g t))
    \<and> fst (SendDataCommand w c d g t) = Inl (TransportError rc)
    \<and> \<not> mLocked (snd (SendDataCommand w c d g t))
    \<and> fst (fst (SendModifiedCommand w ex c g t)) = Inl (TransportError rc)
    \<and> \<not> mLocked (snd (SendModifiedCommand w ex c g t))"
  using SendCommand_transport_failure [OF assms(1,3,4)]
    SendDataCommand_transport_failure [OF assms(1,2,3,4)]
    SendModifiedCommand_transport_failure [OF assms(1,3,5)]
  by simp

theorem transport_failure_surfaces_witness:
  "trustlet_ok (new_trustlet 0x80 (0 :: nat))
    \<and> fst (SendCommand (failing_world 5) SetWorkMode 0 (new_trustlet 0x80 0))
        = Inl (TransportError 5)
    \<and> fst (SendDataCommand (failing_world 5) SetWorkMode [1, 0, 0, 0] 0 (new_trustlet 0x80 0))
        = Inl (TransportError 5)
    \<and> fst (fst (SendModifiedCommand (failing_world 5) [0, 0] SetWorkMode 0
          (new_trustlet 0x80 0))) = Inl (TransportError 5)
    \<and> \<not> mLocked (snd (SendCommand (failing_world 5) SetWorkMode 0 (new_trustlet 0x80 0)))"
  using transport_failure_surfaces [where t = "new_trustlet 0x80 (0 :: nat)"
      and d = "[1, 0, 0, 0]" and rc = 5 and w = "failing_world 5" and c = SetWorkMode and g = 0
      and ex = "[0, 0]"]
  by (simp add: new_trustlet_def failing_world_def trustlet_ok_def)

text \<open>
  C7: a plain command issued on an unlocked client with a block of at least
  \<open>BufferSize\<close> bytes. The secure world is called exactly once, on the block that is
  zero except for the process id in the first envelope word and the opcode and the gid
  in the request header at +0x5c; the result is the classification of the returned
  status and block, the block and the secure-world state after the call are the ones
  the call returned, and the lock is released.
\<close>

theorem plain_command_outcome:
  assumes "trustlet_ok t"
  shows "\<exists>a rc buf s'.
      plain_request (process_id_of w) c g (fresh_api t) = Some a
    \<and> mLockedBuffer a = le_bytes 4 (process_id_of w) @ replicate 0x5c 0
        @ le_bytes 4 (CommandId_val c) @ le_bytes 4 g @ replicate (length (mBuffer t) - 0x68) 0
    \<and> GetRequest a = Some (hdr_zero\<lparr>command := CommandId_val c, gid := g\<rparr>)
    \<and> Base a = Some (base_zero\<lparr>process_id := process_id_of w\<rparr>)
    \<and> invoke w (mLockedBuffer a) (mSecure t) = (rc, buf, s')
    \<and> SendCommand w c g t =
        (classify c rc \<lparr>mLockedBuffer = buf\<rparr>, \<lparr>mBuffer = buf, mLocked = False, mSecure = s'\<rparr>)"
proof (rule SendCommand_result [OF assms, of w c g])
  fix a rc buf s'
  assume a: "plain_request (process_id_of w) c g (fresh_api t) = Some a"
    and i: "invoke w (mLockedBuffer a) (mSecure t) = (rc, buf, s')"
    and r: "SendCommand w c g t =
      (classify c rc \<lparr>mLockedBuffer = buf\<rparr>, \<lparr>mBuffer = buf, mLocked = False, mSecure = s'\<rparr>)"
  from assms have n: "BufferSize \<le> length (mBuffer t)" by (simp add: trustlet_ok_def)
  have "GetRequest a = Some (hdr_zero\<lparr>command := CommandId_val c, gid := g\<rparr>)"
    using plain_request_views(1) [OF a GetRequest_fresh_api [OF n]] by (simp add: hdr_zero_def)
  moreover have "mLockedBuffer a = le_bytes 4 (process_id_of w) @ replicate 0x5c 0
      @ le_bytes 4 (CommandId_val c) @ le_bytes 4 g @ replicate (length (mBuffer t) - 0x68) 0"
    using a plain_request_fresh [OF n, of "process_id_of w" c g] by auto
  ultimately show ?thesis
    using a i r plain_request_views(2) [OF a GetRequest_fresh_api [OF n]] by blast
qed

theorem plain_command_outcome_witness:
  "trustlet_ok (new_trustlet 0x70 (0 :: nat))
    \<and> (\<exists>a rc buf s'.
      plain_request (process_id_of echo_world) IsFingerLost 3
        (fresh_api (new_trustlet 0x70 (0 :: nat))) = Some a
    \<and> mLockedBuffer a = le_bytes 4 (process_id_of echo_world) @ replicate 0x5c 0
        @ le_bytes 4 (CommandId_val IsFingerLost) @ le_bytes 4 (3 :: u32)
        @ replicate (length (mBuffer (new_trustlet 0x70 (0 :: nat))) - 0x68) 0
    \<and> GetRequest a = Some (hdr_zero\<lparr>command := CommandId_val IsFingerLost, gid := 3\<rparr>)
    \<and> Base a = Some (base_zero\<lparr>process_id := process_id_of echo_world\<rparr>)
    \<and> invoke echo_world (mLockedBuffer a) (mSecure (new_trustlet 0x70 (0 :: nat)))
        = (rc, buf, s')
    \<and> SendCommand echo_world IsFingerLost 3 (new_trustlet 0x70 0) =
        (classify IsFingerLost rc \<lparr>mLockedBuffer = buf\<rparr>,
         \<lparr>mBuffer = buf, mLocked = False, mSecure = s'\<rparr>))"
  using plain_command_outcome [of "new_trustlet 0x70 (0 :: nat)" echo_world IsFingerLost 3]
  by simp

text \<open>
  C9: the validation policy keeps the two kinds of error apart. For a returned block of
  at least \<open>BufferSize\<close> bytes the result of a call is a transport error exactly when
  the status is non-zero, and then it carries that status; it is a protocol error
  exactly when the status is zero and the envelope's \<open>ret_val\<close> is non-zero, or the
  echoed command is not the issued one, or the payload length of the response header
  runs past the block; otherwise it is the response header with the payload bytes that
  follow it. No result is of two kinds, and no other error is possible.
\<close>

theorem classify_trichotomy:
  assumes "api_ok api"
  shows "\<exists>b r. Base api = Some b \<and> GetResponse api = Some r
    \<and> (classify c rc api = Inl (TransportError rc) \<longleftrightarrow> rc \<noteq> 0)
    \<and> (is_transport_error (classify c rc api) \<longleftrightarrow> rc \<noteq> 0)
    \<and> (is_protocol_error (classify c rc api) \<longleftrightarrow>
          rc = 0 \<and> (ret_val b \<noteq> 0 \<or> command r \<noteq> CommandId_val c
            \<or> length (mLockedBuffer api) < 0x28 + unat (buffer_size r)))
    \<and> (is_ok (classify c rc api) \<longleftrightarrow>
          rc = 0 \<and> ret_val b = 0 \<and> command r = CommandId_val c
            \<and> 0x28 + unat (buffer_size r) \<le> length (mLockedBuffer api))
    \<and> (classify c rc api = Inr (r, take (unat (buffer_size r)) (drop 0x28 (mLockedBuffer api)))
          \<longleftrightarrow> is_ok (classify c rc api))
    \<and> (is_transport_error (classify c rc api) \<or> is_protocol_error (classify c rc api)
          \<or> is_ok (classify c rc api))"
proof -
  from assms obtain b r where b: "Base api = Some b" and r: "GetResponse api = Some r"
    using Base_defined_iff [of api] GetResponse_defined_iff [of api]
    by (auto dest: api_ok_imp_lengths)
  have d: "ResponseData api n = (if 0x28 + n \<le> length (mLockedBuffer api)
      then Some (take n (drop 0x28 (mLockedBuffer api))) else None)" for n
    by (simp add: ResponseData_def read_bytes_def ResponseOffset_def)
  have t: "is_transport_error (classify c rc api) \<longleftrightarrow> rc \<noteq> 0"
    by (auto simp: is_transport_error_iff classify_transport_iff)
  have p: "is_protocol_error (classify c rc api) \<longleftrightarrow>
      rc = 0 \<and> (ret_val b \<noteq> 0 \<or> command r \<noteq> CommandId_val c
        \<or> length (mLockedBuffer api) < 0x28 + unat (buffer_size r))"
    by (auto simp: classify_protocol_iff [OF b r] d)
  have k: "classify c rc api = Inr (h, x) \<longleftrightarrow>
      rc = 0 \<and> ret_val b = 0 \<and> h = r \<and> command r = CommandId_val c
      \<and> 0x28 + unat (buffer_size r) \<le> length (mLockedBuffer api)
      \<and> x = take (unat (buffer_size r)) (drop 0x28 (mLockedBuffer api))" for h x
    by (auto simp: classify_ok_iff [OF b r] d)
  have o: "is_ok (classify c rc api) \<longleftrightarrow>
      rc = 0 \<and> ret_val b = 0 \<and> command r = CommandId_val c
      \<and> 0x28 + unat (buffer_size r) \<le> length (mLockedBuffer api)"
    by (auto simp: is_ok_iff k)
  from b r t p o k show ?thesis
    by (auto simp: classify_transport_iff is_ok_iff simp del: classify_transport)
qed

theorem classify_trichotomy_witness:
  "api_ok api_example \<and> is_ok (classify CloseSpi 0 api_example)
    \<and> is_protocol_error (classify IsFingerLost 0 api_example)
    \<and> is_transport_error (classify CloseSpi 7 api_example)"
  using classify_trichotomy [OF api_ok_api_example, of CloseSpi 0]
    classify_trichotomy [OF api_ok_api_example, of IsFingerLost 0]
    classify_trichotomy [OF api_ok_api_example, of CloseSpi 7] ret_val_api_example
  by (auto simp: hdr_example_def)

text \<open>
  C18: a data command whose payload does not fit behind the request header is refused
  before anything is sent: the result is \<open>PayloadTooLarge\<close> with the length of the
  payload, the secure world is not called (its state is unchanged), and the lock is
  released.
\<close>

theorem data_command_bounds:
  assumes "trustlet_ok t" and "length (mBuffer t) - BufferSize < length d"
  shows "fst (SendDataCommand w c d g t) = Inl (PayloadTooLarge (length d))
    \<and> mSecure (snd (SendDataCommand w c d g t)) = mSecure t
    \<and> trustlet_ok (snd (SendDataCommand w c d g t))"
  using assms SendDataCommand_too_large [of t d w c g]
  by (simp add: trustlet_ok_def request_capacity_def)

theorem data_command_bounds_witness:
  "trustlet_ok (new_trustlet 0x70 (0 :: nat))
    \<and> fst (SendDataCommand echo_world SetWorkMode [1, 0, 0, 0] 0 (new_trustlet 0x70 0))
      = Inl (PayloadTooLarge 4)
    \<and> mSecure (snd (SendDataCommand echo_world SetWorkMode [1, 0, 0, 0] 0
        (new_trustlet 0x70 0))) = 0"
  using data_command_bounds [of "new_trustlet 0x70 (0 :: nat)" "[1, 0, 0, 0]" echo_world
      SetWorkMode 0]
  by simp

text \<open>
  C17: a data command whose payload fits. The secure world is called once on a block
  whose request header carries the opcode, the gid and the payload length in
  \<open>buffer_size\<close>, with the payload bytes right behind the header and the envelope cleared
  to the process id; the stored length is the payload length whenever the block is
  shorter than \<open>2 ^ 32\<close> bytes; the result is the classification of what the call
  returned.
\<close>

theorem data_command_request:
  assumes "trustlet_ok t" and "length d \<le> length (mBuffer t) - BufferSize"
  shows "\<exists>a q rc buf s'.
      data_request (process_id_of w) c d g (fresh_api t) = Some a
    \<and> GetRequest a = Some q \<and> command q = CommandId_val c \<and> gid q = g \<and> fid q = 0
    \<and> buffer_size q = of_nat (length d)
    \<and> (length (mBuffer t) < 2 ^ 32 \<longrightarrow> unat (buffer_size q) = length d)
    \<and> RequestData a (length d) = Some d
    \<and> Base a = Some (base_zero\<lparr>process_id := process_id_of w\<rparr>)
    \<and> invoke w (mLockedBuffer a) (mSecure t) = (rc, buf, s')
    \<and> SendDataCommand w c d g t =
        (classify c rc \<lparr>mLockedBuffer = buf\<rparr>, \<lparr>mBuffer = buf, mLocked = False, mSecure = s'\<rparr>)"
proof (rule SendDataCommand_result [OF assms, of w c g])
  fix a rc buf s'
  assume a: "data_request (process_id_of w) c d g (fresh_api t) = Some a"
    and i: "invoke w (mLockedBuffer a) (mSecure t) = (rc, buf, s')"
    and r: "SendDataCommand w c d g t =
      (classify c rc \<lparr>mLockedBuffer = buf\<rparr>, \<lparr>mBuffer = buf, mLocked = False, mSecure = s'\<rparr>)"
  from assms(1) have n: "BufferSize \<le> length (mBuffer t)" by (simp add: trustlet_ok_def)
  let ?q = "hdr_zero\<lparr>command := CommandId_val c, gid := g, buffer_size := of_nat (length d)\<rparr>"
  have "length (mBuffer t) < 2 ^ 32 \<longrightarrow> unat (buffer_size ?q) = length d"
    using assms(2) by (auto simp: unat_of_nat)
  moreover have "fid ?q = 0" by (simp add: hdr_zero_def)
  ultimately show ?thesis
    using a i r data_request_views [OF a GetRequest_fresh_api [OF n]] by auto
qed

theorem data_command_request_witness:
  "trustlet_ok (new_trustlet 0x80 (0 :: nat))
    \<and> (\<exists>a q. data_request (process_id_of echo_world) SetWorkMode [1, 0, 0, 0] 0
          (fresh_api (new_trustlet 0x80 (0 :: nat))) = Some a
      \<and> GetRequest a = Some q \<and> command q = 0x17 \<and> unat (buffer_size q) = 4
      \<and> RequestData a (length [1, 0, 0, 0 :: u8]) = Some [1, 0, 0, 0])"
  using data_command_request [of "new_trustlet 0x80 (0 :: nat)" "[1, 0, 0, 0]" echo_world
      SetWorkMode 0]
  by auto

text \<open>
  C19: a modified-buffer command. The envelope handed to the secure world carries the
  process id and, in \<open>extra_buffer_size\<close>, the length of the scratch buffer that is
  attached to the call; the request header is that of the plain command; the secure
  world is called once with the block and the scratch buffer, and the caller gets back
  the classification of the returned status and block together with the scratch buffer
  as the secure world left it.
\<close>

theorem modified_command_request:
  assumes "trustlet_ok t"
  shows "\<exists>a rc buf ex' s'.
      modified_request (process_id_of w) (length ex) c g (fresh_api t) = Some a
    \<and> GetRequest a = Some (hdr_zero\<lparr>command := CommandId_val c, gid := g\<rparr>)
    \<and> Base a = Some (base_zero\<lparr>process_id := process_id_of w,
          extra_buffer_size := of_nat (length ex)\<rparr>)
    \<and> invoke_modified w (mLockedBuffer a) ex (mSecure t) = (rc, (buf, ex'), s')
    \<and> SendModifiedCommand w ex c g t =
        ((classify c rc \<lparr>mLockedBuffer = buf\<rparr>, ex'),
         \<lparr>mBuffer = buf, mLocked = False, mSecure = s'\<rparr>)"
proof (rule SendModifiedCommand_result [OF assms, of w ex c g])
  fix a :: API and rc buf ex' s'
  assume a: "modified_request (process_id_of w) (length ex) c g (fresh_api t) = Some a"
    and i: "invoke_modified w (mLockedBuffer a) ex (mSecure t) = (rc, (buf, ex'), s')"
    and r: "SendModifiedCommand w ex c g t =
      ((classify c rc \<lparr>mLockedBuffer = buf\<rparr>, ex'),
       \<lparr>mBuffer = buf, mLocked = False, mSecure = s'\<rparr>)"
  from assms have n: "BufferSize \<le> length (mBuffer t)" by (simp add: trustlet_ok_def)
  have "GetRequest a = Some (hdr_zero\<lparr>command := CommandId_val c, gid := g\<rparr>)"
    using modified_request_views(1) [OF a GetRequest_fresh_api [OF n]]
    by (simp add: hdr_zero_def)
  then show ?thesis
    using a i r modified_request_views(2) [OF a GetRequest_fresh_api [OF n]] by blast
qed

theorem modified_command_request_witness:
  "trustlet_ok (new_trustlet 0x70 (0 :: nat))
    \<and> (\<exists>a. modified_request 0xe0 (length [7, 9 :: u8]) GetImage 0
          (fresh_api (new_trustlet 0x70 (0 :: nat))) = Some a
      \<and> Base a = Some (base_zero\<lparr>process_id := 0xe0, extra_buffer_size := 2\<rparr>))
    \<and> snd (fst (SendModifiedCommand echo_world [7, 9] GetImage 0 (new_trustlet 0x70 0)))
      = [7, 9]"
  using modified_command_request [of "new_trustlet 0x70 (0 :: nat)" echo_world "[7, 9]"
      GetImage 0]
  by auto

text \<open>
  C20: the client invariant. If the secure world never resizes the block or the scratch
  buffer, every call shape takes an unlocked client whose shared buffer has at least
  \<open>BufferSize\<close> bytes to such a client again, whatever the result of the call, and the
  modified-buffer command returns a scratch buffer of the length it was given.
\<close>

theorem dispatcher_keeps_trustlet_ok:
  assumes "world_ok w" and "trustlet_ok t"
  shows "trustlet_ok (snd (SendCommand w c g t))
    \<and> length (mBuffer (snd (SendCommand w c g t))) = length (mBuffer t)
    \<and> trustlet_ok (snd (SendDataCommand w c d g t))
    \<and> trustlet_ok (snd (SendModifiedCommand w ex c g t))
    \<and> length (snd (fst (SendModifiedCommand w ex c g t))) = length ex"
proof -
  have "length (snd (fst (SendModifiedCommand w ex c g t))) = length ex"
  proof (rule SendModifiedCommand_result [OF assms(2), of w ex c g])
    fix a :: API and rc buf ex' s'
    assume "invoke_modified w (mLockedBuffer a) ex (mSecure t) = (rc, (buf, ex'), s')"
      and "SendModifiedCommand w ex c g t = ((classify c rc \<lparr>mLockedBuffer = buf\<rparr>, ex'),
        \<lparr>mBuffer = buf, mLocked = False, mSecure = s'\<rparr>)"
    with exchange_modified_length(2) [OF assms(1), of ex c a "mSecure t"] show ?thesis
      by (simp add: exchange_modified_eq)
  qed
  moreover have "length (mBuffer (snd (SendCommand w c g t))) = length (mBuffer t)"
    using assms(1) by (simp add: SendCommand_def with_session_length keeps_length_SendCommand_id)
  ultimately show ?thesis
    using assms
    by (simp add: trustlet_ok_SendCommand trustlet_ok_SendDataCommand
        trustlet_ok_SendModifiedCommand)
qed

theorem dispatcher_keeps_trustlet_ok_witness:
  "world_ok echo_world \<and> trustlet_ok (new_trustlet 0x80 (0 :: nat))
    \<and> trustlet_ok (snd (SendCommand echo_world Calibrate 0 (new_trustlet 0x80 0)))
    \<and> trustlet_ok (snd (SendDataCommand echo_world Calibrate [1, 2] 0 (new_trustlet 0x80 0)))"
  using dispatcher_keeps_trustlet_ok [of echo_world "new_trustlet 0x80 (0 :: nat)" Calibrate 0
      "[1, 2]" "[]"]
  by simp

text \<open>
  The success path is reachable for every command. Against a secure world that
  answers each call by echoing the request header as the response, with \<open>ret_val\<close>
  zero and no payload, a plain command on a client with a block of at least
  \<open>BufferSize\<close> bytes returns the header it issued (the opcode, the gid, everything else
  zero) with an empty payload, the secure world has been called exactly once, and the
  client is ready for the next call.
\<close>

theorem echo_plain_command:
  assumes "BufferSize \<le> n"
  shows "fst (SendCommand echo_world c g (new_trustlet n k))
      = Inr (hdr_zero\<lparr>command := CommandId_val c, gid := g\<rparr>, [])
    \<and> mSecure (snd (SendCommand echo_world c g (new_trustlet n k))) = Suc k
    \<and> trustlet_ok (snd (SendCommand echo_world c g (new_trustlet n k)))"
proof -
  let ?t = "new_trustlet n k"
  from assms have ok: "trustlet_ok ?t" by simp
  show ?thesis
  proof (rule SendCommand_result [OF ok, of echo_world c g])
    fix a :: API and rc buf s'
    assume a: "plain_request (process_id_of echo_world) c g (fresh_api ?t) = Some a"
      and i: "invoke echo_world (mLockedBuffer a) (mSecure ?t) = (rc, buf, s')"
      and r: "SendCommand echo_world c g ?t =
        (classify c rc \<lparr>mLockedBuffer = buf\<rparr>, \<lparr>mBuffer = buf, mLocked = False, mSecure = s'\<rparr>)"
    have q: "GetRequest a = Some (hdr_zero\<lparr>command := CommandId_val c, gid := g,
        buffer_size := 0\<rparr>)"
      using plain_request_views(1) [OF a GetRequest_fresh_api] assms by simp
    have "api_ok a" using plain_request_length [OF a] assms by (simp add: api_ok_def)
    from classify_echo_reply [OF this q, of c] i r assms
    show ?thesis
      using trustlet_ok_SendCommand [OF world_ok_echo_world ok, of c g]
      by (auto simp: hdr_zero_def)
  qed
qed

theorem echo_plain_command_witness:
  "BufferSize \<le> 0x70
    \<and> fst (SendCommand echo_world OpenSpi 0 (new_trustlet 0x70 0))
      = Inr (\<lparr>process = 0, command = 0x29, gid = 0, fid = 0, buffer_size = 0\<rparr>, [])
    \<and> mSecure (snd (SendCommand echo_world OpenSpi 0 (new_trustlet 0x70 0))) = 1"
  using echo_plain_command [of "0x70" OpenSpi 0 0]
  by (simp add: hdr_zero_def)

end
