(* ===== verification/Firmware.thy ===== *)
theory Firmware
  imports Dispatcher
begin

text \<open>
  Secure worlds given by a command handler. The trustlet itself is not part of the
  repository; to state what the client does against a firmware that follows the
  protocol, a firmware is described by a handler, a function from the request header,
  the request payload and the firmware state to a return value, a response payload and
  the new state. \<open>serve\<close> is the protocol around the handler: it reads the request at
  +0x5c, runs the handler, and writes \<open>ret_val\<close>, the response header (the request header
  with the length of the response payload) and the payload with \<open>fw_reply\<close>; a block it
  cannot read or write is a failure of the call. \<open>handler_world\<close> packs this as a
  \<open>secure_world\<close>. The lemmas reduce each call shape of the dispatcher against such a
  world to one application of the handler.
\<close>

section \<open>Definitions\<close>

type_synonym 's handler = "trustlet_buffer_t \<Rightarrow> bytes \<Rightarrow> 's \<Rightarrow> (u32 \<times> bytes) \<times> 's"

definition serve :: "'s handler \<Rightarrow> bytes \<Rightarrow> 's \<Rightarrow> u32 \<times> bytes \<times> 's" where
  "serve h buf s =
     (case GetRequest \<lparr>mLockedBuffer = buf\<rparr> of
        None \<Rightarrow> (1, buf, s)
      | Some q \<Rightarrow>
          (case RequestData \<lparr>mLockedBuffer = buf\<rparr> (unat (buffer_size q)) of
             None \<Rightarrow> (1, buf, s)
           | Some d \<Rightarrow>
               (case h q d s of
                  ((rv, out), s') \<Rightarrow>
                    (case fw_reply rv q out \<lparr>mLockedBuffer = buf\<rparr> of
                       None \<Rightarrow> (1, buf, s)
                     | Some a \<Rightarrow> (0, mLockedBuffer a, s')))))"

definition handler_world :: "u32 \<Rightarrow> 's handler \<Rightarrow> 's secure_world" where
  "handler_world pid h =
     \<lparr>process_id_of = pid,
      invoke = serve h,
      invoke_modified =
        (\<lambda>buf ex s. case serve h buf s of (rc, buf', s') \<Rightarrow> (rc, (buf', ex), s'))\<rparr>"

definition client_at :: "nat \<Rightarrow> 's \<Rightarrow> 's trustlet \<Rightarrow> bool" where
  "client_at n s t \<longleftrightarrow>
     BufferSize \<le> n \<and> n < 2 ^ 32 \<and> length (mBuffer t) = n \<and> \<not> mLocked t \<and> mSecure t = s"

definition reply_result :: "trustlet_buffer_t \<Rightarrow> u32 \<Rightarrow> bytes \<Rightarrow> response result" where
  "reply_result q rv out =
     (if rv \<noteq> 0 then Inl (ProtocolError (Rejected rv))
      else Inr (q\<lparr>buffer_size := of_nat (length out)\<rparr>, out))"

section \<open>Lemmas\<close>

lemma handler_world_simps [simp]:
  "process_id_of (handler_world pid h) = pid"
  "invoke (handler_world pid h) = serve h"
  "invoke_modified (handler_world pid h) buf ex s =
     (case serve h buf s of (rc, buf', s') \<Rightarrow> (rc, (buf', ex), s'))"
  by (simp_all add: handler_world_def)

lemma length_serve [simp]: "length (fst (snd (serve h buf s))) = length buf"
  by (auto simp: serve_def split: option.splits prod.splits dest!: fw_reply_length)

lemma world_ok_handler_world [simp]: "world_ok (handler_world pid h)"
  by (auto simp: world_ok_def split: prod.splits)
    (metis fst_conv length_serve snd_conv)

lemma reply_result_simps [simp]:
  "reply_result q 0 out = Inr (q\<lparr>buffer_size := of_nat (length out)\<rparr>, out)"
  "rv \<noteq> 0 \<Longrightarrow> reply_result q rv out = Inl (ProtocolError (Rejected rv))"
  by (simp_all add: reply_result_def)

lemma serve_eq:
  assumes "GetRequest a = Some q" and "RequestData a (unat (buffer_size q)) = Some d"
    and "h q d s = ((rv, out), s')" and "0x28 + length out \<le> length (mLockedBuffer a)"
  shows "\<exists>a'. fw_reply rv q out a = Some a' \<and> serve h (mLockedBuffer a) s = (0, mLockedBuffer a', s')"
proof -
  from assms(4) obtain a' where "fw_reply rv q out a = Some a'"
    using fw_reply_defined_iff [of rv q out a] by auto
  with assms(1-3) show ?thesis by (simp add: serve_def)
qed

lemma serve_classify:
  assumes "GetRequest a = Some q" and "RequestData a (unat (buffer_size q)) = Some d"
    and "h q d s = ((rv, out), s')" and "0x28 + length out \<le> length (mLockedBuffer a)"
    and "length out < 2 ^ 32" and "command q = CommandId_val c"
  shows "\<exists>buf. length buf = length (mLockedBuffer a)
    \<and> serve h (mLockedBuffer a) s = (0, buf, s')
    \<and> classify c 0 \<lparr>mLockedBuffer = buf\<rparr> = reply_result q rv out"
proof -
  from serve_eq [where h = h, OF assms(1-4)] obtain a' where r: "fw_reply rv q out a = Some a'"
    and s: "serve h (mLockedBuffer a) s = (0, mLockedBuffer a', s')" by blast
  with classify_fw_reply [OF r assms(5), of c] assms(6) fw_reply_length [OF r]
  show ?thesis by (auto simp: reply_result_def)
qed

lemma reply_result_buffer_size [simp]:
  "reply_result (q\<lparr>buffer_size := n\<rparr>) rv out = reply_result q rv out"
  by (simp add: reply_result_def)

section \<open>Lemmas: the call shapes against a handler\<close>

lemma RequestData_empty: "api_ok a \<Longrightarrow> RequestData a 0 = Some []"
  by (simp add: RequestData_def read_bytes_def api_ok_def RequestOffset_def)

lemma SendCommand_handler:
  assumes "trustlet_ok t"
    and "h (hdr_zero\<lparr>command := CommandId_val c, gid := g\<rparr>) [] (mSecure t) = ((rv, out), s')"
    and "0x28 + length out \<le> length (mBuffer t)" and "length out < 2 ^ 32"
  shows "\<exists>buf. length buf = length (mBuffer t)
    \<and> SendCommand (handler_world pid h) c g t =
        (reply_result (hdr_zero\<lparr>command := CommandId_val c, gid := g\<rparr>) rv out,
         \<lparr>mBuffer = buf, mLocked = False, mSecure = s'\<rparr>)"
proof (rule SendCommand_result [OF assms(1), of "handler_world pid h" c g])
  fix a :: API and rc buf s1
  let ?q = "hdr_zero\<lparr>command := CommandId_val c, gid := g\<rparr>"
  assume a: "plain_request (process_id_of (handler_world pid h)) c g (fresh_api t) = Some a"
    and i: "invoke (handler_world pid h) (mLockedBuffer a) (mSecure t) = (rc, buf, s1)"
    and r: "SendCommand (handler_world pid h) c g t =
      (classify c rc \<lparr>mLockedBuffer = buf\<rparr>, \<lparr>mBuffer = buf, mLocked = False, mSecure = s1\<rparr>)"
  from assms(1) have n: "BufferSize \<le> length (mBuffer t)" by (simp add: trustlet_ok_def)
  have q: "GetRequest a = Some ?q"
    using plain_request_views(1) [OF a GetRequest_fresh_api [OF n]] by (simp add: hdr_zero_def)
  have l: "length (mLockedBuffer a) = length (mBuffer t)"
    using plain_request_length [OF a] by simp
  then have d: "RequestData a (unat (buffer_size ?q)) = Some []"
    using n by (simp add: RequestData_empty api_ok_def hdr_zero_def)
  from serve_classify [where h = h, OF q d assms(2) _ assms(4), of c] assms(3) l i r
  show ?thesis by (auto simp: hdr_zero_def)
qed

lemma SendDataCommand_handler:
  assumes "trustlet_ok t" and "length d \<le> length (mBuffer t) - BufferSize"
    and "length (mBuffer t) < 2 ^ 32"
    and "h (hdr_zero\<lparr>command := CommandId_val c, gid := g, buffer_size := of_nat (length d)\<rparr>)
           d (mSecure t) = ((rv, out), s')"
    and "0x28 + length out \<le> length (mBuffer t)"
  shows "\<exists>buf. length buf = length (mBuffer t)
    \<and> SendDataCommand (handler_world pid h) c d g t =
        (reply_result (hdr_zero\<lparr>command := CommandId_val c, gid := g\<rparr>) rv out,
         \<lparr>mBuffer = buf, mLocked = False, mSecure = s'\<rparr>)"
proof (rule SendDataCommand_result [OF assms(1,2), of "handler_world pid h" c g])
  fix a :: API and rc buf s1
  let ?q = "hdr_zero\<lparr>command := CommandId_val c, gid := g, buffer_size := of_nat (length d)\<rparr>"
  assume a: "data_request (process_id_of (handler_world pid h)) c d g (fresh_api t) = Some a"
    and i: "invoke (handler_world pid h) (mLockedBuffer a) (mSecure t) = (rc, buf, s1)"
    and r: "SendDataCommand (handler_world pid h) c d g t =
      (classify c rc \<lparr>mLockedBuffer = buf\<rparr>, \<lparr>mBuffer = buf, mLocked = False, mSecure = s1\<rparr>)"
  from assms(1) have n: "BufferSize \<le> length (mBuffer t)" by (simp add: trustlet_ok_def)
  have q: "GetRequest a = Some ?q"
    using data_request_views(1) [OF a GetRequest_fresh_api [OF n]] by (simp add: hdr_zero_def)
  have l: "length (mLockedBuffer a) = length (mBuffer t)"
    using data_request_length [OF a] by simp
  have u: "unat (of_nat (length d) :: u32) = length d"
    using assms(2,3) by (simp add: unat_of_nat)
  then have d: "RequestData a (unat (buffer_size ?q)) = Some d"
    using data_request_views(2) [OF a GetRequest_fresh_api [OF n]] by simp
  have o: "length out < 2 ^ 32" using assms(3,5) by simp
  from serve_classify [where h = h, OF q d assms(4) _ o, of c] assms(5) l i r
  show ?thesis by (auto simp: hdr_zero_def reply_result_def)
qed

lemma SendModifiedCommand_handler:
  assumes "trustlet_ok t"
    and "h (hdr_zero\<lparr>command := CommandId_val c, gid := g\<rparr>) [] (mSecure t) = ((rv, out), s')"
    and "0x28 + length out \<le> length (mBuffer t)" and "length out < 2 ^ 32"
  shows "\<exists>buf. length buf = length (mBuffer t)
    \<and> SendModifiedCommand (handler_world pid h) ex c g t =
        ((reply_result (hdr_zero\<lparr>command := CommandId_val c, gid := g\<rparr>) rv out, ex),
         \<lparr>mBuffer = buf, mLocked = False, mSecure = s'\<rparr>)"
proof (rule SendModifiedCommand_result [OF assms(1), of "handler_world pid h" ex c g])
  fix a :: API and rc buf ex' s1
  let ?q = "hdr_zero\<lparr>command := CommandId_val c, gid := g\<rparr>"
  assume a: "modified_request (process_id_of (handler_world pid h)) (length ex) c g (fresh_api t)
      = Some a"
    and i: "invoke_modified (handler_world pid h) (mLockedBuffer a) ex (mSecure t)
      = (rc, (buf, ex'), s1)"
    and r: "SendModifiedCommand (handler_world pid h) ex c g t =
      ((classify c rc \<lparr>mLockedBuffer = buf\<rparr>, ex'),
       \<lparr>mBuffer = buf, mLocked = False, mSecure = s1\<rparr>)"
  from assms(1) have n: "BufferSize \<le> length (mBuffer t)" by (simp add: trustlet_ok_def)
  have q: "GetRequest a = Some ?q"
    using modified_request_views(1) [OF a GetRequest_fresh_api [OF n]]
    by (simp add: hdr_zero_def)
  have l: "length (mLockedBuffer a) = length (mBuffer t)"
    using modified_request_length [OF a] by simp
  then have d: "RequestData a (unat (buffer_size ?q)) = Some []"
    using n by (simp add: RequestData_empty api_ok_def hdr_zero_def)
  from serve_classify [where h = h, OF q d assms(2) _ assms(4), of c] assms(3) l i r
  show ?thesis by (auto simp: hdr_zero_def)
qed

section \<open>Lemmas: chaining calls\<close>

lemma client_at_trustlet_ok: "client_at n s t \<Longrightarrow> trustlet_ok t"
  by (simp add: client_at_def trustlet_ok_def)

lemma client_at_new_trustlet [simp]:
  "client_at n s (new_trustlet n s) \<longleftrightarrow> BufferSize \<le> n \<and> n < 2 ^ 32"
  by (auto simp: client_at_def)

lemma client_at_step:
  assumes "client_at n s t"
    and "\<exists>buf. length buf = length (mBuffer t)
      \<and> x = (r, \<lparr>mBuffer = buf, mLocked = False, mSecure = s'\<rparr>)"
  shows "\<exists>t'. x = (r, t') \<and> client_at n s' t'"
  using assms by (auto simp: client_at_def)

lemma SendCommand_at:
  assumes "client_at n s t"
    and "h (hdr_zero\<lparr>command := CommandId_val c, gid := g\<rparr>) [] s = ((rv, out), s')"
    and "0x28 + length out \<le> n"
  shows "\<exists>t'. SendCommand (handler_world pid h) c g t =
        (reply_result (hdr_zero\<lparr>command := CommandId_val c, gid := g\<rparr>) rv out, t')
    \<and> client_at n s' t'"
proof (rule client_at_step [OF assms(1)])
  from assms have "h (hdr_zero\<lparr>command := CommandId_val c, gid := g\<rparr>) [] (mSecure t)
      = ((rv, out), s')" "0x28 + length out \<le> length (mBuffer t)" "length out < 2 ^ 32"
    by (simp_all add: client_at_def)
  then show "\<exists>buf. length buf = length (mBuffer t)
      \<and> SendCommand (handler_world pid h) c g t =
        (reply_result (hdr_zero\<lparr>command := CommandId_val c, gid := g\<rparr>) rv out,
         \<lparr>mBuffer = buf, mLocked = False, mSecure = s'\<rparr>)"
    by (rule SendCommand_handler [OF client_at_trustlet_ok [OF assms(1)]])
qed

lemma SendDataCommand_at:
  assumes "client_at n s t" and "BufferSize + length d \<le> n"
    and "h (hdr_zero\<lparr>command := CommandId_val c, gid := g, buffer_size := of_nat (length d)\<rparr>)
           d s = ((rv, out), s')"
    and "0x28 + length out \<le> n"
  shows "\<exists>t'. SendDataCommand (handler_world pid h) c d g t =
        (reply_result (hdr_zero\<lparr>command := CommandId_val c, gid := g\<rparr>) rv out, t')
    \<and> client_at n s' t'"
proof (rule client_at_step [OF assms(1)])
  from assms have "length d \<le> length (mBuffer t) - BufferSize" "length (mBuffer t) < 2 ^ 32"
    "h (hdr_zero\<lparr>command := CommandId_val c, gid := g, buffer_size := of_nat (length d)\<rparr>)
       d (mSecure t) = ((rv, out), s')" "0x28 + length out \<le> length (mBuffer t)"
    by (simp_all add: client_at_def)
  then show "\<exists>buf. length buf = length (mBuffer t)
      \<and> SendDataCommand (handler_world pid h) c d g t =
        (reply_result (hdr_zero\<lparr>command := CommandId_val c, gid := g\<rparr>) rv out,
         \<lparr>mBuffer = buf, mLocked = False, mSecure = s'\<rparr>)"
    by (rule SendDataCommand_handler [OF client_at_trustlet_ok [OF assms(1)]])
qed

lemma SendModifiedCommand_at:
  assumes "client_at n s t"
    and "h (hdr_zero\<lparr>command := CommandId_val c, gid := g\<rparr>) [] s = ((rv, out), s')"
    and "0x28 + length out \<le> n"
  shows "\<exists>t'. SendModifiedCommand (handler_world pid h) ex c g t =
        ((reply_result (hdr_zero\<lparr>command := CommandId_val c, gid := g\<rparr>) rv out, ex), t')
    \<and> client_at n s' t'"
proof (rule client_at_step [OF assms(1)])
  from assms have "h (hdr_zero\<lparr>command := CommandId_val c, gid := g\<rparr>) [] (mSecure t)
      = ((rv, out), s')" "0x28 + length out \<le> length (mBuffer t)" "length out < 2 ^ 32"
    by (simp_all add: client_at_def)
  then show "\<exists>buf. length buf = length (mBuffer t)
      \<and> SendModifiedCommand (handler_world pid h) ex c g t =
        ((reply_result (hdr_zero\<lparr>command := CommandId_val c, gid := g\<rparr>) rv out, ex),
         \<lparr>mBuffer = buf, mLocked = False, mSecure = s'\<rparr>)"
    by (rule SendModifiedCommand_handler [OF client_at_trustlet_ok [OF assms(1)]])
qed

end
