(* ===== verification/Operations.thy ===== *)
theory Operations
  imports Firmware
begin

text \<open>
  The public operations of \<^verbatim>\<open>EGISAPTrustlet\<close> declared at lines 159--180 of
  \<^verbatim>\<open>EGISAPTrustlet.h\<close>. The datatypes \<open>call\<close> and \<open>reply\<close> are the interface as the header
  declares it: one constructor per member function with its input parameters, and one
  constructor per kind of output (the out-parameters and the one non-\<^verbatim>\<open>int\<close> return
  value). The bodies are outside the sources; the sensor control and image operations are
  modelled here from the design document as single dispatcher calls with a payload
  encoder before and a payload decoder after. An operation whose name is also an opcode
  of \<^verbatim>\<open>CommandId\<close> carries the suffix \<open>_op\<close>.
\<close>

section \<open>The interface\<close>

datatype call =
    Call_Calibrate
  | Call_GetPrintIds u32
  | Call_InitializeAlgo
  | Call_InitializeSensor
  | Call_SetDataPath bytes
  | Call_SetMasterKey bytes
  | Call_SetUserDataPath u32 bytes
  | Call_SetWorkMode u32
  | Call_GetAuthenticatorId
  | Call_GetImage
  | Call_IsFingerLost u32
  | Call_SetSpiState u32
  | Call_CheckAuthToken bytes
  | Call_CheckSecureId u32 u64
  | Call_Enroll u32 u32
  | Call_GetNewPrintId u32
  | Call_InitializeEnroll
  | Call_SaveEnrolledPrint u32 u64
  | Call_FinalizeEnroll

datatype reply =
    Done
  | PrintIds "u32 list"
  | AuthenticatorId u64
  | Quality ImageResult
  | FingerStatus ImageResult
  | EnrollResult enroll_result_t
  | NewPrintId u32

section \<open>Payload encoders and decoders\<close>

definition c_string :: "bytes \<Rightarrow> bytes" where
  "c_string path = takeWhile (\<lambda>b. b \<noteq> 0) path @ [0]"

definition then_decode ::
  "(response \<Rightarrow> 'a result) \<Rightarrow> response result \<times> 's \<Rightarrow> 'a result \<times> 's" where
  "then_decode f x = (case x of (r, t) \<Rightarrow> (bind_result r f, t))"

definition decode_done :: "response \<Rightarrow> unit result" where
  "decode_done x = Inr ()"

definition decode_u64 :: "response \<Rightarrow> u64 result" where
  "decode_u64 x =
     (case x of (r, d) \<Rightarrow>
        if length d < 8 then Inl (ProtocolError (BadLength (buffer_size r)))
        else Inr (le_word (take 8 d)))"

definition decode_print_ids :: "response \<Rightarrow> u32 list result" where
  "decode_print_ids x = (case x of (r, d) \<Rightarrow> Inr (bytes_u32s (length d div 4) d))"

definition decode_image_result :: "response \<Rightarrow> ImageResult result" where
  "decode_image_result x =
     (case x of (r, d) \<Rightarrow>
        if length d < 4 then Inl (ProtocolError (BadLength (buffer_size r)))
        else (case ImageResult_of (le_word (take 4 d)) of
                None \<Rightarrow> Inl (ProtocolError (UnexpectedStatus (le_word (take 4 d))))
              | Some i \<Rightarrow> Inr i))"

section \<open>Sensor control operations\<close>

definition InitializeAlgo_op :: "'tz secure_world \<Rightarrow> 'tz trustlet \<Rightarrow> unit result \<times> 'tz trustlet" where
  "InitializeAlgo_op w t = then_decode decode_done (SendCommand w InitializeAlgo 0 t)"

definition InitializeSensor_op :: "'tz secure_world \<Rightarrow> 'tz trustlet \<Rightarrow> unit result \<times> 'tz trustlet" where
  "InitializeSensor_op w t = then_decode decode_done (SendCommand w InitializeSensor 0 t)"

definition Calibrate_op :: "'tz secure_world \<Rightarrow> 'tz trustlet \<Rightarrow> unit result \<times> 'tz trustlet" where
  "Calibrate_op w t = then_decode decode_done (SendCommand w Calibrate 0 t)"

definition SetSpiState :: "'tz secure_world \<Rightarrow> u32 \<Rightarrow> 'tz trustlet \<Rightarrow> unit result \<times> 'tz trustlet" where
  "SetSpiState w on t =
     then_decode decode_done (SendCommand w (if on \<noteq> 0 then OpenSpi else CloseSpi) 0 t)"

definition SetMasterKey_op ::
  "'tz secure_world \<Rightarrow> bytes \<Rightarrow> 'tz trustlet \<Rightarrow> unit result \<times> 'tz trustlet" where
  "SetMasterKey_op w key t = then_decode decode_done (SendDataCommand w SetMasterKey key 0 t)"

definition SetWorkMode_op ::
  "'tz secure_world \<Rightarrow> u32 \<Rightarrow> 'tz trustlet \<Rightarrow> unit result \<times> 'tz trustlet" where
  "SetWorkMode_op w mode t =
     then_decode decode_done (SendDataCommand w SetWorkMode (le_bytes 4 mode) 0 t)"

definition SetDataPath_op ::
  "'tz secure_world \<Rightarrow> bytes \<Rightarrow> 'tz trustlet \<Rightarrow> unit result \<times> 'tz trustlet" where
  "SetDataPath_op w path t =
     then_decode decode_done (SendDataCommand w SetDataPath (c_string path) 0 t)"

definition SetUserDataPath_op ::
  "'tz secure_world \<Rightarrow> u32 \<Rightarrow> bytes \<Rightarrow> 'tz trustlet \<Rightarrow> unit result \<times> 'tz trustlet" where
  "SetUserDataPath_op w g path t =
     then_decode decode_done (SendDataCommand w SetUserDataPath (c_string path) g t)"

definition GetAuthenticatorId_op ::
  "'tz secure_world \<Rightarrow> 'tz trustlet \<Rightarrow> u64 result \<times> 'tz trustlet" where
  "GetAuthenticatorId_op w t = then_decode decode_u64 (SendCommand w GetAuthenticatorId 0 t)"

definition GetPrintIds_op ::
  "'tz secure_world \<Rightarrow> u32 \<Rightarrow> 'tz trustlet \<Rightarrow> u32 list result \<times> 'tz trustlet" where
  "GetPrintIds_op w g t = then_decode decode_print_ids (SendCommand w GetPrintIds g t)"

section \<open>Image acquisition\<close>

definition GetImage_op ::
  "'tz secure_world \<Rightarrow> bytes \<Rightarrow> 'tz trustlet \<Rightarrow> (ImageResult result \<times> bytes) \<times> 'tz trustlet" where
  "GetImage_op w ex t =
     (case SendModifiedCommand w ex GetImage 0 t of
        ((r, ex'), t') \<Rightarrow> ((bind_result r decode_image_result, ex'), t'))"

definition IsFingerLost_op ::
  "'tz secure_world \<Rightarrow> u32 \<Rightarrow> 'tz trustlet \<Rightarrow> ImageResult result \<times> 'tz trustlet" where
  "IsFingerLost_op w timeout t =
     then_decode decode_image_result (SendCommand w IsFingerLost timeout t)"

lemmas operation_defs [wire_defs] =
  c_string_def then_decode_def decode_done_def decode_u64_def decode_print_ids_def
  decode_image_result_def InitializeAlgo_op_def InitializeSensor_op_def Calibrate_op_def
  SetSpiState_def SetMasterKey_op_def SetWorkMode_op_def SetDataPath_op_def
  SetUserDataPath_op_def GetAuthenticatorId_op_def GetPrintIds_op_def GetImage_op_def
  IsFingerLost_op_def

section \<open>Lemmas: decoders\<close>

lemma then_decode_simps [simp]:
  "then_decode f (Inl e, t) = (Inl e, t)" "then_decode f (Inr x, t) = (f x, t)"
  by (simp_all add: then_decode_def)

lemma snd_then_decode [simp]: "snd (then_decode f x) = snd x"
  by (cases x) (simp add: then_decode_def)

lemma then_decode_transport:
  "fst x = Inl (TransportError rc) \<Longrightarrow> fst (then_decode f x) = Inl (TransportError rc)"
  by (cases x) (simp add: then_decode_def)

lemma c_string_terminated: "last (c_string path) = 0" "0 \<notin> set (butlast (c_string path))"
  by (auto simp: c_string_def dest: set_takeWhileD)

lemma c_string_no_nul: "0 \<notin> set path \<Longrightarrow> c_string path = path @ [0]"
  by (auto simp: c_string_def takeWhile_eq_all_conv)

lemma length_c_string: "length (c_string path) \<le> Suc (length path)"
  by (simp add: c_string_def length_takeWhile_le)

lemma decode_print_ids_u32s [simp]: "decode_print_ids (r, u32s_bytes ids) = Inr ids"
  by (simp add: decode_print_ids_def)

lemma decode_print_ids_count:
  "decode_print_ids (r, d) = Inr ids \<Longrightarrow> length ids = length d div 4"
  by (auto simp: decode_print_ids_def)

lemma decode_image_result_val [simp]:
  "decode_image_result (r, le_bytes 4 (ImageResult_val i) @ rest) = Inr i"
  by (simp add: decode_image_result_def)

lemma decode_image_result_Inr_iff:
  "decode_image_result (r, d) = Inr i \<longleftrightarrow>
     4 \<le> length d \<and> le_word (take 4 d) = ImageResult_val i"
  by (auto simp: decode_image_result_def ImageResult_of_Some_iff ImageResult_val_inj
      split: option.splits)

lemma decode_u64_val [simp]: "decode_u64 (r, le_bytes 8 v @ rest) = Inr v"
  by (simp add: decode_u64_def)

section \<open>Lemmas: the client invariant\<close>

lemma GetImage_op_simps:
  "fst (fst (GetImage_op w ex t)) =
     bind_result (fst (fst (SendModifiedCommand w ex GetImage 0 t))) decode_image_result"
  "snd (fst (GetImage_op w ex t)) = snd (fst (SendModifiedCommand w ex GetImage 0 t))"
  "snd (GetImage_op w ex t) = snd (SendModifiedCommand w ex GetImage 0 t)"
  by (simp_all add: GetImage_op_def split: prod.splits)

lemma trustlet_ok_operations:
  assumes "world_ok w" and "trustlet_ok t"
  shows "trustlet_ok (snd (InitializeAlgo_op w t))"
    and "trustlet_ok (snd (InitializeSensor_op w t))"
    and "trustlet_ok (snd (Calibrate_op w t))"
    and "trustlet_ok (snd (SetSpiState w on t))"
    and "trustlet_ok (snd (SetMasterKey_op w key t))"
    and "trustlet_ok (snd (SetWorkMode_op w mode t))"
    and "trustlet_ok (snd (SetDataPath_op w path t))"
    and "trustlet_ok (snd (SetUserDataPath_op w g path t))"
    and "trustlet_ok (snd (GetAuthenticatorId_op w t))"
    and "trustlet_ok (snd (GetPrintIds_op w g t))"
    and "trustlet_ok (snd (IsFingerLost_op w timeout t))"
    and "trustlet_ok (snd (GetImage_op w ex t))"
  using assms
  by (simp_all add: InitializeAlgo_op_def InitializeSensor_op_def Calibrate_op_def
      SetSpiState_def SetMasterKey_op_def SetWorkMode_op_def SetDataPath_op_def
      SetUserDataPath_op_def GetAuthenticatorId_op_def GetPrintIds_op_def IsFingerLost_op_def
      GetImage_op_simps trustlet_ok_SendCommand trustlet_ok_SendDataCommand
      trustlet_ok_SendModifiedCommand)

lemma u32s_bytes_prefix:
  assumes "4 * k \<le> length d"
  shows "u32s_bytes (bytes_u32s k d) = take (4 * k) d"
proof -
  from assms have l: "length (take (4 * k) d) = 4 * k" by simp
  have "bytes_u32s k d = bytes_u32s k (take (4 * k) d @ drop (4 * k) d)" by simp
  also have "\<dots> = bytes_u32s k (take (4 * k) d)" by (rule bytes_u32s_append [OF l])
  finally show ?thesis by (simp add: u32s_bytes_bytes_u32s [OF l])
qed

section \<open>Properties\<close>

text \<open>
  C24: The list of print ids that \<^verbatim>\<open>GetPrintIds\<close> decodes consists of the complete 32-bit
  words of the response payload: the encoding of a list of ids decodes to that list, and
  whatever the payload is, the number of decoded ids is the payload length divided by the
  size of an id and their encoding is the payload up to its last complete word.
\<close>
theorem print_ids_decode:
  "decode_print_ids (r, u32s_bytes ids) = Inr ids \<and>
   (decode_print_ids (r, d) = Inr ids' \<longrightarrow>
      length ids' = length d div 4 \<and> u32s_bytes ids' = take (4 * (length d div 4)) d)"
  by (auto simp: decode_print_ids_def u32s_bytes_prefix)

theorem print_ids_decode_witness:
  "decode_print_ids (hdr_zero, [1, 0, 0, 0, 2, 0, 0, 0, 9]) = Inr [1, 2]
   \<and> length [1, 2 :: u32] = length [1, 0, 0, 0, 2, 0, 0, 0, 9 :: u8] div 4
   \<and> u32s_bytes [1, 2] = take (4 * (length [1, 0, 0, 0, 2, 0, 0, 0, 9 :: u8] div 4))
       [1, 0, 0, 0, 2, 0, 0, 0, 9]"
proof -
  have d: "decode_print_ids (hdr_zero, [1, 0, 0, 0, 2, 0, 0, 0, 9]) = Inr [1, 2]"
    by (simp add: decode_print_ids_def bytes_u32s_def word_at_def le_word_def upt_rec)
  with print_ids_decode [of hdr_zero "[1, 2]" "[1, 0, 0, 0, 2, 0, 0, 0, 9]" "[1, 2]"]
  show ?thesis by simp
qed

end
