(* ===== verification/Enrollment.thy ===== *)
theory Enrollment
  imports Operations
begin

text \<open>
  The enrollment operations of \<^verbatim>\<open>EGISAPTrustlet\<close> (lines 173--180 of \<^verbatim>\<open>EGISAPTrustlet.h\<close>:
  \<^verbatim>\<open>CheckAuthToken\<close>, \<^verbatim>\<open>CheckSecureId\<close>, \<^verbatim>\<open>GetNewPrintId\<close>, \<^verbatim>\<open>InitializeEnroll\<close>, \<^verbatim>\<open>Enroll\<close>,
  \<^verbatim>\<open>FinalizeEnroll\<close>, \<^verbatim>\<open>SaveEnrolledPrint\<close>) and the state machine the design document
  builds from them. The bodies are outside the sources and are modelled from the design
  document. The state \<open>hal\<close> of the caller's side is the client of \<open>Session\<close>, the
  position in the enrollment sequence, and the remaining stream of candidate print ids
  (the source of fresh ids, which the program draws at random).

  An enrollment operation that is not enabled in the current position is refused with
  \<open>OrderViolation\<close> before anything is sent; an operation that fails, for any reason,
  puts the sequence back to \<open>Idle\<close>. The relation \<open>enroll_trans\<close> is the diagram of the
  design document; \<open>perform\<close> runs one call of the interface, and the lemmas show that
  it moves along the diagram.
\<close>

section \<open>State\<close>

datatype enroll_state =
    Idle
  | TokenVerified
  | SecureIdVerified u32
  | PrintIdAllocated u32 u32
  | Enrolling u32 u32 nat
  | Finalized u32 u32

record 'tz hal =
  hTrustlet :: "'tz trustlet"
  hEnroll :: enroll_state
  hRandom :: "u32 list"
  hScratch :: bytes

definition new_hal :: "nat \<Rightarrow> 'tz \<Rightarrow> u32 list \<Rightarrow> bytes \<Rightarrow> 'tz hal" where
  "new_hal n s rs ex =
     \<lparr>hTrustlet = new_trustlet n s, hEnroll = Idle, hRandom = rs, hScratch = ex\<rparr>"

section \<open>Guards and the effect of a step on the position\<close>

definition violation :: "'tz hal \<Rightarrow> 'a result \<times> 'tz hal" where
  "violation h = (Inl OrderViolation, h\<lparr>hEnroll := Idle\<rparr>)"

definition advance ::
  "('a \<Rightarrow> enroll_state) \<Rightarrow> ('tz trustlet \<Rightarrow> 'a result \<times> 'tz trustlet) \<Rightarrow> 'tz hal \<Rightarrow>
     'a result \<times> 'tz hal" where
  "advance nxt f h =
     (case f (hTrustlet h) of
        (r, t') \<Rightarrow>
          (r, h\<lparr>hTrustlet := t', hEnroll := (case r of Inl e \<Rightarrow> Idle | Inr x \<Rightarrow> nxt x)\<rparr>))"

definition unguarded ::
  "('tz trustlet \<Rightarrow> 'a result \<times> 'tz trustlet) \<Rightarrow> 'tz hal \<Rightarrow> 'a result \<times> 'tz hal" where
  "unguarded f h = (case f (hTrustlet h) of (r, t') \<Rightarrow> (r, h\<lparr>hTrustlet := t'\<rparr>))"

section \<open>Requests that carry a finger id\<close>

definition set_request_fid :: "u32 \<Rightarrow> API \<Rightarrow> API option" where
  "set_request_fid f api =
     (case GetRequest api of None \<Rightarrow> None | Some q \<Rightarrow> SetRequest (q\<lparr>fid := f\<rparr>) api)"

definition SendCommand_fid ::
  "'tz secure_world \<Rightarrow> CommandId \<Rightarrow> u32 \<Rightarrow> u32 \<Rightarrow> 'tz trustlet \<Rightarrow>
     response result \<times> 'tz trustlet" where
  "SendCommand_fid w c g f t =
     with_session t (Inl LockHeld)
       (\<lambda>api s. case set_request_fid f api of
                  None \<Rightarrow> (Inl BufferFault, api, s)
                | Some api1 \<Rightarrow> SendCommand_id w c g api1 s)"

definition decode_enroll_result :: "response \<Rightarrow> enroll_result_t result" where
  "decode_enroll_result x =
     (case x of (r, d) \<Rightarrow>
        if length d < sizeof_enroll_result_t
        then Inl (ProtocolError (BadLength (buffer_size r)))
        else Inr (dec enroll_result_codec (take sizeof_enroll_result_t d)))"

definition pick_fresh :: "u32 list \<Rightarrow> u32 list \<Rightarrow> u32 option \<times> u32 list" where
  "pick_fresh ids rs =
     (case dropWhile (\<lambda>i. i \<in> set ids) rs of
        [] \<Rightarrow> (None, [])
      | i # rest \<Rightarrow> (Some i, rest))"

section \<open>The enrollment operations\<close>

definition CheckAuthToken_op ::
  "'tz secure_world \<Rightarrow> bytes \<Rightarrow> 'tz hal \<Rightarrow> unit result \<times> 'tz hal" where
  "CheckAuthToken_op w token h =
     (case hEnroll h of
        Idle \<Rightarrow>
          advance (\<lambda>_. TokenVerified)
            (\<lambda>t. then_decode decode_done (SendDataCommand w CheckAuthToken token 0 t)) h
      | _ \<Rightarrow> violation h)"

definition CheckSecureId_op ::
  "'tz secure_world \<Rightarrow> u32 \<Rightarrow> u64 \<Rightarrow> 'tz hal \<Rightarrow> unit result \<times> 'tz hal" where
  "CheckSecureId_op w g user_id h =
     (case hEnroll h of
        TokenVerified \<Rightarrow>
          advance (\<lambda>_. SecureIdVerified g)
            (\<lambda>t. then_decode decode_done
                    (SendDataCommand w CheckSecureId (le_bytes 8 user_id) g t)) h
      | _ \<Rightarrow> violation h)"

definition GetNewPrintId :: "'tz secure_world \<Rightarrow> u32 \<Rightarrow> 'tz hal \<Rightarrow> u32 result \<times> 'tz hal" where
  "GetNewPrintId w g h =
     (case hEnroll h of
        SecureIdVerified g' \<Rightarrow>
          if g' \<noteq> g then violation h
          else
            (case GetPrintIds_op w g (hTrustlet h) of
               (Inl e, t') \<Rightarrow> (Inl e, h\<lparr>hTrustlet := t', hEnroll := Idle\<rparr>)
             | (Inr ids, t') \<Rightarrow>
                 (case pick_fresh ids (hRandom h) of
                    (None, rs) \<Rightarrow>
                      (Inl Exhausted, h\<lparr>hTrustlet := t', hEnroll := Idle, hRandom := rs\<rparr>)
                  | (Some i, rs) \<Rightarrow>
                      (Inr i, h\<lparr>hTrustlet := t', hEnroll := PrintIdAllocated g i,
                                 hRandom := rs\<rparr>)))
      | _ \<Rightarrow> violation h)"

definition InitializeEnroll_op :: "'tz secure_world \<Rightarrow> 'tz hal \<Rightarrow> unit result \<times> 'tz hal" where
  "InitializeEnroll_op w h =
     (case hEnroll h of
        PrintIdAllocated g f \<Rightarrow>
          advance (\<lambda>_. Enrolling g f 0)
            (\<lambda>t. then_decode decode_done (SendCommand w InitializeEnroll 0 t)) h
      | _ \<Rightarrow> violation h)"

definition Enroll_op ::
  "'tz secure_world \<Rightarrow> u32 \<Rightarrow> u32 \<Rightarrow> 'tz hal \<Rightarrow> enroll_result_t result \<times> 'tz hal" where
  "Enroll_op w g f h =
     (case hEnroll h of
        Enrolling g' f' n \<Rightarrow>
          if g' = g \<and> f' = f
          then advance (\<lambda>_. Enrolling g f (Suc n))
                 (\<lambda>t. then_decode decode_enroll_result (SendCommand_fid w Enroll g f t)) h
          else violation h
      | _ \<Rightarrow> violation h)"

definition FinalizeEnroll_op :: "'tz secure_world \<Rightarrow> 'tz hal \<Rightarrow> unit result \<times> 'tz hal" where
  "FinalizeEnroll_op w h =
     (case hEnroll h of
        Enrolling g f n \<Rightarrow>
          if 0 < n
          then advance (\<lambda>_. Finalized g f)
                 (\<lambda>t. then_decode decode_done (SendCommand w FinalizeEnroll 0 t)) h
          else violation h
      | _ \<Rightarrow> violation h)"

definition SaveEnrolledPrint_op ::
  "'tz secure_world \<Rightarrow> u32 \<Rightarrow> u64 \<Rightarrow> 'tz hal \<Rightarrow> unit result \<times> 'tz hal" where
  "SaveEnrolledPrint_op w g f64 h =
     (case hEnroll h of
        Finalized g' f' \<Rightarrow>
          if g' = g \<and> ucast f' = f64
          then advance (\<lambda>_. Idle)
                 (\<lambda>t. then_decode decode_done
                         (SendCommand_fid w SaveEnrolledPrint g (ucast f64) t)) h
          else violation h
      | _ \<Rightarrow> violation h)"

section \<open>One call of the interface\<close>

definition as_reply :: "('a \<Rightarrow> reply) \<Rightarrow> 'a result \<times> 's \<Rightarrow> reply result \<times> 's" where
  "as_reply f x = (case x of (r, s) \<Rightarrow> (bind_result r (\<lambda>v. Inr (f v)), s))"

fun perform :: "'tz secure_world \<Rightarrow> call \<Rightarrow> 'tz hal \<Rightarrow> reply result \<times> 'tz hal" where
  "perform w Call_Calibrate h = as_reply (\<lambda>_. Done) (unguarded (Calibrate_op w) h)"
| "perform w (Call_GetPrintIds g) h = as_reply PrintIds (unguarded (GetPrintIds_op w g) h)"
| "perform w Call_InitializeAlgo h = as_reply (\<lambda>_. Done) (unguarded (InitializeAlgo_op w) h)"
| "perform w Call_InitializeSensor h =
     as_reply (\<lambda>_. Done) (unguarded (InitializeSensor_op w) h)"
| "perform w (Call_SetDataPath p) h = as_reply (\<lambda>_. Done) (unguarded (SetDataPath_op w p) h)"
| "perform w (Call_SetMasterKey k) h = as_reply (\<lambda>_. Done) (unguarded (SetMasterKey_op w k) h)"
| "perform w (Call_SetUserDataPath g p) h =
     as_reply (\<lambda>_. Done) (unguarded (SetUserDataPath_op w g p) h)"
| "perform w (Call_SetWorkMode m) h = as_reply (\<lambda>_. Done) (unguarded (SetWorkMode_op w m) h)"
| "perform w Call_GetAuthenticatorId h =
     as_reply AuthenticatorId (unguarded (GetAuthenticatorId_op w) h)"
| "perform w Call_GetImage h =
     (case GetImage_op w (hScratch h) (hTrustlet h) of
        ((r, ex'), t') \<Rightarrow>
          (bind_result r (\<lambda>i. Inr (Quality i)), h\<lparr>hTrustlet := t', hScratch := ex'\<rparr>))"
| "perform w (Call_IsFingerLost timeout) h =
     as_reply FingerStatus (unguarded (IsFingerLost_op w timeout) h)"
| "perform w (Call_SetSpiState on) h = as_reply (\<lambda>_. Done) (unguarded (SetSpiState w on) h)"
| "perform w (Call_CheckAuthToken tok) h = as_reply (\<lambda>_. Done) (CheckAuthToken_op w tok h)"
| "perform w (Call_CheckSecureId g u) h = as_reply (\<lambda>_. Done) (CheckSecureId_op w g u h)"
| "perform w (Call_Enroll g f) h = as_reply EnrollResult (Enroll_op w g f h)"
| "perform w (Call_GetNewPrintId g) h = as_reply NewPrintId (GetNewPrintId w g h)"
| "perform w Call_InitializeEnroll h = as_reply (\<lambda>_. Done) (InitializeEnroll_op w h)"
| "perform w (Call_SaveEnrolledPrint g f) h =
     as_reply (\<lambda>_. Done) (SaveEnrolledPrint_op w g f h)"
| "perform w Call_FinalizeEnroll h = as_reply (\<lambda>_. Done) (FinalizeEnroll_op w h)"

fun perform_all ::
  "'tz secure_world \<Rightarrow> call list \<Rightarrow> 'tz hal \<Rightarrow> reply result list \<times> 'tz hal" where
  "perform_all w [] h = ([], h)"
| "perform_all w (c # cs) h =
     (case perform w c h of
        (r, h') \<Rightarrow> (case perform_all w cs h' of (rs, h'') \<Rightarrow> (r # rs, h'')))"

section \<open>The diagram\<close>

fun is_enroll_call :: "call \<Rightarrow> bool" where
  "is_enroll_call (Call_CheckAuthToken tok) = True"
| "is_enroll_call (Call_CheckSecureId g u) = True"
| "is_enroll_call (Call_Enroll g f) = True"
| "is_enroll_call (Call_GetNewPrintId g) = True"
| "is_enroll_call Call_InitializeEnroll = True"
| "is_enroll_call (Call_SaveEnrolledPrint g f) = True"
| "is_enroll_call Call_FinalizeEnroll = True"
| "is_enroll_call _ = False"

inductive enroll_trans :: "enroll_state \<Rightarrow> call \<Rightarrow> enroll_state \<Rightarrow> bool" where
  token: "enroll_trans Idle (Call_CheckAuthToken tok) TokenVerified"
| secure_id: "enroll_trans TokenVerified (Call_CheckSecureId g u) (SecureIdVerified g)"
| new_id: "enroll_trans (SecureIdVerified g) (Call_GetNewPrintId g) (PrintIdAllocated g f)"
| initialize: "enroll_trans (PrintIdAllocated g f) Call_InitializeEnroll (Enrolling g f 0)"
| enroll: "enroll_trans (Enrolling g f n) (Call_Enroll g f) (Enrolling g f (Suc n))"
| finalize: "0 < n \<Longrightarrow> enroll_trans (Enrolling g f n) Call_FinalizeEnroll (Finalized g f)"
| save: "enroll_trans (Finalized g f) (Call_SaveEnrolledPrint g (ucast f)) Idle"

inductive_cases enroll_trans_cases [elim!]:
  "enroll_trans s (Call_CheckAuthToken tok) s'"
  "enroll_trans s (Call_CheckSecureId g u) s'"
  "enroll_trans s (Call_GetNewPrintId g) s'"
  "enroll_trans s Call_InitializeEnroll s'"
  "enroll_trans s (Call_Enroll g f) s'"
  "enroll_trans s Call_FinalizeEnroll s'"
  "enroll_trans s (Call_SaveEnrolledPrint g f64) s'"

inductive_simps enroll_trans_from [simp]:
  "enroll_trans Idle c s'"
  "enroll_trans TokenVerified c s'"
  "enroll_trans (SecureIdVerified g) c s'"
  "enroll_trans (PrintIdAllocated g f) c s'"
  "enroll_trans (Enrolling g f n) c s'"
  "enroll_trans (Finalized g f) c s'"

definition enabled :: "enroll_state \<Rightarrow> call \<Rightarrow> bool" where
  "enabled s c =
     (case s of
        Idle \<Rightarrow> (case c of Call_CheckAuthToken tok \<Rightarrow> True | _ \<Rightarrow> False)
      | TokenVerified \<Rightarrow> (case c of Call_CheckSecureId g u \<Rightarrow> True | _ \<Rightarrow> False)
      | SecureIdVerified g' \<Rightarrow> (case c of Call_GetNewPrintId g \<Rightarrow> g' = g | _ \<Rightarrow> False)
      | PrintIdAllocated g f \<Rightarrow> (case c of Call_InitializeEnroll \<Rightarrow> True | _ \<Rightarrow> False)
      | Enrolling g' f' n \<Rightarrow>
          (case c of
             Call_Enroll g f \<Rightarrow> g' = g \<and> f' = f
           | Call_FinalizeEnroll \<Rightarrow> 0 < n
           | _ \<Rightarrow> False)
      | Finalized g' f' \<Rightarrow>
          (case c of Call_SaveEnrolledPrint g f64 \<Rightarrow> g' = g \<and> ucast f' = f64 | _ \<Rightarrow> False))"

section \<open>Traces of enrollment calls\<close>

type_synonym event = "call \<times> bool"

inductive enroll_traces :: "event list \<Rightarrow> enroll_state \<Rightarrow> bool" where
  start: "enroll_traces [] Idle"
| ok: "enroll_traces tr s \<Longrightarrow> enroll_trans s c s' \<Longrightarrow> enroll_traces (tr @ [(c, True)]) s'"
| failed: "enroll_traces tr s \<Longrightarrow> is_enroll_call c \<Longrightarrow> enroll_traces (tr @ [(c, False)]) Idle"

definition last_event :: "event list \<Rightarrow> event option" where
  "last_event tr = (if tr = [] then None else Some (last tr))"

definition at_idle :: "event option \<Rightarrow> bool" where
  "at_idle e =
     (case e of
        None \<Rightarrow> True
      | Some (c, b) \<Rightarrow> \<not> b \<or> (case c of Call_SaveEnrolledPrint g f \<Rightarrow> True | _ \<Rightarrow> False))"

definition follows :: "call \<Rightarrow> event option \<Rightarrow> bool" where
  "follows c prev =
     (case c of
        Call_CheckAuthToken tok \<Rightarrow> at_idle prev
      | Call_CheckSecureId g u \<Rightarrow>
          (case prev of Some (Call_CheckAuthToken tok, True) \<Rightarrow> True | _ \<Rightarrow> False)
      | Call_GetNewPrintId g \<Rightarrow>
          (case prev of Some (Call_CheckSecureId g' u, True) \<Rightarrow> g' = g | _ \<Rightarrow> False)
      | Call_InitializeEnroll \<Rightarrow>
          (case prev of Some (Call_GetNewPrintId g, True) \<Rightarrow> True | _ \<Rightarrow> False)
      | Call_Enroll g f \<Rightarrow>
          (case prev of
             Some (Call_InitializeEnroll, True) \<Rightarrow> True
           | Some (Call_Enroll g' f', True) \<Rightarrow> g' = g \<and> f' = f
           | _ \<Rightarrow> False)
      | Call_FinalizeEnroll \<Rightarrow>
          (case prev of Some (Call_Enroll g f, True) \<Rightarrow> True | _ \<Rightarrow> False)
      | Call_SaveEnrolledPrint g f64 \<Rightarrow>
          (case prev of Some (Call_FinalizeEnroll, True) \<Rightarrow> True | _ \<Rightarrow> False)
      | _ \<Rightarrow> True)"

fun ordered_from :: "event option \<Rightarrow> event list \<Rightarrow> bool" where
  "ordered_from prev [] = True"
| "ordered_from prev (e # tr) = ((snd e \<longrightarrow> follows (fst e) prev) \<and> ordered_from (Some e) tr)"

definition ordered :: "event list \<Rightarrow> bool" where
  "ordered tr = ordered_from None tr"

definition position_after :: "event option \<Rightarrow> enroll_state \<Rightarrow> bool" where
  "position_after e s =
     (case s of
        Idle \<Rightarrow> at_idle e
      | TokenVerified \<Rightarrow> (case e of Some (Call_CheckAuthToken tok, True) \<Rightarrow> True | _ \<Rightarrow> False)
      | SecureIdVerified g \<Rightarrow>
          (case e of Some (Call_CheckSecureId g' u, True) \<Rightarrow> g' = g | _ \<Rightarrow> False)
      | PrintIdAllocated g f \<Rightarrow>
          (case e of Some (Call_GetNewPrintId g', True) \<Rightarrow> g' = g | _ \<Rightarrow> False)
      | Enrolling g f n \<Rightarrow>
          (case e of
             Some (Call_InitializeEnroll, True) \<Rightarrow> n = 0
           | Some (Call_Enroll g' f', True) \<Rightarrow> 0 < n \<and> g' = g \<and> f' = f
           | _ \<Rightarrow> False)
      | Finalized g f \<Rightarrow> (case e of Some (Call_FinalizeEnroll, True) \<Rightarrow> True | _ \<Rightarrow> False))"

definition trace_of :: "call list \<Rightarrow> 'a result list \<Rightarrow> event list" where
  "trace_of cs rs =
     map (\<lambda>x. (fst x, is_ok (snd x))) (filter (\<lambda>x. is_enroll_call (fst x)) (zip cs rs))"

lemmas enrollment_defs [wire_defs] =
  new_hal_def violation_def advance_def unguarded_def set_request_fid_def SendCommand_fid_def
  decode_enroll_result_def pick_fresh_def CheckAuthToken_op_def CheckSecureId_op_def
  GetNewPrintId_def InitializeEnroll_op_def Enroll_op_def FinalizeEnroll_op_def
  SaveEnrolledPrint_op_def as_reply_def

section \<open>Lemmas: the diagram\<close>

lemma enroll_trans_enabled: "enroll_trans s c s' \<Longrightarrow> enabled s c"
  by (induction rule: enroll_trans.induct) (simp_all add: enabled_def)

lemma enabled_enroll_trans: "enabled s c \<Longrightarrow> \<exists>s'. enroll_trans s c s'"
  by (cases s) (auto simp: enabled_def intro: enroll_trans.intros split: call.splits)

lemma enabled_iff: "enabled s c \<longleftrightarrow> (\<exists>s'. enroll_trans s c s')"
  using enroll_trans_enabled enabled_enroll_trans by blast

lemma enroll_trans_is_enroll_call: "enroll_trans s c s' \<Longrightarrow> is_enroll_call c"
  by (induction rule: enroll_trans.induct) simp_all

lemma enabled_is_enroll_call: "enabled s c \<Longrightarrow> is_enroll_call c"
  by (auto simp: enabled_iff dest: enroll_trans_is_enroll_call)

section \<open>Lemmas: guards and positions\<close>

lemma violation_simps [simp]:
  "fst (violation h) = Inl OrderViolation" "snd (violation h) = h\<lparr>hEnroll := Idle\<rparr>"
  by (simp_all add: violation_def)

lemma advance_simps [simp]:
  "fst (advance nxt f h) = fst (f (hTrustlet h))"
  "hTrustlet (snd (advance nxt f h)) = snd (f (hTrustlet h))"
  "hEnroll (snd (advance nxt f h)) =
     (case fst (f (hTrustlet h)) of Inl e \<Rightarrow> Idle | Inr x \<Rightarrow> nxt x)"
  "hRandom (snd (advance nxt f h)) = hRandom h"
  "hScratch (snd (advance nxt f h)) = hScratch h"
  by (simp_all add: advance_def split: prod.splits)

lemma unguarded_simps [simp]:
  "fst (unguarded f h) = fst (f (hTrustlet h))"
  "snd (unguarded f h) = h\<lparr>hTrustlet := snd (f (hTrustlet h))\<rparr>"
  by (simp_all add: unguarded_def split: prod.splits)

lemma as_reply_simps [simp]:
  "fst (as_reply f x) = bind_result (fst x) (\<lambda>v. Inr (f v))" "snd (as_reply f x) = snd x"
  by (simp_all add: as_reply_def split: prod.splits)

lemma is_ok_bind_Inr [simp]: "is_ok (bind_result r (\<lambda>v. Inr (f v))) = is_ok r"
  by (cases r) simp_all

lemma bind_Inr_eq_Inl_iff [simp]: "bind_result r (\<lambda>v. Inr (f v)) = Inl e \<longleftrightarrow> r = Inl e"
  by (cases r) simp_all

lemma is_ok_case_state:
  "is_ok r \<Longrightarrow> (case r of Inl e \<Rightarrow> Idle | Inr x \<Rightarrow> nxt x) = nxt (projr r)"
  "\<not> is_ok r \<Longrightarrow> (case r of Inl e \<Rightarrow> Idle | Inr x \<Rightarrow> nxt x) = Idle"
  by (cases r; simp)+

lemma pick_fresh_Some_iff:
  "pick_fresh ids rs = (Some i, rest) \<longleftrightarrow>
     (\<exists>pre. rs = pre @ i # rest \<and> set pre \<subseteq> set ids \<and> i \<notin> set ids)"
proof -
  have "dropWhile (\<lambda>i. i \<in> set ids) rs = i # rest \<longleftrightarrow>
      (\<exists>pre. rs = pre @ i # rest \<and> set pre \<subseteq> set ids \<and> i \<notin> set ids)"
    by (auto simp: dropWhile_eq_Cons_conv dropWhile_append3 subset_iff)
      (metis set_takeWhileD)
  then show ?thesis by (auto simp: pick_fresh_def split: list.splits)
qed

lemma pick_fresh_None_iff: "fst (pick_fresh ids rs) = None \<longleftrightarrow> set rs \<subseteq> set ids"
proof (cases "dropWhile (\<lambda>i. i \<in> set ids) rs")
  case Nil
  have "fst (pick_fresh ids rs) = None" unfolding pick_fresh_def Nil by simp
  moreover from Nil have "set rs \<subseteq> set ids" by (auto simp: dropWhile_eq_Nil_conv)
  ultimately show ?thesis by simp
next
  case (Cons i rest)
  then have "i \<in> set rs" "i \<notin> set ids"
    using set_dropWhileD [of i "\<lambda>i. i \<in> set ids" rs]
      hd_dropWhile [of "\<lambda>i. i \<in> set ids" rs] by auto
  moreover have "fst (pick_fresh ids rs) = Some i" unfolding pick_fresh_def Cons by simp
  ultimately show ?thesis by auto
qed

lemma pick_fresh_fresh: "pick_fresh ids rs = (Some i, rest) \<Longrightarrow> i \<notin> set ids"
  by (auto simp: pick_fresh_Some_iff)

lemma ucast_fid_roundtrip [simp]: "ucast (ucast (i :: u32) :: u64) = i"
  by (rule bit_word_eqI) (simp add: bit_ucast_iff)

section \<open>Lemmas: one call and the diagram\<close>

lemmas enroll_op_defs =
  CheckAuthToken_op_def CheckSecureId_op_def GetNewPrintId_def InitializeEnroll_op_def
  Enroll_op_def FinalizeEnroll_op_def SaveEnrolledPrint_op_def

lemma perform_violation:
  assumes "is_enroll_call c" and "\<not> enabled (hEnroll h) c"
  shows "perform w c h = (Inl OrderViolation, h\<lparr>hEnroll := Idle\<rparr>)"
  using assms
  by (cases c; cases "hEnroll h")
    (auto simp: enroll_op_defs enabled_def violation_def as_reply_def)

lemma perform_other:
  assumes "\<not> is_enroll_call c"
  shows "hEnroll (snd (perform w c h)) = hEnroll h" and "hRandom (snd (perform w c h)) = hRandom h"
  using assms by (cases c; simp split: prod.splits)+

lemma perform_position:
  assumes "is_enroll_call c"
  shows "if is_ok (fst (perform w c h))
    then enroll_trans (hEnroll h) c (hEnroll (snd (perform w c h)))
    else hEnroll (snd (perform w c h)) = Idle"
proof (cases "enabled (hEnroll h) c")
  case False
  with assms show ?thesis by (simp add: perform_violation)
next
  case True
  then show ?thesis
    by (cases c; cases "hEnroll h")
      (auto simp: enroll_op_defs enabled_def is_ok_iff pick_fresh_def
        split: sum.splits prod.splits option.splits list.splits)
qed

lemma new_hal_simps:
  "length (mBuffer (hTrustlet (new_hal n s rs ex))) = n" "\<not> mLocked (hTrustlet (new_hal n s rs ex))"
  "mSecure (hTrustlet (new_hal n s rs ex)) = s" "hEnroll (new_hal n s rs ex) = Idle"
  "hRandom (new_hal n s rs ex) = rs" "hScratch (new_hal n s rs ex) = ex"
  by (simp_all add: new_hal_def)

section \<open>Lemmas: requests that carry a finger id\<close>

definition fid_request :: "u32 \<Rightarrow> CommandId \<Rightarrow> u32 \<Rightarrow> u32 \<Rightarrow> API \<Rightarrow> API option" where
  "fid_request pid c g f api = Option.bind (set_request_fid f api) (plain_request pid c g)"

lemma set_request_fid_Some:
  assumes "api_ok api"
  obtains q a1 where "GetRequest api = Some q" "set_request_fid f api = Some a1"
    "GetRequest a1 = Some (q\<lparr>fid := f\<rparr>)" "length (mLockedBuffer a1) = length (mLockedBuffer api)"
proof -
  from assms obtain q where q: "GetRequest api = Some q"
    using GetRequest_defined_iff by blast
  from assms obtain a1 where a: "SetRequest (q\<lparr>fid := f\<rparr>) api = Some a1"
    using SetRequest_defined_iff by blast
  from that [OF q _ GetRequest_SetRequest [OF a] SetRequest_length [OF a]] q a
  show ?thesis by (simp add: set_request_fid_def)
qed

lemma set_request_fid_None_iff: "set_request_fid f api = None \<longleftrightarrow> \<not> api_ok api"
proof (cases "api_ok api")
  case True
  from set_request_fid_Some [OF True, of f] obtain a1 where "set_request_fid f api = Some a1"
    by blast
  with True show ?thesis by simp
next
  case False
  then have "GetRequest api = None" using GetRequest_defined_iff [of api] by auto
  with False show ?thesis by (simp add: set_request_fid_def)
qed

lemma fid_request_views:
  assumes "api_ok api" and "GetRequest api = Some q"
  obtains a where "fid_request pid c g f api = Some a"
    "GetRequest a = Some (q\<lparr>command := CommandId_val c, gid := g, fid := f, buffer_size := 0\<rparr>)"
    "length (mLockedBuffer a) = length (mLockedBuffer api)"
proof (rule set_request_fid_Some [OF assms(1), of f])
  fix q' a1
  assume q': "GetRequest api = Some q'" and 1: "set_request_fid f api = Some a1"
    and g: "GetRequest a1 = Some (q'\<lparr>fid := f\<rparr>)"
    and l: "length (mLockedBuffer a1) = length (mLockedBuffer api)"
  from assms(1) l obtain a where a: "plain_request pid c g a1 = Some a"
    using plain_request_defined_iff [of pid c g a1] by (auto simp: api_ok_def)
  show thesis
  proof (rule that [of a])
    show "fid_request pid c g f api = Some a" using 1 a by (simp add: fid_request_def)
    show "GetRequest a =
        Some (q\<lparr>command := CommandId_val c, gid := g, fid := f, buffer_size := 0\<rparr>)"
      using plain_request_views(1) [OF a g] q' assms(2) by (cases q) simp
    show "length (mLockedBuffer a) = length (mLockedBuffer api)"
      using plain_request_length [OF a] l by simp
  qed
qed

lemma SendCommand_fid_eq:
  "SendCommand_fid w c g f t =
     with_session t (Inl LockHeld)
       (\<lambda>api s. case fid_request (process_id_of w) c g f api of
                  None \<Rightarrow> (Inl BufferFault, api, s)
                | Some a \<Rightarrow> exchange w c a s)"
proof -
  have "(case set_request_fid f api of None \<Rightarrow> (Inl BufferFault, api, s)
        | Some api1 \<Rightarrow> SendCommand_id w c g api1 s) =
      (case fid_request (process_id_of w) c g f api of None \<Rightarrow> (Inl BufferFault, api, s)
        | Some a \<Rightarrow> exchange w c a s)" for api s
  proof (cases "api_ok api")
    case False
    then have "set_request_fid f api = None" by (simp add: set_request_fid_None_iff)
    then show ?thesis by (simp add: fid_request_def)
  next
    case True
    then obtain q where q: "GetRequest api = Some q" using GetRequest_defined_iff by blast
    show ?thesis
    proof (rule fid_request_views [OF True q, of "process_id_of w" c g f])
      fix a assume "fid_request (process_id_of w) c g f api = Some a"
      then show ?thesis
        by (auto simp: fid_request_def bind_eq_Some_conv SendCommand_id_eq)
    qed
  qed
  then show ?thesis by (simp add: SendCommand_fid_def)
qed

lemma keeps_length_SendCommand_fid:
  assumes "world_ok w"
  shows "keeps_length (\<lambda>api s. case fid_request (process_id_of w) c g f api of
      None \<Rightarrow> (Inl BufferFault, api, s) | Some a \<Rightarrow> exchange w c a s)"
  using assms
  by (auto simp: keeps_length_def exchange_length fid_request_def bind_eq_Some_conv
      set_request_fid_def dest!: plain_request_length SetRequest_length split: option.splits)

lemma trustlet_ok_SendCommand_fid:
  "world_ok w \<Longrightarrow> trustlet_ok t \<Longrightarrow> trustlet_ok (snd (SendCommand_fid w c g f t))"
  by (simp add: SendCommand_fid_eq with_session_ok keeps_length_SendCommand_fid)

section \<open>Lemmas: the client invariant\<close>

lemma trustlet_ok_GetNewPrintId:
  assumes "world_ok w" and "trustlet_ok (hTrustlet h)"
  shows "trustlet_ok (hTrustlet (snd (GetNewPrintId w g h)))"
  using assms trustlet_ok_operations(10) [OF assms, of g]
  by (auto simp: GetNewPrintId_def violation_def
      split: enroll_state.splits prod.splits sum.splits option.splits)

lemma perform_GetImage_simps:
  "fst (perform w Call_GetImage h) =
     bind_result (fst (fst (GetImage_op w (hScratch h) (hTrustlet h)))) (\<lambda>i. Inr (Quality i))"
  "hTrustlet (snd (perform w Call_GetImage h)) = snd (GetImage_op w (hScratch h) (hTrustlet h))"
  "hScratch (snd (perform w Call_GetImage h)) =
     snd (fst (GetImage_op w (hScratch h) (hTrustlet h)))"
  "hEnroll (snd (perform w Call_GetImage h)) = hEnroll h"
  by (simp_all split: prod.splits)

lemma perform_all_Cons:
  "fst (perform_all w (c # cs) h) =
     fst (perform w c h) # fst (perform_all w cs (snd (perform w c h)))"
  "snd (perform_all w (c # cs) h) = snd (perform_all w cs (snd (perform w c h)))"
  by (simp_all split: prod.splits)

lemma length_perform_all [simp]: "length (fst (perform_all w cs h)) = length cs"
  by (induction cs arbitrary: h) (simp_all add: perform_all_Cons del: perform_all.simps(2))

lemma trustlet_ok_perform:
  assumes "world_ok w" and "trustlet_ok (hTrustlet h)"
  shows "trustlet_ok (hTrustlet (snd (perform w c h)))"
  using assms trustlet_ok_GetNewPrintId [OF assms]
  by (cases c)
    (auto simp: trustlet_ok_operations perform_GetImage_simps simp del: perform.simps(10)
      simp: trustlet_ok_SendCommand trustlet_ok_SendDataCommand trustlet_ok_SendCommand_fid
      CheckAuthToken_op_def CheckSecureId_op_def InitializeEnroll_op_def Enroll_op_def
      FinalizeEnroll_op_def SaveEnrolledPrint_op_def
      split: prod.splits enroll_state.splits)

lemma trustlet_ok_perform_all:
  assumes "world_ok w" and "trustlet_ok (hTrustlet h)"
  shows "trustlet_ok (hTrustlet (snd (perform_all w cs h)))"
  using assms(2)
proof (induction cs arbitrary: h)
  case Nil
  then show ?case by simp
next
  case (Cons c cs)
  from trustlet_ok_perform [OF assms(1) Cons.prems, of c] Cons.IH [of "snd (perform w c h)"]
  show ?case by (simp add: perform_all_Cons del: perform_all.simps)
qed

section \<open>Lemmas: traces\<close>

lemma last_event_simps [simp]: "last_event [] = None" "last_event (tr @ [e]) = Some e"
  by (simp_all add: last_event_def)

lemma ordered_from_snoc:
  "ordered_from p (tr @ [e]) \<longleftrightarrow>
     ordered_from p tr \<and> (snd e \<longrightarrow> follows (fst e) (if tr = [] then p else last_event tr))"
  by (induction tr arbitrary: p) (auto simp: last_event_def)

lemma ordered_snoc:
  "ordered (tr @ [e]) \<longleftrightarrow> ordered tr \<and> (snd e \<longrightarrow> follows (fst e) (last_event tr))"
  by (cases "tr = []") (simp_all add: ordered_def ordered_from_snoc)

lemma trans_position: "enroll_trans s c s' \<Longrightarrow> position_after (Some (c, True)) s'"
  by (induction rule: enroll_trans.induct) (simp_all add: position_after_def at_idle_def)

lemma position_follows: "enroll_trans s c s' \<Longrightarrow> position_after e s \<Longrightarrow> follows c e"
  by (induction rule: enroll_trans.induct)
    (auto simp: position_after_def follows_def split: option.splits call.splits bool.splits)

lemma traces_position: "enroll_traces tr s \<Longrightarrow> position_after (last_event tr) s"
  by (induction rule: enroll_traces.induct)
    (simp_all add: trans_position, simp_all add: position_after_def at_idle_def)

lemma traces_ordered: "enroll_traces tr s \<Longrightarrow> ordered tr"
proof (induction rule: enroll_traces.induct)
  case start
  show ?case by (simp add: ordered_def)
next
  case (ok tr s c s')
  from position_follows [OF ok.hyps(2) traces_position [OF ok.hyps(1)]] ok.IH
  show ?case by (simp add: ordered_snoc)
next
  case (failed tr s c)
  then show ?case by (simp add: ordered_snoc)
qed

lemma trace_of_simps [simp]:
  "trace_of [] rs = []"
  "trace_of (c # cs) (r # rs) =
     (if is_enroll_call c then (c, is_ok r) # trace_of cs rs else trace_of cs rs)"
  by (simp_all add: trace_of_def)

lemma perform_all_traces:
  assumes "enroll_traces tr (hEnroll h)"
  shows "enroll_traces (tr @ trace_of cs (fst (perform_all w cs h)))
    (hEnroll (snd (perform_all w cs h)))"
  using assms
proof (induction cs arbitrary: tr h)
  case Nil
  then show ?case by simp
next
  case (Cons c cs)
  let ?r = "fst (perform w c h)" and ?h = "snd (perform w c h)"
  show ?case
  proof (cases "is_enroll_call c")
    case False
    with Cons.IH [of tr ?h] Cons.prems show ?thesis
      by (simp add: perform_all_Cons perform_other del: perform_all.simps(2))
  next
    case True
    have "enroll_traces (tr @ [(c, is_ok ?r)]) (hEnroll ?h)"
      using perform_position [OF True, of w h] Cons.prems True
      by (auto intro: enroll_traces.ok enroll_traces.failed split: if_splits)
    from Cons.IH [OF this] True show ?thesis
      by (simp add: perform_all_Cons del: perform_all.simps(2))
  qed
qed

section \<open>Lemmas: a request with a finger id against a handler\<close>

lemma SendCommand_fid_at:
  assumes "client_at n s t"
    and "h (hdr_zero\<lparr>command := CommandId_val c, gid := g, fid := f\<rparr>) [] s = ((rv, out), s')"
    and "0x28 + length out \<le> n"
  shows "\<exists>t'. SendCommand_fid (handler_world pid h) c g f t =
        (reply_result (hdr_zero\<lparr>command := CommandId_val c, gid := g, fid := f\<rparr>) rv out, t')
    \<and> client_at n s' t'"
proof -
  let ?q = "hdr_zero\<lparr>command := CommandId_val c, gid := g, fid := f\<rparr>"
  from assms(1) have n: "BufferSize \<le> length (mBuffer t)" "length (mBuffer t) = n"
    "n < 2 ^ 32" "\<not> mLocked t" "mSecure t = s"
    by (simp_all add: client_at_def)
  then have ok: "api_ok (fresh_api t)" by simp
  show ?thesis
  proof (rule fid_request_views [OF ok GetRequest_fresh_api [OF n(1)], of pid c g f])
    fix a assume a: "fid_request pid c g f (fresh_api t) = Some a"
      and q: "GetRequest a = Some (hdr_zero\<lparr>command := CommandId_val c, gid := g, fid := f,
        buffer_size := 0\<rparr>)"
      and l: "length (mLockedBuffer a) = length (mLockedBuffer (fresh_api t))"
    from q have q': "GetRequest a = Some ?q" by (simp add: hdr_zero_def)
    from l n have d: "RequestData a (unat (buffer_size ?q)) = Some []"
      by (simp add: RequestData_empty api_ok_def hdr_zero_def)
    from assms(3) n have o: "length out < 2 ^ 32" by simp
    from serve_classify [where h = h, OF q' d _ _ o, of s rv s' c] assms(2,3) l n
    obtain buf where b: "length buf = n" "serve h (mLockedBuffer a) s = (0, buf, s')"
      "classify c 0 \<lparr>mLockedBuffer = buf\<rparr> = reply_result ?q rv out"
      by (auto simp: hdr_zero_def)
    then have "exchange (handler_world pid h) c a (mSecure t) =
        (reply_result ?q rv out, \<lparr>mLockedBuffer = buf\<rparr>, s')"
      using exchange_eq [of "handler_world pid h" a s 0 buf s' c] n by simp
    with a n(4) have "SendCommand_fid (handler_world pid h) c g f t =
        (reply_result ?q rv out, \<lparr>mBuffer = buf, mLocked = False, mSecure = s'\<rparr>)"
      by (simp add: SendCommand_fid_eq
          with_session_unlocked [where api' = "\<lparr>mLockedBuffer = buf\<rparr>"])
    with b(1) n show ?thesis by (auto simp: client_at_def)
  qed
qed

section \<open>Properties\<close>

text \<open>
  C13: The ordering checks of the enrollment sequence. \<^verbatim>\<open>FinalizeEnroll\<close> is refused unless
  the sequence is enrolling and at least one capture has succeeded, and
  \<^verbatim>\<open>SaveEnrolledPrint\<close> is refused unless \<^verbatim>\<open>FinalizeEnroll\<close> has completed for the same gid
  and fid. A refused call returns \<open>OrderViolation\<close>, sends nothing (the client and the
  secure world are unchanged) and puts the sequence back to \<open>Idle\<close>.
\<close>
theorem ordering_checks:
  "((\<forall>g f n. hEnroll h \<noteq> Enrolling g f (Suc n)) \<longrightarrow>
      perform w Call_FinalizeEnroll h = (Inl OrderViolation, h\<lparr>hEnroll := Idle\<rparr>))
   \<and> (hEnroll h \<noteq> Finalized g (ucast f64) \<or> ucast (ucast f64 :: u32) \<noteq> f64 \<longrightarrow>
      perform w (Call_SaveEnrolledPrint g f64) h = (Inl OrderViolation, h\<lparr>hEnroll := Idle\<rparr>))"
proof -
  have "\<not> enabled (hEnroll h) Call_FinalizeEnroll"
    if "\<forall>g f n. hEnroll h \<noteq> Enrolling g f (Suc n)"
    using that by (auto simp: enabled_def gr0_conv_Suc split: enroll_state.splits)
  moreover have "\<not> enabled (hEnroll h) (Call_SaveEnrolledPrint g f64)"
    if "hEnroll h \<noteq> Finalized g (ucast f64) \<or> ucast (ucast f64 :: u32) \<noteq> f64"
    using that by (auto simp: enabled_def split: enroll_state.splits)
  ultimately show ?thesis
    using perform_violation [of Call_FinalizeEnroll h w]
      perform_violation [of "Call_SaveEnrolledPrint g f64" h w]
    by (simp del: perform.simps)
qed

theorem ordering_checks_witness:
  "perform (failing_world 5) Call_FinalizeEnroll
      ((new_hal 0x70 0 [] [])\<lparr>hEnroll := Enrolling 1 7 0\<rparr>)
    = (Inl OrderViolation, new_hal 0x70 0 [] [])
   \<and> perform (failing_world 5) (Call_SaveEnrolledPrint 1 7)
      ((new_hal 0x70 0 [] [])\<lparr>hEnroll := Enrolling 1 7 2\<rparr>)
    = (Inl OrderViolation, new_hal 0x70 0 [] [])"
  using ordering_checks [of "(new_hal 0x70 0 [] [])\<lparr>hEnroll := Enrolling 1 7 0\<rparr>"
      "failing_world 5" 1 7]
    ordering_checks [of "(new_hal 0x70 0 [] [])\<lparr>hEnroll := Enrolling 1 7 2\<rparr>"
      "failing_world 5" 1 7]
  by (simp add: new_hal_def)

text \<open>
  C14: Every run of the interface refines the diagram of the enrollment sequence. From a
  new client, whatever the secure world answers and whatever calls are made in whatever
  order, the enrollment calls of the run with their outcomes form a trace of the diagram
  that ends in the position the client holds.
\<close>
theorem perform_refines_diagram:
  "enroll_traces (trace_of cs (fst (perform_all w cs (new_hal n s rs ex))))
     (hEnroll (snd (perform_all w cs (new_hal n s rs ex))))"
  using perform_all_traces [of "[]" "new_hal n s rs ex" cs w]
  by (simp add: new_hal_def enroll_traces.start)

text \<open>
  C12: The order of successful enrollment steps. In every run from a new client each
  enrollment call that succeeds comes directly after the step the sequence requires
  before it: a check of the secure id after a successful token check, a capture after
  the initialization or after a capture for the same gid and fid, the finalization
  after a successful capture, the save after a successful finalization; a failed step
  or a finished sequence is followed only by a new token check.
\<close>
theorem enrollment_order:
  "ordered (trace_of cs (fst (perform_all w cs (new_hal n s rs ex))))"
  using perform_all_traces [of "[]" "new_hal n s rs ex" cs w]
  by (auto simp: new_hal_def enroll_traces.start dest: traces_ordered)

text \<open>
  C22: The print id that \<^verbatim>\<open>GetNewPrintId\<close> allocates is fresh for its gid. Whenever the
  call \<^verbatim>\<open>GetNewPrintId(gid)\<close> succeeds, the secure id had been verified for that gid, the
  operation has fetched the enrolled ids of that same gid with \<^verbatim>\<open>GetPrintIds\<close> in this
  very call, the id it returns is not one of them, every candidate passed over before it
  is one of them, and the client is left with the state after that fetch, the position
  \<open>PrintIdAllocated\<close> for the gid and the new id, and the remaining candidates.
\<close>
theorem new_print_id_fresh:
  assumes "fst (perform w (Call_GetNewPrintId g) h) = Inr r"
  shows "\<exists>i ids t' pre rest. r = NewPrintId i
    \<and> hEnroll h = SecureIdVerified g
    \<and> GetPrintIds_op w g (hTrustlet h) = (Inr ids, t')
    \<and> i \<notin> set ids \<and> hRandom h = pre @ i # rest \<and> set pre \<subseteq> set ids
    \<and> snd (perform w (Call_GetNewPrintId g) h)
        = h\<lparr>hTrustlet := t', hEnroll := PrintIdAllocated g i, hRandom := rest\<rparr>"
proof -
  from assms obtain i where i: "fst (GetNewPrintId w g h) = Inr i" and r: "r = NewPrintId i"
    by (cases "GetNewPrintId w g h"; cases "fst (GetNewPrintId w g h)")
      (auto simp: as_reply_def)
  from i have e: "hEnroll h = SecureIdVerified g"
    by (auto simp: GetNewPrintId_def violation_def split: enroll_state.splits if_splits)
  obtain x t' where x: "GetPrintIds_op w g (hTrustlet h) = (x, t')"
    by (cases "GetPrintIds_op w g (hTrustlet h)")
  obtain c rest where p: "pick_fresh (projr x) (hRandom h) = (c, rest)"
    by (cases "pick_fresh (projr x) (hRandom h)")
  from i e x p obtain ids where "x = Inr ids" and "c = Some i"
    by (cases x; cases c) (auto simp: GetNewPrintId_def)
  with e x p r pick_fresh_Some_iff [of ids "hRandom h" i rest] show ?thesis
    by (auto simp: GetNewPrintId_def as_reply_def)
qed

text \<open>
  C21: The client invariant holds along every run. Against a secure world that keeps
  the length of the block, after any sequence of calls from a new client of sufficient
  size the lock is free and the block still has room for the envelope and both headers.
\<close>
theorem perform_all_keeps_client:
  assumes "world_ok w" and "BufferSize \<le> n"
  shows "trustlet_ok (hTrustlet (snd (perform_all w cs (new_hal n s rs ex))))"
  using trustlet_ok_perform_all [OF assms(1), of "new_hal n s rs ex" cs] assms(2)
  by (simp add: new_hal_def)

theorem perform_all_keeps_client_witness:
  "world_ok (failing_world 5) \<and> BufferSize \<le> 0x70
   \<and> trustlet_ok (hTrustlet (snd (perform_all (failing_world 5)
        [Call_Calibrate, Call_CheckAuthToken [1], Call_GetImage] (new_hal 0x70 0 [] []))))"
  using perform_all_keeps_client [of "failing_world 5" "0x70"
      "[Call_Calibrate, Call_CheckAuthToken [1], Call_GetImage]" 0 "[]" "[]"]
  by simp

end
