(* ===== verification/Scenario.thy ===== *)
theory Scenario
  imports Enrollment
begin

text \<open>
  A reference firmware and the two scenarios of the design document run against it.
  The firmware is a handler in the sense of \<open>Firmware\<close>: it keeps the enrolled prints as
  pairs of gid and fid, the auth token and the secure user ids it accepts, the
  completion percentages it will report for the coming captures, and whether a finger
  is on the sensor. It is not part of the program; it is the simplest secure world that
  follows the protocol, and serves to show that the client, run call by call through
  \<open>perform\<close>, produces the results the design document lists. \<open>call_spec\<close> is the
  statement that a call made in a state satisfying a precondition returns a given
  result in a state satisfying a postcondition; the scenario is a chain of such
  statements.
  The run of the enrollment scenario is also the concrete instance of the properties of
  \<open>Enrollment\<close> that need successful steps: its trace \<open>scenario_trace\<close> is a trace of the
  diagram and is ordered, and the id it allocates is fresh among the ids the firmware
  reports for the gid.
\<close>

section \<open>The reference firmware\<close>

record fw_state =
  fw_prints :: "(u32 \<times> u32) list"
  fw_token :: bytes
  fw_users :: "(u32 \<times> u64) list"
  fw_progress :: "u32 list"
  fw_finger :: bool
  fw_timeout :: u32

definition prints_of :: "u32 \<Rightarrow> fw_state \<Rightarrow> u32 list" where
  "prints_of g s = map snd (filter (\<lambda>p. fst p = g) (fw_prints s))"

definition capture_result :: "u32 \<Rightarrow> enroll_result_t" where
  "capture_result p = words_enroll_result [ImageResult_val Good, p, 0, 0, 0, 0, 0, 0]"

definition fw_handle :: "fw_state handler" where
  "fw_handle q d s =
     (case CommandId_of (command q) of
        None \<Rightarrow> ((1, []), s)
      | Some c \<Rightarrow>
          (case c of
             CheckAuthToken \<Rightarrow> ((if d = fw_token s then 0 else 1, []), s)
           | CheckSecureId \<Rightarrow> ((if (gid q, le_word d) \<in> set (fw_users s) then 0 else 1, []), s)
           | GetPrintIds \<Rightarrow> ((0, u32s_bytes (prints_of (gid q) s)), s)
           | Enroll \<Rightarrow>
               (case fw_progress s of
                  [] \<Rightarrow> ((1, []), s)
                | p # ps \<Rightarrow>
                    ((0, enc enroll_result_codec (capture_result p)), s\<lparr>fw_progress := ps\<rparr>))
           | SaveEnrolledPrint \<Rightarrow> ((0, []), s\<lparr>fw_prints := fw_prints s @ [(gid q, fid q)]\<rparr>)
           | IsFingerLost \<Rightarrow>
               ((0, le_bytes 4 (ImageResult_val (if fw_finger s then Detected1 else Lost))),
                s\<lparr>fw_timeout := gid q\<rparr>)
           | GetImage \<Rightarrow>
               ((0, le_bytes 4 (ImageResult_val (if fw_finger s then Good else Nothing))), s)
           | _ \<Rightarrow> ((0, []), s)))"

definition ref_world :: "fw_state secure_world" where
  "ref_world = handler_world 0xe0 fw_handle"

section \<open>Specifications of calls\<close>

definition hal_at ::
  "nat \<Rightarrow> 's \<Rightarrow> enroll_state \<Rightarrow> u32 list \<Rightarrow> bytes \<Rightarrow> 's hal \<Rightarrow> bool" where
  "hal_at n s e rs ex hl \<longleftrightarrow>
     client_at n s (hTrustlet hl) \<and> hEnroll hl = e \<and> hRandom hl = rs \<and> hScratch hl = ex"

definition call_spec ::
  "'s secure_world \<Rightarrow> call \<Rightarrow> ('s hal \<Rightarrow> bool) \<Rightarrow> reply result \<Rightarrow> ('s hal \<Rightarrow> bool) \<Rightarrow> bool" where
  "call_spec w c P r Q \<longleftrightarrow> (\<forall>hl. P hl \<longrightarrow> (\<exists>hl'. perform w c hl = (r, hl') \<and> Q hl'))"

definition calls_spec ::
  "'s secure_world \<Rightarrow> call list \<Rightarrow> ('s hal \<Rightarrow> bool) \<Rightarrow> reply result list \<Rightarrow>
     ('s hal \<Rightarrow> bool) \<Rightarrow> bool" where
  "calls_spec w cs P rs Q \<longleftrightarrow>
     (\<forall>hl. P hl \<longrightarrow> (\<exists>hl'. perform_all w cs hl = (rs, hl') \<and> Q hl'))"

section \<open>The scenarios\<close>

definition enrollment_calls :: "bytes \<Rightarrow> u32 \<Rightarrow> u64 \<Rightarrow> u32 \<Rightarrow> call list" where
  "enrollment_calls tok g u i =
     [Call_CheckAuthToken tok, Call_CheckSecureId g u, Call_GetNewPrintId g,
      Call_InitializeEnroll, Call_Enroll g i, Call_Enroll g i, Call_FinalizeEnroll,
      Call_SaveEnrolledPrint g (ucast i), Call_GetPrintIds g]"

definition scenario_fw :: fw_state where
  "scenario_fw = \<lparr>fw_prints = [(1, 3), (2, 9), (1, 5)], fw_token = [0xa5, 0x5a, 0x01],
     fw_users = [(1, 42)], fw_progress = [40, 100], fw_finger = True, fw_timeout = 0\<rparr>"

definition scenario_hal :: "enroll_state \<Rightarrow> fw_state hal" where
  "scenario_hal e = (new_hal 0x1000 scenario_fw [3, 7] [])\<lparr>hEnroll := e\<rparr>"

definition scenario_trace :: "event list" where
  "scenario_trace =
     [(Call_CheckAuthToken [0xa5, 0x5a, 0x01], True), (Call_CheckSecureId 1 42, True),
      (Call_GetNewPrintId 1, True), (Call_InitializeEnroll, True), (Call_Enroll 1 7, True),
      (Call_Enroll 1 7, True), (Call_FinalizeEnroll, True),
      (Call_SaveEnrolledPrint 1 (ucast (7 :: u32)), True)]"

section \<open>Lemmas: chaining\<close>

lemma calls_spec_Nil: "calls_spec w [] P [] P"
  by (simp add: calls_spec_def)

lemma calls_spec_Cons:
  assumes "call_spec w c P r Q" and "calls_spec w cs Q rs R"
  shows "calls_spec w (c # cs) P (r # rs) R"
  unfolding calls_spec_def
proof (intro allI impI)
  fix hl assume "P hl"
  with assms(1) obtain hl1 where 1: "perform w c hl = (r, hl1)" "Q hl1"
    by (auto simp: call_spec_def)
  with assms(2) obtain hl2 where "perform_all w cs hl1 = (rs, hl2)" "R hl2"
    by (auto simp: calls_spec_def)
  with 1 show "\<exists>hl'. perform_all w (c # cs) hl = (r # rs, hl') \<and> R hl'" by simp
qed

lemma call_specD:
  "call_spec w c P r Q \<Longrightarrow> P hl \<Longrightarrow> \<exists>hl'. perform w c hl = (r, hl') \<and> Q hl'"
  by (simp add: call_spec_def)

lemma calls_specD:
  "calls_spec w cs P rs Q \<Longrightarrow> P hl \<Longrightarrow>
     fst (perform_all w cs hl) = rs \<and> Q (snd (perform_all w cs hl))"
  by (auto simp: calls_spec_def)

lemma hal_at_new_hal [simp]:
  "hal_at n s Idle rs ex (new_hal n s rs ex) \<longleftrightarrow> BufferSize \<le> n \<and> n < 2 ^ 32"
  by (simp add: hal_at_def new_hal_def)

lemma advance_at:
  assumes "hal_at n s e rs ex hl"
    and "\<exists>t'. f (hTrustlet hl) = (Inr x, t') \<and> client_at n s' t'"
  shows "\<exists>hl'. advance nxt f hl = (Inr x, hl') \<and> hal_at n s' (nxt x) rs ex hl'"
  using assms by (auto simp: advance_def hal_at_def)

lemma unguarded_at:
  assumes "hal_at n s e rs ex hl"
    and "\<exists>t'. f (hTrustlet hl) = (r, t') \<and> client_at n s' t'"
  shows "\<exists>hl'. unguarded f hl = (r, hl') \<and> hal_at n s' e rs ex hl'"
  using assms by (auto simp: unguarded_def hal_at_def)

lemma as_reply_at:
  assumes "\<exists>hl'. x = (Inr v, hl') \<and> Q hl'"
  shows "\<exists>hl'. as_reply f x = (Inr (f v), hl') \<and> Q hl'"
  using assms by (auto simp: as_reply_def)

lemma then_decode_at:
  assumes "\<exists>t'. x = (r, t') \<and> Q t'"
  shows "\<exists>t'. then_decode f x = (bind_result r f, t') \<and> Q t'"
  using assms by (auto simp: then_decode_def)

lemma ref_plain:
  assumes "client_at n s t"
    and "fw_handle (hdr_zero\<lparr>command := CommandId_val c, gid := g\<rparr>) [] s = ((0, out), s')"
    and "0x28 + length out \<le> n"
    and "f (hdr_zero\<lparr>command := CommandId_val c, gid := g,
          buffer_size := of_nat (length out)\<rparr>, out) = Inr x"
  shows "\<exists>t'. then_decode f (SendCommand ref_world c g t) = (Inr x, t') \<and> client_at n s' t'"
  using SendCommand_at [OF assms(1), where h = fw_handle, OF assms(2,3), of "0xe0"] assms(4)
  by (auto simp: ref_world_def)

lemma ref_data:
  assumes "client_at n s t" and "BufferSize + length d \<le> n"
    and "fw_handle (hdr_zero\<lparr>command := CommandId_val c, gid := g,
          buffer_size := of_nat (length d)\<rparr>) d s = ((0, out), s')"
    and "0x28 + length out \<le> n"
    and "f (hdr_zero\<lparr>command := CommandId_val c, gid := g,
          buffer_size := of_nat (length out)\<rparr>, out) = Inr x"
  shows "\<exists>t'. then_decode f (SendDataCommand ref_world c d g t) = (Inr x, t') \<and> client_at n s' t'"
  using SendDataCommand_at [OF assms(1,2), where h = fw_handle, OF assms(3,4), of "0xe0"] assms(5)
  by (auto simp: ref_world_def)

lemma ref_fid:
  assumes "client_at n s t"
    and "fw_handle (hdr_zero\<lparr>command := CommandId_val c, gid := g, fid := i\<rparr>) [] s
      = ((0, out), s')"
    and "0x28 + length out \<le> n"
    and "f (hdr_zero\<lparr>command := CommandId_val c, gid := g, fid := i,
          buffer_size := of_nat (length out)\<rparr>, out) = Inr x"
  shows "\<exists>t'. then_decode f (SendCommand_fid ref_world c g i t) = (Inr x, t') \<and> client_at n s' t'"
  using SendCommand_fid_at [OF assms(1), where h = fw_handle, OF assms(2,3), of "0xe0"] assms(4)
  by (auto simp: ref_world_def)

lemma fw_handle_simps:
  "command q = CommandId_val CheckAuthToken \<Longrightarrow>
     fw_handle q d s = ((if d = fw_token s then 0 else 1, []), s)"
  "command q = CommandId_val CheckSecureId \<Longrightarrow>
     fw_handle q d s = ((if (gid q, le_word d) \<in> set (fw_users s) then 0 else 1, []), s)"
  "command q = CommandId_val GetPrintIds \<Longrightarrow>
     fw_handle q d s = ((0, u32s_bytes (prints_of (gid q) s)), s)"
  "command q = CommandId_val InitializeEnroll \<Longrightarrow> fw_handle q d s = ((0, []), s)"
  "command q = CommandId_val FinalizeEnroll \<Longrightarrow> fw_handle q d s = ((0, []), s)"
  "command q = CommandId_val Enroll \<Longrightarrow> fw_progress s = p # ps \<Longrightarrow>
     fw_handle q d s = ((0, enc enroll_result_codec (capture_result p)), s\<lparr>fw_progress := ps\<rparr>)"
  "command q = CommandId_val SaveEnrolledPrint \<Longrightarrow>
     fw_handle q d s = ((0, []), s\<lparr>fw_prints := fw_prints s @ [(gid q, fid q)]\<rparr>)"
  "command q = CommandId_val IsFingerLost \<Longrightarrow>
     fw_handle q d s =
       ((0, le_bytes 4 (ImageResult_val (if fw_finger s then Detected1 else Lost))),
        s\<lparr>fw_timeout := gid q\<rparr>)"
  by (simp_all add: fw_handle_def CommandId_of_def all_CommandIds_def)

lemmas call_unfold =
  advance_def unguarded_def as_reply_def hal_at_def violation_def

lemma ref_CheckAuthToken:
  assumes "BufferSize + length tok \<le> n" and "tok = fw_token s"
  shows "call_spec ref_world (Call_CheckAuthToken tok) (hal_at n s Idle rs ex) (Inr Done)
    (hal_at n s TokenVerified rs ex)"
  unfolding call_spec_def
proof (intro allI impI)
  fix hl assume h: "hal_at n s Idle rs ex hl"
  then have c: "client_at n s (hTrustlet hl)" by (simp add: hal_at_def)
  have "\<exists>t'. then_decode decode_done (SendDataCommand ref_world CheckAuthToken tok 0 (hTrustlet hl))
      = (Inr (), t') \<and> client_at n s t'"
    using assms
    by (intro ref_data [OF c, where out = "[]"])
      (simp_all add: fw_handle_simps hdr_zero_def decode_done_def)
  with h show "\<exists>hl'. perform ref_world (Call_CheckAuthToken tok) hl = (Inr Done, hl')
      \<and> hal_at n s TokenVerified rs ex hl'"
    by (auto simp: CheckAuthToken_op_def call_unfold)
qed

lemma ref_CheckSecureId:
  assumes "BufferSize + 8 \<le> n" and "(g, u) \<in> set (fw_users s)"
  shows "call_spec ref_world (Call_CheckSecureId g u) (hal_at n s TokenVerified rs ex) (Inr Done)
    (hal_at n s (SecureIdVerified g) rs ex)"
  unfolding call_spec_def
proof (intro allI impI)
  fix hl assume h: "hal_at n s TokenVerified rs ex hl"
  then have c: "client_at n s (hTrustlet hl)" by (simp add: hal_at_def)
  have "\<exists>t'. then_decode decode_done
        (SendDataCommand ref_world CheckSecureId (le_bytes 8 u) g (hTrustlet hl))
      = (Inr (), t') \<and> client_at n s t'"
    using assms
    by (intro ref_data [OF c, where out = "[]"])
      (simp_all add: fw_handle_simps hdr_zero_def decode_done_def)
  with h show "\<exists>hl'. perform ref_world (Call_CheckSecureId g u) hl = (Inr Done, hl')
      \<and> hal_at n s (SecureIdVerified g) rs ex hl'"
    by (auto simp: CheckSecureId_op_def call_unfold)
qed

lemma ref_GetPrintIds_op:
  assumes "client_at n s t" and "0x28 + 4 * length (prints_of g s) \<le> n"
  shows "\<exists>t'. GetPrintIds_op ref_world g t = (Inr (prints_of g s), t') \<and> client_at n s t'"
  unfolding GetPrintIds_op_def using assms(2)
  by (intro ref_plain [OF assms(1), where out = "u32s_bytes (prints_of g s)"])
    (simp_all add: fw_handle_simps hdr_zero_def)

lemma ref_GetNewPrintId:
  assumes "0x28 + 4 * length (prints_of g s) \<le> n"
    and "pick_fresh (prints_of g s) rs = (Some i, rest)"
  shows "call_spec ref_world (Call_GetNewPrintId g) (hal_at n s (SecureIdVerified g) rs ex)
    (Inr (NewPrintId i)) (hal_at n s (PrintIdAllocated g i) rest ex)"
  unfolding call_spec_def
proof (intro allI impI)
  fix hl assume h: "hal_at n s (SecureIdVerified g) rs ex hl"
  then have c: "client_at n s (hTrustlet hl)" by (simp add: hal_at_def)
  from ref_GetPrintIds_op [OF c assms(1)] h assms(2)
  show "\<exists>hl'. perform ref_world (Call_GetNewPrintId g) hl = (Inr (NewPrintId i), hl')
      \<and> hal_at n s (PrintIdAllocated g i) rest ex hl'"
    by (auto simp: GetNewPrintId_def call_unfold)
qed

lemma ref_InitializeEnroll:
  "call_spec ref_world Call_InitializeEnroll (hal_at n s (PrintIdAllocated g i) rs ex) (Inr Done)
    (hal_at n s (Enrolling g i 0) rs ex)"
  unfolding call_spec_def
proof (intro allI impI)
  fix hl assume h: "hal_at n s (PrintIdAllocated g i) rs ex hl"
  then have c: "client_at n s (hTrustlet hl)" by (simp add: hal_at_def)
  then have "0x28 \<le> n" by (simp add: client_at_def)
  then have "\<exists>t'. then_decode decode_done (SendCommand ref_world InitializeEnroll 0 (hTrustlet hl))
      = (Inr (), t') \<and> client_at n s t'"
    by (intro ref_plain [OF c, where out = "[]"])
      (simp_all add: fw_handle_simps hdr_zero_def decode_done_def)
  with h show "\<exists>hl'. perform ref_world Call_InitializeEnroll hl = (Inr Done, hl')
      \<and> hal_at n s (Enrolling g i 0) rs ex hl'"
    by (auto simp: InitializeEnroll_op_def call_unfold)
qed

lemma decode_capture_result:
  "decode_enroll_result (r, enc enroll_result_codec (capture_result p)) = Inr (capture_result p)"
  by (simp add: decode_enroll_result_def fixed_codec_dec_enc)

lemma ref_Enroll:
  assumes "fw_progress s = p # ps"
  shows "call_spec ref_world (Call_Enroll g i) (hal_at n s (Enrolling g i k) rs ex)
    (Inr (EnrollResult (capture_result p)))
    (hal_at n (s\<lparr>fw_progress := ps\<rparr>) (Enrolling g i (Suc k)) rs ex)"
  unfolding call_spec_def
proof (intro allI impI)
  fix hl assume h: "hal_at n s (Enrolling g i k) rs ex hl"
  then have c: "client_at n s (hTrustlet hl)" by (simp add: hal_at_def)
  then have "0x48 \<le> n" by (simp add: client_at_def)
  then have "\<exists>t'. then_decode decode_enroll_result (SendCommand_fid ref_world Enroll g i (hTrustlet hl))
      = (Inr (capture_result p), t') \<and> client_at n (s\<lparr>fw_progress := ps\<rparr>) t'"
    using assms
    by (intro ref_fid [OF c, where out = "enc enroll_result_codec (capture_result p)"])
      (simp_all add: fw_handle_simps hdr_zero_def decode_capture_result)
  with h show "\<exists>hl'. perform ref_world (Call_Enroll g i) hl
        = (Inr (EnrollResult (capture_result p)), hl')
      \<and> hal_at n (s\<lparr>fw_progress := ps\<rparr>) (Enrolling g i (Suc k)) rs ex hl'"
    by (auto simp: Enroll_op_def call_unfold)
qed

lemma ref_FinalizeEnroll:
  "call_spec ref_world Call_FinalizeEnroll (hal_at n s (Enrolling g i (Suc k)) rs ex) (Inr Done)
    (hal_at n s (Finalized g i) rs ex)"
  unfolding call_spec_def
proof (intro allI impI)
  fix hl assume h: "hal_at n s (Enrolling g i (Suc k)) rs ex hl"
  then have c: "client_at n s (hTrustlet hl)" by (simp add: hal_at_def)
  then have "0x28 \<le> n" by (simp add: client_at_def)
  then have "\<exists>t'. then_decode decode_done (SendCommand ref_world FinalizeEnroll 0 (hTrustlet hl))
      = (Inr (), t') \<and> client_at n s t'"
    by (intro ref_plain [OF c, where out = "[]"])
      (simp_all add: fw_handle_simps hdr_zero_def decode_done_def)
  with h show "\<exists>hl'. perform ref_world Call_FinalizeEnroll hl = (Inr Done, hl')
      \<and> hal_at n s (Finalized g i) rs ex hl'"
    by (auto simp: FinalizeEnroll_op_def call_unfold)
qed

lemma ref_SaveEnrolledPrint:
  "call_spec ref_world (Call_SaveEnrolledPrint g (ucast i)) (hal_at n s (Finalized g i) rs ex)
    (Inr Done) (hal_at n (s\<lparr>fw_prints := fw_prints s @ [(g, i)]\<rparr>) Idle rs ex)"
  unfolding call_spec_def
proof (intro allI impI)
  fix hl assume h: "hal_at n s (Finalized g i) rs ex hl"
  then have c: "client_at n s (hTrustlet hl)" by (simp add: hal_at_def)
  then have "0x28 \<le> n" by (simp add: client_at_def)
  then have "\<exists>t'. then_decode decode_done
        (SendCommand_fid ref_world SaveEnrolledPrint g i (hTrustlet hl))
      = (Inr (), t') \<and> client_at n (s\<lparr>fw_prints := fw_prints s @ [(g, i)]\<rparr>) t'"
    by (intro ref_fid [OF c, where out = "[]"])
      (simp_all add: fw_handle_simps hdr_zero_def decode_done_def)
  with h show "\<exists>hl'. perform ref_world (Call_SaveEnrolledPrint g (ucast i)) hl = (Inr Done, hl')
      \<and> hal_at n (s\<lparr>fw_prints := fw_prints s @ [(g, i)]\<rparr>) Idle rs ex hl'"
    by (auto simp: SaveEnrolledPrint_op_def call_unfold)
qed

lemma ref_GetPrintIds:
  assumes "0x28 + 4 * length (prints_of g s) \<le> n"
  shows "call_spec ref_world (Call_GetPrintIds g) (hal_at n s e rs ex)
    (Inr (PrintIds (prints_of g s))) (hal_at n s e rs ex)"
  unfolding call_spec_def
proof (intro allI impI)
  fix hl assume h: "hal_at n s e rs ex hl"
  then have c: "client_at n s (hTrustlet hl)" by (simp add: hal_at_def)
  from ref_GetPrintIds_op [OF c assms] h
  show "\<exists>hl'. perform ref_world (Call_GetPrintIds g) hl = (Inr (PrintIds (prints_of g s)), hl')
      \<and> hal_at n s e rs ex hl'"
    by (auto simp: call_unfold)
qed

lemma ref_IsFingerLost:
  "call_spec ref_world (Call_IsFingerLost timeout) (hal_at n s e rs ex)
    (Inr (FingerStatus (if fw_finger s then Detected1 else Lost)))
    (hal_at n (s\<lparr>fw_timeout := timeout\<rparr>) e rs ex)"
  unfolding call_spec_def
proof (intro allI impI)
  fix hl assume h: "hal_at n s e rs ex hl"
  then have c: "client_at n s (hTrustlet hl)" by (simp add: hal_at_def)
  then have "0x2c \<le> n" by (simp add: client_at_def)
  then have "\<exists>t'. IsFingerLost_op ref_world timeout (hTrustlet hl)
      = (Inr (if fw_finger s then Detected1 else Lost), t')
      \<and> client_at n (s\<lparr>fw_timeout := timeout\<rparr>) t'"
    unfolding IsFingerLost_op_def
    by (intro ref_plain [OF c, where out =
          "le_bytes 4 (ImageResult_val (if fw_finger s then Detected1 else Lost))"])
      (simp_all add: fw_handle_simps hdr_zero_def decode_image_result_val [where rest = "[]", simplified])
  with h show "\<exists>hl'. perform ref_world (Call_IsFingerLost timeout) hl
        = (Inr (FingerStatus (if fw_finger s then Detected1 else Lost)), hl')
      \<and> hal_at n (s\<lparr>fw_timeout := timeout\<rparr>) e rs ex hl'"
    by (auto simp: call_unfold)
qed

section \<open>Lemmas: the enrollment scenario\<close>

lemma prints_of_simps [simp]:
  "prints_of g (s\<lparr>fw_progress := ps\<rparr>) = prints_of g s"
  "prints_of g (s\<lparr>fw_timeout := x\<rparr>) = prints_of g s"
  "prints_of g (s\<lparr>fw_prints := fw_prints s @ [(g, i)]\<rparr>) = prints_of g s @ [i]"
  by (simp_all add: prints_of_def)

lemma enrollment_calls_spec:
  assumes "BufferSize + max 8 (length tok) \<le> n"
    and "0x28 + 4 * Suc (length (prints_of g s)) \<le> n"
    and "tok = fw_token s" and "(g, u) \<in> set (fw_users s)"
    and "pick_fresh (prints_of g s) rs = (Some i, rest)"
    and "fw_progress s = p1 # p2 # ps"
  shows "calls_spec ref_world (enrollment_calls tok g u i) (hal_at n s Idle rs ex)
    [Inr Done, Inr Done, Inr (NewPrintId i), Inr Done, Inr (EnrollResult (capture_result p1)),
     Inr (EnrollResult (capture_result p2)), Inr Done, Inr Done,
     Inr (PrintIds (prints_of g s @ [i]))]
    (hal_at n (s\<lparr>fw_progress := ps, fw_prints := fw_prints s @ [(g, i)]\<rparr>) Idle rest ex)"
proof -
  let ?s1 = "s\<lparr>fw_progress := p2 # ps\<rparr>" and ?s2 = "s\<lparr>fw_progress := ps\<rparr>"
  let ?s3 = "s\<lparr>fw_progress := ps, fw_prints := fw_prints s @ [(g, i)]\<rparr>"
  have 1: "call_spec ref_world (Call_CheckAuthToken tok) (hal_at n s Idle rs ex) (Inr Done)
      (hal_at n s TokenVerified rs ex)"
    using assms(1,3) by (intro ref_CheckAuthToken) simp_all
  have 2: "call_spec ref_world (Call_CheckSecureId g u) (hal_at n s TokenVerified rs ex)
      (Inr Done) (hal_at n s (SecureIdVerified g) rs ex)"
    using assms(1,4) by (intro ref_CheckSecureId) simp_all
  have 3: "call_spec ref_world (Call_GetNewPrintId g) (hal_at n s (SecureIdVerified g) rs ex)
      (Inr (NewPrintId i)) (hal_at n s (PrintIdAllocated g i) rest ex)"
    using assms(2,5) by (intro ref_GetNewPrintId) simp_all
  have 5: "call_spec ref_world (Call_Enroll g i) (hal_at n s (Enrolling g i 0) rest ex)
      (Inr (EnrollResult (capture_result p1))) (hal_at n ?s1 (Enrolling g i (Suc 0)) rest ex)"
    by (rule ref_Enroll) (rule assms(6))
  have 6: "call_spec ref_world (Call_Enroll g i) (hal_at n ?s1 (Enrolling g i (Suc 0)) rest ex)
      (Inr (EnrollResult (capture_result p2)))
      (hal_at n ?s2 (Enrolling g i (Suc (Suc 0))) rest ex)"
    using ref_Enroll [of ?s1 p2 ps g i n "Suc 0" rest ex] by simp
  have 8: "call_spec ref_world (Call_SaveEnrolledPrint g (ucast i))
      (hal_at n ?s2 (Finalized g i) rest ex) (Inr Done) (hal_at n ?s3 Idle rest ex)"
    using ref_SaveEnrolledPrint [of g i n ?s2 rest ex] by simp
  have 9: "call_spec ref_world (Call_GetPrintIds g) (hal_at n ?s3 Idle rest ex)
      (Inr (PrintIds (prints_of g s @ [i]))) (hal_at n ?s3 Idle rest ex)"
    using ref_GetPrintIds [of g ?s3 n Idle rest ex] assms(2) by (simp add: prints_of_def)
  show ?thesis
    unfolding enrollment_calls_def
    by (intro calls_spec_Cons [OF 1] calls_spec_Cons [OF 2] calls_spec_Cons [OF 3]
        calls_spec_Cons [OF ref_InitializeEnroll] calls_spec_Cons [OF 5] calls_spec_Cons [OF 6]
        calls_spec_Cons [OF ref_FinalizeEnroll] calls_spec_Cons [OF 8] calls_spec_Cons [OF 9]
        calls_spec_Nil)
qed

lemma pick_fresh_scenario: "pick_fresh [3, 5] [3, 7 :: u32] = (Some 7, [])"
  by (simp add: pick_fresh_def)

lemma scenario_fw_simps [simp]:
  "prints_of 1 scenario_fw = [3, 5]" "fw_token scenario_fw = [0xa5, 0x5a, 0x01]"
  "fw_users scenario_fw = [(1, 42)]" "fw_progress scenario_fw = [40, 100]"
  "fw_finger scenario_fw"
  by (simp_all add: scenario_fw_def prints_of_def)

lemma scenario_run:
  "fst (perform_all ref_world (enrollment_calls [0xa5, 0x5a, 0x01] 1 42 7)
      (new_hal 0x1000 scenario_fw [3, 7] [])) =
    [Inr Done, Inr Done, Inr (NewPrintId 7), Inr Done, Inr (EnrollResult (capture_result 40)),
     Inr (EnrollResult (capture_result 100)), Inr Done, Inr Done,
     Inr (PrintIds (prints_of 1 scenario_fw @ [7]))]"
  "hEnroll (snd (perform_all ref_world (enrollment_calls [0xa5, 0x5a, 0x01] 1 42 7)
      (new_hal 0x1000 scenario_fw [3, 7] []))) = Idle"
proof -
  have "calls_spec ref_world (enrollment_calls [0xa5, 0x5a, 0x01] 1 42 7)
      (hal_at 0x1000 scenario_fw Idle [3, 7] [])
      [Inr Done, Inr Done, Inr (NewPrintId 7), Inr Done, Inr (EnrollResult (capture_result 40)),
       Inr (EnrollResult (capture_result 100)), Inr Done, Inr Done,
       Inr (PrintIds (prints_of 1 scenario_fw @ [7]))]
      (hal_at 0x1000 (scenario_fw\<lparr>fw_progress := [],
         fw_prints := fw_prints scenario_fw @ [(1, 7)]\<rparr>) Idle [] [])"
    by (rule enrollment_calls_spec) (simp_all add: pick_fresh_scenario)
  moreover have "hal_at 0x1000 scenario_fw Idle [3, 7] [] (new_hal 0x1000 scenario_fw [3, 7] [])"
    by simp
  ultimately have "fst (perform_all ref_world (enrollment_calls [0xa5, 0x5a, 0x01] 1 42 7)
        (new_hal 0x1000 scenario_fw [3, 7] [])) =
      [Inr Done, Inr Done, Inr (NewPrintId 7), Inr Done, Inr (EnrollResult (capture_result 40)),
       Inr (EnrollResult (capture_result 100)), Inr Done, Inr Done,
       Inr (PrintIds (prints_of 1 scenario_fw @ [7]))]
    \<and> hal_at 0x1000 (scenario_fw\<lparr>fw_progress := [],
         fw_prints := fw_prints scenario_fw @ [(1, 7)]\<rparr>) Idle [] []
       (snd (perform_all ref_world (enrollment_calls [0xa5, 0x5a, 0x01] 1 42 7)
        (new_hal 0x1000 scenario_fw [3, 7] [])))"
    by (rule calls_specD)
  then show "fst (perform_all ref_world (enrollment_calls [0xa5, 0x5a, 0x01] 1 42 7)
      (new_hal 0x1000 scenario_fw [3, 7] [])) =
    [Inr Done, Inr Done, Inr (NewPrintId 7), Inr Done, Inr (EnrollResult (capture_result 40)),
     Inr (EnrollResult (capture_result 100)), Inr Done, Inr Done,
     Inr (PrintIds (prints_of 1 scenario_fw @ [7]))]"
    and "hEnroll (snd (perform_all ref_world (enrollment_calls [0xa5, 0x5a, 0x01] 1 42 7)
      (new_hal 0x1000 scenario_fw [3, 7] []))) = Idle"
    by (simp_all add: hal_at_def)
qed

lemma scenario_trace_of:
  "trace_of (enrollment_calls [0xa5, 0x5a, 0x01] 1 42 7)
     [Inr Done, Inr Done, Inr (NewPrintId 7), Inr Done, Inr (EnrollResult (capture_result 40)),
      Inr (EnrollResult (capture_result 100)), Inr Done, Inr Done,
      Inr (PrintIds (prints_of 1 scenario_fw @ [7]))] = scenario_trace"
  by (simp add: enrollment_calls_def scenario_trace_def)

lemma hal_at_scenario_hal: "hal_at 0x1000 scenario_fw e [3, 7] [] (scenario_hal e)"
  by (simp add: hal_at_def scenario_hal_def client_at_def new_hal_simps)

section \<open>Properties\<close>

text \<open>
  C15: The enrollment scenario. Against the reference firmware, with a valid token, a
  secure user id the firmware knows, a candidate stream whose first id that is not yet
  enrolled is \<open>i\<close>, and two captures to come, the sequence \<^verbatim>\<open>CheckAuthToken\<close>,
  \<^verbatim>\<open>CheckSecureId\<close>, \<^verbatim>\<open>GetNewPrintId\<close>, \<^verbatim>\<open>InitializeEnroll\<close>, \<^verbatim>\<open>Enroll\<close>, \<^verbatim>\<open>Enroll\<close>,
  \<^verbatim>\<open>FinalizeEnroll\<close>, \<^verbatim>\<open>SaveEnrolledPrint\<close>, \<^verbatim>\<open>GetPrintIds\<close> succeeds at every step: the
  new id is \<open>i\<close>, the two captures report the firmware's percentages, and the final list of
  print ids is the previous list followed by \<open>i\<close>.
\<close>
theorem enrollment_run:
  assumes "BufferSize + max 8 (length tok) \<le> n" and "n < 2 ^ 32"
    and "0x28 + 4 * Suc (length (prints_of g s)) \<le> n"
    and "tok = fw_token s" and "(g, u) \<in> set (fw_users s)"
    and "pick_fresh (prints_of g s) rs = (Some i, rest)"
    and "fw_progress s = p1 # p2 # ps"
  shows "fst (perform_all ref_world (enrollment_calls tok g u i) (new_hal n s rs ex)) =
    [Inr Done, Inr Done, Inr (NewPrintId i), Inr Done, Inr (EnrollResult (capture_result p1)),
     Inr (EnrollResult (capture_result p2)), Inr Done, Inr Done,
     Inr (PrintIds (prints_of g s @ [i]))]"
  using calls_specD [OF enrollment_calls_spec [OF assms(1,3-7), where ex = ex],
      where hl = "new_hal n s rs ex"] assms(1,2)
  by simp

theorem enrollment_scenario:
  "fst (perform_all ref_world (enrollment_calls [0xa5, 0x5a, 0x01] 1 42 7)
      (new_hal 0x1000 scenario_fw [3, 7] [])) =
    [Inr Done, Inr Done, Inr (NewPrintId 7), Inr Done, Inr (EnrollResult (capture_result 40)),
     Inr (EnrollResult (capture_result 100)), Inr Done, Inr Done, Inr (PrintIds [3, 5, 7])]"
proof -
  have "fst (perform_all ref_world (enrollment_calls [0xa5, 0x5a, 0x01] 1 42 7)
      (new_hal 0x1000 scenario_fw [3, 7] [])) =
    [Inr Done, Inr Done, Inr (NewPrintId 7), Inr Done, Inr (EnrollResult (capture_result 40)),
     Inr (EnrollResult (capture_result 100)), Inr Done, Inr Done,
     Inr (PrintIds (prints_of 1 scenario_fw @ [7]))]"
    by (rule enrollment_run [where rest = "[]" and ps = "[]"])
      (simp_all add: pick_fresh_scenario)
  then show ?thesis by (simp only: scenario_fw_simps append.simps)
qed

theorem enrollment_order_witness:
  "trace_of (enrollment_calls [0xa5, 0x5a, 0x01] 1 42 7)
     (fst (perform_all ref_world (enrollment_calls [0xa5, 0x5a, 0x01] 1 42 7)
        (new_hal 0x1000 scenario_fw [3, 7] []))) = scenario_trace
   \<and> ordered scenario_trace"
  using enrollment_order [of "enrollment_calls [0xa5, 0x5a, 0x01] 1 42 7" ref_world "0x1000"
      scenario_fw "[3, 7]" "[]"]
  unfolding scenario_run(1) scenario_trace_of by (rule conjI [OF refl])

theorem perform_refines_diagram_witness:
  "trace_of (enrollment_calls [0xa5, 0x5a, 0x01] 1 42 7)
     (fst (perform_all ref_world (enrollment_calls [0xa5, 0x5a, 0x01] 1 42 7)
        (new_hal 0x1000 scenario_fw [3, 7] []))) = scenario_trace
   \<and> enroll_traces scenario_trace Idle"
  using perform_refines_diagram [of "enrollment_calls [0xa5, 0x5a, 0x01] 1 42 7" ref_world
      "0x1000" scenario_fw "[3, 7]" "[]"]
  unfolding scenario_run scenario_trace_of by (rule conjI [OF refl])

theorem new_print_id_fresh_witness:
  "fst (perform ref_world (Call_GetNewPrintId 1) (scenario_hal (SecureIdVerified 1)))
      = Inr (NewPrintId 7)
   \<and> fst (GetPrintIds_op ref_world 1 (hTrustlet (scenario_hal (SecureIdVerified 1))))
      = Inr [3, 5]
   \<and> (\<exists>ids t' pre rest.
        GetPrintIds_op ref_world 1 (hTrustlet (scenario_hal (SecureIdVerified 1))) = (Inr ids, t')
        \<and> 7 \<notin> set ids \<and> hRandom (scenario_hal (SecureIdVerified 1)) = pre @ 7 # rest
        \<and> set pre \<subseteq> set ids)"
proof -
  let ?h = "scenario_hal (SecureIdVerified 1)"
  have a: "fst (perform ref_world (Call_GetNewPrintId 1) ?h) = Inr (NewPrintId 7)"
    using call_specD [OF ref_GetNewPrintId hal_at_scenario_hal, of 1 7 "[]"]
    by (auto simp: pick_fresh_scenario simp del: perform.simps)
  have "client_at 0x1000 scenario_fw (hTrustlet ?h)"
    using hal_at_scenario_hal [of "SecureIdVerified 1"] by (simp add: hal_at_def)
  from ref_GetPrintIds_op [OF this, of 1]
  have b: "fst (GetPrintIds_op ref_world 1 (hTrustlet ?h)) = Inr [3, 5]" by auto
  from new_print_id_fresh [OF a] a b show ?thesis by auto
qed

text \<open>
  C23: The finger-lost scenario. Against the reference firmware \<^verbatim>\<open>IsFingerLost\<close> forwards
  the timeout to the firmware and reports \<open>Lost\<close> exactly when no finger is on the sensor:
  while the finger remains the status is not \<open>Lost\<close>, after it is removed the status is
  \<open>Lost\<close>. The call is not an enrollment step: from every position of the enrollment
  sequence it leaves the position as it is.
\<close>
theorem finger_lost_run:
  assumes "BufferSize \<le> length (mBuffer (hTrustlet hl))"
    and "length (mBuffer (hTrustlet hl)) < 2 ^ 32" and "\<not> mLocked (hTrustlet hl)"
  shows "\<exists>hl'. perform ref_world (Call_IsFingerLost timeout) hl
        = (Inr (FingerStatus (if fw_finger (mSecure (hTrustlet hl)) then Detected1 else Lost)),
           hl')
      \<and> mSecure (hTrustlet hl') = (mSecure (hTrustlet hl))\<lparr>fw_timeout := timeout\<rparr>
      \<and> hEnroll hl' = hEnroll hl"
proof -
  from assms have "hal_at (length (mBuffer (hTrustlet hl))) (mSecure (hTrustlet hl)) (hEnroll hl)
      (hRandom hl) (hScratch hl) hl"
    by (simp add: hal_at_def client_at_def)
  from call_specD [OF ref_IsFingerLost this, of timeout] show ?thesis
    by (auto simp: hal_at_def client_at_def simp del: perform.simps)
qed

theorem finger_lost_scenario:
  "fst (perform ref_world (Call_IsFingerLost 500) (new_hal 0x1000 scenario_fw [] []))
      = Inr (FingerStatus Detected1)
   \<and> fst (perform ref_world (Call_IsFingerLost 500)
        (new_hal 0x1000 (scenario_fw\<lparr>fw_finger := False\<rparr>) [] []))
      = Inr (FingerStatus Lost)
   \<and> hEnroll (snd (perform ref_world (Call_IsFingerLost 500) (scenario_hal (Enrolling 1 7 1))))
      = Enrolling 1 7 1"
  using finger_lost_run [of "new_hal 0x1000 scenario_fw [] []" 500]
    finger_lost_run [of "new_hal 0x1000 (scenario_fw\<lparr>fw_finger := False\<rparr>) [] []" 500]
    finger_lost_run [of "scenario_hal (Enrolling 1 7 1)" 500]
  by (auto simp: new_hal_simps scenario_hal_def simp del: perform.simps)

end
