(* ===== verification/Spec2Isabelle.thy ===== *)
theory Spec2Isabelle
  imports Byte_Prelude Wire_Enums Wire_Structs Buffer_API Buffer_Slots Session Dispatcher
    Firmware Operations Enrollment Scenario
begin

text \<open>
  \<^bold>\<open>The program.\<close> \<^verbatim>\<open>src/egistec/ganges/EGISAPTrustlet.h\<close> is the interface between an Android
  fingerprint HAL and the Egistec trustlet that drives the sensor from the secure world.
  The host cannot call the trustlet; it writes a request into a shared memory block,
  asks the secure world to run, and reads the response from the same block. The header
  fixes everything both sides must agree on: the opcodes (\<^verbatim>\<open>CommandId\<close>), the outcome codes
  of an image capture (\<^verbatim>\<open>ImageResult\<close>), the three structs that are overlaid on the block
  (\<^verbatim>\<open>trustlet_buffer_t\<close>, \<^verbatim>\<open>base_transaction_t\<close>, \<^verbatim>\<open>enroll_result_t\<close>) with their sizes and
  offsets, and the class \<^verbatim>\<open>EGISAPTrustlet::API\<close> that owns the locked block and hands out the
  request view (at +0x5c), the response view (at +0x14) and the envelope view (at 0).
  The class \<^verbatim>\<open>EGISAPTrustlet\<close> itself is only declared there (command dispatch, sensor
  control, image acquisition, enrollment); its member functions are defined in a source
  file that is not part of \<^verbatim>\<open>src/\<close>. Where this development models them, it does so
  from the design document \<^verbatim>\<open>spec.md\<close>, on top of the modelled operations of \<^verbatim>\<open>API\<close>, and
  says so.

  \<^bold>\<open>The theories.\<close>
  \<^item> \<open>Byte_Prelude\<close>: words, little-endian bytes, bounds-checked reads and writes of a
    block (\<open>read_bytes\<close>, \<open>write_bytes\<close>, \<open>memset_bytes\<close>, \<open>memmove_bytes\<close>), and the
    interface every struct layout implements: a \<open>codec\<close> that is \<open>fixed_codec\<close>, with the
    typed views \<open>view_get\<close> and \<open>view_put\<close>. The lemmas about views are stated for any
    fixed codec; the struct theories discharge \<open>fixed_codec\<close> for each layout.
  \<^item> \<open>Wire_Enums\<close>: \<^verbatim>\<open>CommandId\<close> and \<^verbatim>\<open>ImageResult\<close> (lines 14--51) as datatypes with
    their wire values (\<open>CommandId_val\<close>, \<open>ImageResult_val\<close>), the partial inverses
    (\<open>CommandId_of\<close>, \<open>ImageResult_of\<close>) and the order by wire value.
  \<^item> \<open>Wire_Structs\<close>: the three structs (lines 56--100) as records, their codecs, the
    sizes and field offsets of the \<^verbatim>\<open>static_assert\<close>s, the two readings of the envelope's
    union.
  \<^item> \<open>Buffer_API\<close>: the class \<^verbatim>\<open>API\<close> (lines 104--144). The state is the content of the
    locked block; \<open>GetRequest\<close>/\<open>SetRequest\<close>, \<open>GetResponse\<close>/\<open>SetResponse\<close>,
    \<open>Base\<close>/\<open>SetBase\<close> are the read and the write through the references that the C++
    accessors return, \<open>RequestData\<close> and \<open>ResponseData\<close> the flexible array members,
    \<open>PrepareBase\<close>, \<open>MoveResponseToRequest\<close> and \<open>BufferSize\<close> the remaining members. The
    datatype \<open>api_op\<close> with \<open>api_step\<close> and \<open>api_run\<close> is the interface through which
    other components change the block.
  \<^item> \<open>Buffer_Slots\<close>: the abstract specification of the block as five slots and the
    proof that \<open>Buffer_API\<close> refines it.
  \<^item> \<open>Session\<close>: the shared buffer session (\<^verbatim>\<open>GetLockedAPI\<close>, line 157, from the design
    document). The client state \<open>trustlet\<close> is the shared block, the lock flag and the
    state of the secure world; \<open>GetLockedAPI\<close> hands out an \<open>API\<close> over a zeroed block,
    \<open>ReleaseAPI\<close> is the end of its lifetime, \<open>with_session\<close> the scope of a local \<open>API\<close>
    object. The error type \<open>error\<close> and the interface record \<open>secure_world\<close> (the process
    id and the two secure-world calls, over a type variable for the secure-world state)
    are declared here; the lemmas of the dispatcher hold for every such record.
  \<^item> \<open>Dispatcher\<close>: the three call shapes (\<^verbatim>\<open>SendCommand\<close>, \<^verbatim>\<open>SendDataCommand\<close>,
    \<^verbatim>\<open>SendModifiedCommand\<close>, lines 149--156, from the design document), each with its
    overload on a locked \<open>API\<close> (suffix \<open>_api\<close>, \<open>_id\<close>) and the one that opens its own
    session; the validation policy \<open>classify\<close>; the request builders \<open>plain_request\<close>,
    \<open>data_request\<close>, \<open>modified_request\<close> and the single \<open>exchange\<close> with the secure world
    that every shape is proved to be; \<open>fw_reply\<close>, the way a secure world writes a reply,
    with the example worlds \<open>echo_world\<close> and \<open>failing_world\<close> used by the witnesses.
  \<^item> \<open>Firmware\<close>: the other side of the block. A \<open>handler\<close> is a function from the
    request header, its payload and the firmware's state to a return value, a response
    payload and the new state; \<open>serve\<close> reads the request from the block, runs the
    handler and writes the reply with \<open>fw_reply\<close>, and \<open>handler_world\<close> is the
    \<open>secure_world\<close> it gives. The lemmas say what each call shape returns against a
    handler world, in terms of the handler alone. \<open>client_at\<close> is the invariant used to
    chain calls.
  \<^item> \<open>Operations\<close>: the interface of lines 159--180 as the datatype \<open>call\<close> (one
    constructor per declared operation, with its in-parameters) and \<open>reply\<close> (its
    out-parameters), the sensor control operations (section 4.4 of the design
    document) and the image operations \<^verbatim>\<open>GetImage\<close> and \<^verbatim>\<open>IsFingerLost\<close> (section 4.5), each
    one dispatcher call followed by a decoder of the response (\<open>decode_done\<close>,
    \<open>decode_u64\<close>, \<open>decode_print_ids\<close>, \<open>decode_image_result\<close>). An operation whose name
    is also an enumerator of \<open>CommandId\<close> carries the suffix \<open>_op\<close>.
  \<^item> \<open>Enrollment\<close>: the enrollment operations (lines 173--180, section 4.6 of the design
    document) on the state \<open>hal\<close> (the client, the position \<open>enroll_state\<close> in the
    sequence, the stream of candidate print ids, the scratch buffer); \<open>perform\<close>, one
    call of the interface, and \<open>perform_all\<close>, a run; the diagram of the sequence as the
    relation \<open>enroll_trans\<close> with its executable guard \<open>enabled\<close>; the traces of the
    diagram \<open>enroll_traces\<close> and the executable order condition \<open>ordered\<close> on the list
    of enrollment calls of a run with their outcomes.
  \<^item> \<open>Scenario\<close>: a reference firmware \<open>fw_handle\<close> (enrolled prints, token, known
    users, the percentages of the coming captures, the finger on the sensor) and the
    two scenarios of section 8 of the design document, proved for all parameters and
    instantiated at the values given there.
  \<^item> this theory: the properties that span components.

  \<^bold>\<open>Modelling decisions.\<close> Integers are kept at their width: every struct field is a
  \<open>32 word\<close>, a byte is an \<open>8 word\<close>, and a field is stored least significant byte first
  (the byte order of the ARM targets of this HAL; nothing in the header depends on it
  beyond the concrete bytes of the witnesses). An enumeration-typed field holds the raw
  word, because a scoped enumeration over \<^verbatim>\<open>uint32_t\<close> can hold any 32-bit value; the
  datatypes are the named enumerators. An access outside the block is undefined behaviour
  in C++ and the value \<open>None\<close> in the model, so that "the access is defined" is a
  statement that can be proved (\<open>api_ok\<close>, the \<open>_defined_iff\<close> lemmas). No operation
  loops, so there is no fuel and every definition is a terminating function; closed
  terms evaluate by \<open>simp add: wire_defs\<close> or \<open>code_simp\<close>.

  For the parts modelled from the design document: the secure world is a parameter, a
  function from the block (and the scratch buffer) and its own state to a status, the
  new block and its new state, so one call is one application of \<open>invoke\<close>; the only
  assumption ever made about it is \<open>world_ok\<close>, that it does not resize what it is
  given. The C++ functions return an \<^verbatim>\<open>int\<close>; the model returns \<open>error + 'a\<close> with the
  transport status inside \<open>TransportError\<close>, the three protocol violations of the
  design document inside \<open>ProtocolError\<close>, and the local refusals \<open>LockHeld\<close>,
  \<open>BufferFault\<close> (a block shorter than \<open>BufferSize\<close>) and \<open>PayloadTooLarge\<close>. The model
  is sequential: a call made while the lock is held, which would block in the
  program, returns \<open>LockHeld\<close> and changes nothing. The buffer provider hands out a
  zeroed block (section 6 of the design document), so a session never sees bytes of
  an earlier one; the overloads that take a locked \<open>API\<close> work on whatever the caller
  left in it. A plain command stores command, gid and a zero payload length in the
  request header and the process id in the cleared envelope, and nothing else; a
  modified-buffer command additionally stores the length of the scratch buffer in
  \<open>extra_buffer_size\<close>. The payload of a data command must fit behind the request
  header, so its capacity is the block length minus \<open>BufferSize\<close>.

  For the operations: the commands without input are plain commands; the master key,
  the work mode (four bytes), the data paths (the bytes of the string up to its first
  NUL, followed by a NUL), the auth token and the secure user id (eight bytes, with the
  gid in the header) are data commands; \<^verbatim>\<open>SetSpiState\<close> sends \<open>OpenSpi\<close> for a non-zero
  argument and \<open>CloseSpi\<close> for zero; \<^verbatim>\<open>IsFingerLost\<close> is a plain command that carries
  its timeout in the gid field of the header, the one caller-supplied field a plain
  command has; \<^verbatim>\<open>GetImage\<close> is a modified-buffer command on the scratch buffer of the
  state. An \<open>ImageResult\<close> is decoded from the first word of the response payload and
  an unknown value is the protocol error \<open>UnexpectedStatus\<close>; the enrollment result is
  the first \<open>0x20\<close> bytes of the payload; the print ids are the complete words of the
  payload. \<^verbatim>\<open>Enroll\<close> and \<^verbatim>\<open>SaveEnrolledPrint\<close> also store the fid in the request header.
  The header declares \<^verbatim>\<open>SaveEnrolledPrint\<close> with a 64-bit fid while every other fid is 32
  bits wide: the model accepts the call only when the argument is the allocated fid
  widened, and sends it narrowed. The program draws a new print id at random until it
  is not among the enrolled ids; the model draws from a list of candidates that is part
  of the state, so that the operation is a function, and returns \<open>Exhausted\<close> when every
  candidate is taken. An enrollment call that the diagram does not allow in the
  current position returns \<open>OrderViolation\<close> without a call of the secure world, and
  every failed enrollment call puts the position back to \<open>Idle\<close>. There is no loop in
  the operations (the repetition of \<^verbatim>\<open>Enroll\<close> is the caller's), so no fuel is needed;
  a run is a finite list of calls.

  \<^bold>\<open>What the lemmas show.\<close> Round trips of all encodings (words, enumerators, structs,
  slots); the layout constants of the \<^verbatim>\<open>static_assert\<close>s; that \<open>BufferSize\<close> is exactly the
  size at which all three views are defined; for every operation its result on every
  branch (success and out-of-bounds failure), the bytes it leaves alone, and that it
  keeps the block size; which views are independent (request against response and
  envelope) and which alias (the response header begins inside the envelope, so
  \<open>PrepareBase\<close> clears its first three words); and the refinement of the byte-level
  operations to slot updates. For the session: the lock is exclusive and is released
  on every path. For the dispatcher: every shape is a request builder followed by
  exactly one call of the secure world and the classification of its answer; the exact
  block each shape hands over; a non-zero transport status is a transport error in
  every shape and never anything else; the three kinds of result are exclusive and
  exhaustive; a payload that does not fit is refused without a call; the client
  invariant \<open>trustlet_ok\<close> is kept by every shape; and the success path is reachable
  (\<open>echo_world\<close>). For the firmware side: the result of each call shape against a
  handler world is the classification of the handler's reply, and the handler sees
  exactly the header and payload the client built. For the operations: the decoders
  invert the encodings, and every operation keeps the client invariant. For the
  enrollment: \<open>enabled\<close> is exactly the domain of the diagram; a call that is not
  enabled is refused and nothing is sent; a successful enrollment call moves along the
  diagram and a failed one returns to \<open>Idle\<close>; by rule induction on \<open>enroll_traces\<close>,
  every run from a new client is a trace of the diagram, hence \<open>ordered\<close>; the fresh
  print id is not an enrolled one. For the scenarios: the results the design document
  lists are the results of \<open>perform_all\<close> against the reference firmware.

  \<^bold>\<open>Not modelled here.\<close> The base class \<^verbatim>\<open>QSEETrustlet\<close> with its lock and its
  secure-world call, \<^verbatim>\<open>IonBuffer\<close>, the keymaster trustlet (\<^verbatim>\<open>MasterKey\<close>) and
  \<^verbatim>\<open>hw_auth_token_t\<close> are libraries the header only names; they appear as the interface
  record \<open>secure_world\<close> and as byte lists. Blocking on the lock, wall-clock time (the
  timeout of \<^verbatim>\<open>IsFingerLost\<close> is only forwarded) and the random source of print ids are
  outside a sequential functional model; they appear as \<open>LockHeld\<close>, as a field of the
  reference firmware, and as the candidate list.

  \<^bold>\<open>Plan.\<close> What remains: an interleaving model of two callers that shows the sessions
  of the lock to be serialised; the authentication-side use of \<^verbatim>\<open>CheckSecureId\<close>; worlds
  that answer with malformed replies at chosen steps of the enrollment, to show each
  protocol error of an enrollment step as a theorem about \<open>perform_all\<close>; and the
  balance of \<open>OpenSpi\<close> and \<open>CloseSpi\<close> around image operations as a property of call
  lists.
\<close>

section \<open>Properties that span components\<close>

text \<open>
  C11: the memory image of a plain command. Preparing the envelope for a process id and
  then writing a request header with that process id, the wire value of a command
  identifier, a gid, fid zero and no payload succeeds on every block of at least
  \<open>BufferSize\<close> bytes, and fixes the bytes the secure world will read: the envelope is
  the process id followed by 28 zero bytes, the request header at +0x5c is the process
  id, the opcode and the gid, least significant byte first, followed by eight zero
  bytes; read back through the views, the command is recognised as the identifier that
  was written.
\<close>

theorem plain_request_image:
  assumes "api_ok api"
  shows "\<exists>api'. api_run [OpPrepareBase pid,
        OpSetRequest \<lparr>process = pid, command = CommandId_val c, gid = g, fid = 0,
          buffer_size = 0\<rparr>] api = Some api'
    \<and> Base api' = Some (base_zero\<lparr>process_id := pid\<rparr>)
    \<and> Option.bind (GetRequest api') command_id = Some c
    \<and> map_option gid (GetRequest api') = Some g
    \<and> read_bytes (mLockedBuffer api') RequestOffset sizeof_trustlet_buffer_t
        = Some (le_bytes 4 pid @ le_bytes 4 (CommandId_val c) @ le_bytes 4 g @ replicate 8 0)
    \<and> read_bytes (mLockedBuffer api') 0 sizeof_base_transaction_t
        = Some (le_bytes 4 pid @ replicate 28 0)"
proof -
  let ?q = "\<lparr>process = pid, command = CommandId_val c, gid = g, fid = 0, buffer_size = 0\<rparr>"
  from assms obtain api1 where 1: "PrepareBase pid api = Some api1"
    using PrepareBase_defined_iff [of pid api] by (auto dest: api_ok_imp_lengths)
  then have "api_ok api1" using api_ok_length [OF PrepareBase_length [OF 1]] assms by simp
  then obtain api' where 2: "SetRequest ?q api1 = Some api'"
    using SetRequest_defined_iff by blast
  have b: "Base api' = Some (base_zero\<lparr>process_id := pid\<rparr>)"
    using Base_SetRequest [OF 2] Base_PrepareBase [OF 1] by simp
  have q: "GetRequest api' = Some ?q" using 2 by (rule GetRequest_SetRequest)
  have "enc trustlet_buffer_codec ?q
      = le_bytes 4 pid @ le_bytes 4 (CommandId_val c) @ le_bytes 4 g @ replicate 8 0"
    by (simp add: trustlet_buffer_codec_def words_codec_def trustlet_buffer_words_def
        replicate_add [symmetric])
  moreover have "read_bytes (mLockedBuffer api') RequestOffset 20
      = Some (enc trustlet_buffer_codec ?q)"
    using 2 read_write_same [of "mLockedBuffer api1" RequestOffset "enc trustlet_buffer_codec ?q"]
    by (auto simp: SetRequest_def with_buffer_Some_iff view_put_def)
  moreover have "read_bytes (mLockedBuffer api') 0 32 = Some (le_bytes 4 pid @ replicate 28 0)"
    using SetRequest_frame [OF 2, of 0 32] PrepareBase_buffer [OF 1] PrepareBase_length [OF 1]
      assms
    by (simp add: read_bytes_def api_ok_def)
  ultimately show ?thesis using 1 2 b q by (simp add: command_id_def)
qed

theorem plain_request_image_witness:
  "api_ok api_example \<and> (\<exists>api'. api_run [OpPrepareBase 0xe0,
        OpSetRequest \<lparr>process = 0xe0, command = CommandId_val IsFingerLost, gid = 3, fid = 0,
          buffer_size = 0\<rparr>] api_example = Some api'
    \<and> read_bytes (mLockedBuffer api') RequestOffset 20
        = Some [0xe0, 0, 0, 0, 0x25, 0, 0, 0, 3, 0, 0, 0, 0, 0, 0, 0, 0, 0, 0, 0])"
proof -
  have e: "le_bytes 4 (0xe0 :: u32) = [0xe0, 0, 0, 0]" "le_bytes 4 (0x25 :: u32) = [0x25, 0, 0, 0]"
    "le_bytes 4 (3 :: u32) = [3, 0, 0, 0]"
    by (simp_all add: le_bytes_def upt_rec)
  have r: "replicate 8 (0 :: u8) = [0, 0, 0, 0, 0, 0, 0, 0]"
    by (simp add: numeral_eq_Suc)
  from plain_request_image [OF api_ok_api_example, of "0xe0" IsFingerLost 3] show ?thesis
    by (auto simp: e r)
qed

end
